theory Spec2Isabelle
  imports
    Main
    "HOL-Library.Word"
    "HOL-Library.DAList"
    "HOL-Library.Sorting_Algorithms"
    "HOL-Library.List_Lexorder"
    "HOL-Library.Char_ord"
begin

unbundle bit_operations_syntax

section \<open>JavaScript values, strings and bytes\<close>

text \<open>
  A JavaScript string is held as the \<^typ>\<open>string\<close> of its UTF-8 encoding, one
  \<^typ>\<open>char\<close> per byte, so \<open>new TextEncoder().encode(s)\<close> reads the bytes off.
  Values that travel as request and response bodies are JSON-like runtime values; the
  types of \<open>src/types.ts\<close> are erased at run time, so a payload is a \<open>JObject\<close>
  whose properties are read by name. Every integer is a \<open>bigint\<close> (the JSON processor
  is configured with \<open>alwaysParseAsBig\<close>); doubles are outside this development.
\<close>

type_synonym byte = "8 word"
type_synonym bytes = "byte list"

datatype jsval =
    JUndefined
  | JNull
  | JBool bool
  | JBigInt int
  | JString string
  | JArray "jsval list"
  | JObject "(string \<times> jsval) list"

text \<open>\<open>if (v)\<close>, \<open>!v\<close>, \<open>v && ...\<close>: JavaScript's ToBoolean.\<close>

fun truthy :: "jsval \<Rightarrow> bool" where
  "truthy JUndefined = False"
| "truthy JNull = False"
| "truthy (JBool b) = b"
| "truthy (JBigInt i) = (i \<noteq> 0)"
| "truthy (JString s) = (s \<noteq> [])"
| "truthy (JArray xs) = True"
| "truthy (JObject fs) = True"

fun typeof :: "jsval \<Rightarrow> string" where
  "typeof JUndefined = ''undefined''"
| "typeof JNull = ''object''"
| "typeof (JBool b) = ''boolean''"
| "typeof (JBigInt i) = ''bigint''"
| "typeof (JString s) = ''string''"
| "typeof (JArray xs) = ''object''"
| "typeof (JObject fs) = ''object''"

text \<open>An \<open>Error\<close> object as a \<open>catch\<close> clause reads it: \<open>error.message\<close>, \<open>error.status\<close>.\<close>

record jserror =
  err_message :: string
  err_status :: "nat option"

definition utf8 :: "string \<Rightarrow> bytes" where
  "utf8 s = map of_char s"

text \<open>\<open>String.prototype.toLowerCase\<close> on the ASCII letters; the other bytes stay.\<close>

definition lowerChar :: "char \<Rightarrow> char" where
  "lowerChar c =
     (if (65::nat) \<le> of_char c \<and> of_char c \<le> (90::nat)
      then char_of (of_char c + (32::nat)) else c)"

definition toLowerCase :: "string \<Rightarrow> string" where
  "toLowerCase s = map lowerChar s"

definition startsWith :: "string \<Rightarrow> string \<Rightarrow> bool" where
  "startsWith s p = (take (length p) s = p)"

text \<open>\<open>Number.prototype.toString\<close> of an integral number: its decimal digits.\<close>

definition digitChar :: "nat \<Rightarrow> char" where
  "digitChar d = char_of (48 + d)"

fun natToString :: "nat \<Rightarrow> string" where
  "natToString n =
     (if n < 10 then [digitChar n] else natToString (n div 10) @ [digitChar (n mod 10)])"

declare natToString.simps [simp del]

definition toString :: "int \<Rightarrow> string" where
  "toString i = (if i < 0 then CHR ''-'' # natToString (nat (- i)) else natToString (nat i))"

subsection \<open>\<open>Buffer.toString('base64')\<close>\<close>

definition b64chars :: string where
  "b64chars = ''ABCDEFGHIJKLMNOPQRSTUVWXYZabcdefghijklmnopqrstuvwxyz0123456789+/''"

definition b64 :: "byte \<Rightarrow> char" where
  "b64 i = b64chars ! unat (i AND 63)"

fun base64 :: "bytes \<Rightarrow> string" where
  "base64 (a # b # c # rest) =
     [b64 (drop_bit 2 a),
      b64 (push_bit 4 (a AND 3) OR drop_bit 4 b),
      b64 (push_bit 2 (b AND 15) OR drop_bit 6 c),
      b64 (c AND 63)] @ base64 rest"
| "base64 [a, b] =
     [b64 (drop_bit 2 a),
      b64 (push_bit 4 (a AND 3) OR drop_bit 4 b),
      b64 (push_bit 2 (b AND 15)),
      CHR ''='']"
| "base64 [a] =
     [b64 (drop_bit 2 a), b64 (push_bit 4 (a AND 3)), CHR ''='', CHR ''='']"
| "base64 [] = []"

text \<open>\<open>s.replace(/=+$/, '')\<close>: the longest run of \<open>=\<close> at the end is removed.\<close>

definition stripTrailingEquals :: "string \<Rightarrow> string" where
  "stripTrailingEquals s = rev (dropWhile (\<lambda>c. c = CHR ''='') (rev s))"

section \<open>What the program takes from its platform and its libraries\<close>

text \<open>
  The functions of \<open>@noble/hashes\<close>, \<open>json-bigint\<close>, \<open>axios\<close> and the JavaScript
  engine that the sources call and do not define. They are parameters of the model:
  every theorem below holds for each of their values.
  \<^item> \<open>hmacSha256 key msg\<close>: \<open>hmac(sha256, key, msg)\<close>;
  \<^item> \<open>localeCompare\<close>: \<open>String.prototype.localeCompare\<close>, a consistent comparison;
  \<^item> \<open>base64ToBytes\<close>: \<open>Buffer.from(s, 'base64')\<close>;
  \<^item> \<open>jsonParse\<close>, \<open>jsonStringify\<close>: the two functions of the processor
    \<open>JSONBigInt({alwaysParseAsBig: true, useNativeBigInt: true})\<close>;
  \<^item> \<open>mergeHeaders\<close>: how axios joins the headers of the instance with those of a call;
  \<^item> \<open>VERSION\<close>: the constant of \<open>src/version.ts\<close>, a file the build generates.
\<close>

type_synonym headers = "(string, string) alist"

record runtime =
  hmacSha256 :: "bytes \<Rightarrow> bytes \<Rightarrow> bytes"
  localeCompare :: "string comparator"
  base64ToBytes :: "string \<Rightarrow> bytes"
  jsonParse :: "string \<Rightarrow> jserror + jsval"
  jsonStringify :: "jsval \<Rightarrow> string"
  mergeHeaders :: "headers \<Rightarrow> headers \<Rightarrow> headers"
  VERSION :: string

text \<open>
  \<open>localeCompare\<close> as the engine has it with its default collation (the root collation
  of ICU, which an English locale uses), on names made of ASCII letters, digits and
  \<open>-\<close>: the names are first compared without regard to case, where \<open>-\<close> comes before
  the digits and the digits before the letters; names that are the same but for case are
  told apart at their first difference, the lower-case letter first.
\<close>

definition isUpper :: "char \<Rightarrow> bool" where
  "isUpper c = ((65::nat) \<le> of_char c \<and> of_char c \<le> (90::nat))"

definition asciiLocaleCompare :: "string comparator" where
  "asciiLocaleCompare = key (\<lambda>s. (toLowerCase s, map isUpper s)) (prod_lex default default)"

section \<open>\<open>src/http.ts\<close>\<close>

definition RENEGADE_HEADER_PREFIX :: string where
  "RENEGADE_HEADER_PREFIX = ''x-renegade''"

definition RENEGADE_AUTH_HEADER :: string where
  "RENEGADE_AUTH_HEADER = ''x-renegade-auth''"

definition RENEGADE_AUTH_EXPIRATION_HEADER :: string where
  "RENEGADE_AUTH_EXPIRATION_HEADER = ''x-renegade-auth-expiration''"

definition REQUEST_SIGNATURE_DURATION_MS :: int where
  "REQUEST_SIGNATURE_DURATION_MS = 10 * 1000"

subsection \<open>\<open>parseBigJSON\<close>, \<open>stringifyBigJSON\<close>\<close>

text \<open>
  \<open>parseBigJSON\<close> returns a value or throws, and writes to the console: the result is
  the pair of the outcome and of the lines given to \<open>console.error\<close>.
\<close>

type_synonym console = "(string \<times> jserror) list"

definition parseBigJSON :: "runtime \<Rightarrow> string \<Rightarrow> (jserror + jsval) \<times> console" where
  "parseBigJSON rt data =
     (case jsonParse rt data of
        Inr v \<Rightarrow> (Inr v, [])
      | Inl error \<Rightarrow> (Inr (JString data), [(''Failed to parse JSON with BigInt'', error)]))"

definition stringifyBigJSON :: "runtime \<Rightarrow> jsval \<Rightarrow> string" where
  "stringifyBigJSON rt data = jsonStringify rt data"

subsection \<open>\<open>RelayerHttpClient\<close>\<close>

record RelayerHttpClient =
  baseUrl :: string
  defaultHeaders :: headers
  authKey :: bytes

definition decodeBase64 :: "runtime \<Rightarrow> string \<Rightarrow> bytes" where
  "decodeBase64 rt b = base64ToBytes rt b"

definition encodeBase64 :: "bytes \<Rightarrow> string" where
  "encodeBase64 d = stripTrailingEquals (base64 d)"

definition RelayerHttpClient_new :: "runtime \<Rightarrow> string \<Rightarrow> string \<Rightarrow> RelayerHttpClient" where
  "RelayerHttpClient_new rt url secret =
     \<lparr> baseUrl = url,
       defaultHeaders = DAList.update ''Content-Type'' ''application/json'' DAList.empty,
       authKey = decodeBase64 rt secret \<rparr>"

text \<open>
  The request configuration the interceptor receives. \<open>headers\<close> is an object: its
  property names are distinct, \<open>Object.entries\<close> lists them in insertion order, and
  an assignment \<open>headers[k] = v\<close> overwrites \<open>k\<close> in place or appends it. The type
  \<open>InternalAxiosRequestConfig\<close> has no request without headers.
\<close>

record config =
  cfg_method :: string
  cfg_url :: "string option"
  cfg_headers :: headers
  cfg_data :: jsval

text \<open>The streaming MAC of \<open>hmac.create(sha256, key)\<close>: \<open>update\<close> appends to the message.\<close>

record hmac_ctx =
  mac_key :: bytes
  mac_msg :: bytes

definition hmac_create :: "bytes \<Rightarrow> hmac_ctx" where
  "hmac_create k = \<lparr> mac_key = k, mac_msg = [] \<rparr>"

definition mac_update :: "hmac_ctx \<Rightarrow> bytes \<Rightarrow> hmac_ctx" where
  "mac_update m bs = m \<lparr> mac_msg := mac_msg m @ bs \<rparr>"

definition mac_digest :: "runtime \<Rightarrow> hmac_ctx \<Rightarrow> bytes" where
  "mac_digest rt m = hmacSha256 rt (mac_key m) (mac_msg m)"

text \<open>The headers that are signed, in the order they are fed to the MAC.\<close>

definition renegadeHeaders :: "runtime \<Rightarrow> headers \<Rightarrow> (string \<times> string) list" where
  "renegadeHeaders rt hs =
     Sorting_Algorithms.sort (key fst (localeCompare rt))
       (filter (\<lambda>(k, v). toLowerCase k \<noteq> toLowerCase RENEGADE_AUTH_HEADER)
         (filter (\<lambda>(k, v). startsWith (toLowerCase k) RENEGADE_HEADER_PREFIX)
           (DAList.impl_of hs)))"

text \<open>The body as it is signed.\<close>

definition signedBody :: "runtime \<Rightarrow> jsval \<Rightarrow> string" where
  "signedBody rt d =
     (if truthy d
      then (if typeof d = ''string'' then (case d of JString s \<Rightarrow> s | _ \<Rightarrow> [])
            else stringifyBigJSON rt d)
      else [])"

definition addAuthInterceptor :: "runtime \<Rightarrow> RelayerHttpClient \<Rightarrow> int \<Rightarrow> config \<Rightarrow> config" where
  "addAuthInterceptor rt c now cfg =
     (let timestamp = now;
          expiry = timestamp + REQUEST_SIGNATURE_DURATION_MS;
          hs = DAList.update RENEGADE_AUTH_EXPIRATION_HEADER (toString expiry) (cfg_headers cfg);
          mac = hmac_create (authKey c);
          fullPath = (case cfg_url cfg of None \<Rightarrow> [] | Some u \<Rightarrow> u);
          mac = mac_update mac (utf8 fullPath);
          mac = foldl (\<lambda>m (k, v). mac_update (mac_update m (utf8 k)) (utf8 v)) mac
                  (renegadeHeaders rt hs);
          body = signedBody rt (cfg_data cfg);
          mac = mac_update mac (utf8 body)
      in cfg \<lparr> cfg_headers := DAList.update RENEGADE_AUTH_HEADER (encodeBase64 (mac_digest rt mac)) hs \<rparr>)"

text \<open>
  The two transforms given to \<open>axios.create\<close>. axios runs the request interceptor
  first, then \<open>transformRequest\<close> on \<open>config.data\<close>, then hands the configuration to
  its adapter; \<open>transformResponse\<close> runs on the data of the response. The adapter and
  the server behind it are the parameter \<open>net\<close>: it answers a transmitted request with
  a response, or rejects with an error. The headers the adapter adds for the transport
  (\<open>User-Agent\<close>, \<open>Content-Length\<close>, \<open>Accept-Encoding\<close>, \<open>Host\<close>) are its own.
\<close>

definition transformRequest :: "runtime \<Rightarrow> jsval \<Rightarrow> jsval" where
  "transformRequest rt d =
     (if truthy d \<and> typeof d = ''object'' then JString (stringifyBigJSON rt d) else d)"

definition transformResponse :: "runtime \<Rightarrow> jsval \<Rightarrow> jserror + jsval" where
  "transformResponse rt d =
     (if typeof d = ''string''
      then (case d of JString s \<Rightarrow> fst (parseBigJSON rt s) | _ \<Rightarrow> Inr d)
      else Inr d)"

record response =
  resp_status :: nat
  resp_data :: jsval

type_synonym network = "config \<Rightarrow> jserror + response"

text \<open>
  With \<open>transformRequest\<close>, so after the interceptor, axios normalizes the headers of
  the configuration (\<open>AxiosHeaders.prototype.normalize\<close>, called by \<open>transformData\<close>): it
  visits the names in insertion order, and a name that differs only in case from a name
  it has kept (\<open>utils.findKey\<close>, which compares in lower case) is removed, its value
  replacing the value under the name kept. A header of the transmitted request so has
  the spelling of the first of these names and the value of the last. Header names are
  HTTP tokens: they carry no white space, which \<open>normalize\<close> would trim. This is
  axios 1, whose types \<open>InternalAxiosRequestConfig\<close> and \<open>AxiosRequestHeaders\<close> the
  source imports.
\<close>

definition findKey :: "headers \<Rightarrow> string \<Rightarrow> string option" where
  "findKey hs k =
     find (\<lambda>n. toLowerCase n = toLowerCase k) (rev (map fst (DAList.impl_of hs)))"

definition AxiosHeaders_normalize :: "headers \<Rightarrow> headers" where
  "AxiosHeaders_normalize hs =
     foldl (\<lambda>kept (header, v).
              case findKey kept header of
                Some k \<Rightarrow> DAList.update k v kept
              | None \<Rightarrow> DAList.update header v kept)
       DAList.empty (DAList.impl_of hs)"

text \<open>
  One request through the axios instance of the client: the request as transmitted,
  and how the promise settles.
\<close>

definition request :: "runtime \<Rightarrow> RelayerHttpClient \<Rightarrow> network \<Rightarrow> int \<Rightarrow> config
    \<Rightarrow> config \<times> (jserror + response)" where
  "request rt c net now cfg =
     (let signed = addAuthInterceptor rt c now cfg;
          sent = signed \<lparr> cfg_headers := AxiosHeaders_normalize (cfg_headers signed),
                          cfg_data := transformRequest rt (cfg_data signed) \<rparr>
      in (sent,
          (case net sent of
             Inl e \<Rightarrow> Inl e
           | Inr r \<Rightarrow>
               (case transformResponse rt (resp_data r) of
                  Inl e \<Rightarrow> Inl e
                | Inr d \<Rightarrow> Inr (r \<lparr> resp_data := d \<rparr>)))))"

definition RelayerHttpClient_get :: "runtime \<Rightarrow> RelayerHttpClient \<Rightarrow> network \<Rightarrow> int
    \<Rightarrow> string \<Rightarrow> headers \<Rightarrow> config \<times> (jserror + response)" where
  "RelayerHttpClient_get rt c net now path hdrs =
     request rt c net now
       \<lparr> cfg_method = ''get'', cfg_url = Some path,
         cfg_headers = mergeHeaders rt (defaultHeaders c) hdrs, cfg_data = JUndefined \<rparr>"

definition RelayerHttpClient_post :: "runtime \<Rightarrow> RelayerHttpClient \<Rightarrow> network \<Rightarrow> int
    \<Rightarrow> string \<Rightarrow> jsval \<Rightarrow> headers \<Rightarrow> config \<times> (jserror + response)" where
  "RelayerHttpClient_post rt c net now path d hdrs =
     request rt c net now
       \<lparr> cfg_method = ''post'', cfg_url = Some path,
         cfg_headers = mergeHeaders rt (defaultHeaders c) hdrs, cfg_data = d \<rparr>"

section \<open>The client (\<open>src/client.ts\<close>)\<close>

definition RENEGADE_API_KEY_HEADER :: string where
  "RENEGADE_API_KEY_HEADER = ''x-renegade-api-key''"

definition RENEGADE_SDK_VERSION_HEADER :: string where
  "RENEGADE_SDK_VERSION_HEADER = ''x-renegade-sdk-version''"

definition REQUEST_EXTERNAL_QUOTE_ROUTE :: string where
  "REQUEST_EXTERNAL_QUOTE_ROUTE = ''/v0/matching-engine/quote''"

definition ASSEMBLE_EXTERNAL_MATCH_ROUTE :: string where
  "ASSEMBLE_EXTERNAL_MATCH_ROUTE = ''/v0/matching-engine/assemble-external-match''"

definition DISABLE_GAS_SPONSORSHIP_QUERY_PARAM :: string where
  "DISABLE_GAS_SPONSORSHIP_QUERY_PARAM = ''disable_gas_sponsorship''"

definition GAS_REFUND_ADDRESS_QUERY_PARAM :: string where
  "GAS_REFUND_ADDRESS_QUERY_PARAM = ''refund_address''"

definition REFUND_NATIVE_ETH_QUERY_PARAM :: string where
  "REFUND_NATIVE_ETH_QUERY_PARAM = ''refund_native_eth''"

definition getSdkVersion :: "runtime \<Rightarrow> string" where
  "getSdkVersion rt = ''typescript-v'' @ VERSION rt"

subsection \<open>\<open>URLSearchParams\<close>\<close>

type_synonym params = "(string \<times> string) list"

fun setFirst :: "string \<Rightarrow> string \<Rightarrow> params \<Rightarrow> params" where
  "setFirst k v [] = []"
| "setFirst k v (p # ps) =
     (if fst p = k then (k, v) # filter (\<lambda>q. fst q \<noteq> k) ps else p # setFirst k v ps)"

text \<open>\<open>params.set(k, v)\<close>: the first pair named \<open>k\<close> takes the value and the others go;
  with no such pair, the pair is appended.\<close>

definition params_set :: "string \<Rightarrow> string \<Rightarrow> params \<Rightarrow> params" where
  "params_set k v ps = (if k \<in> set (map fst ps) then setFirst k v ps else ps @ [(k, v)])"

definition hexDigit :: "nat \<Rightarrow> char" where
  "hexDigit d = (if d < 10 then char_of (48 + d) else char_of (55 + d))"

text \<open>The \<open>application/x-www-form-urlencoded\<close> byte serializer.\<close>

definition formEncodeChar :: "char \<Rightarrow> string" where
  "formEncodeChar c =
     (let n = (of_char c :: nat) in
      if n = 32 then ''+''
      else if (48 \<le> n \<and> n \<le> 57) \<or> (65 \<le> n \<and> n \<le> 90) \<or> (97 \<le> n \<and> n \<le> 122)
              \<or> n = 42 \<or> n = 45 \<or> n = 46 \<or> n = 95 then [c]
      else [CHR ''%'', hexDigit (n div 16), hexDigit (n mod 16)])"

definition formEncode :: "string \<Rightarrow> string" where
  "formEncode s = concat (map formEncodeChar s)"

fun joinWith :: "string \<Rightarrow> string list \<Rightarrow> string" where
  "joinWith sep [] = []"
| "joinWith sep [x] = x"
| "joinWith sep (x # y # ys) = x @ sep @ joinWith sep (y # ys)"

definition params_toString :: "params \<Rightarrow> string" where
  "params_toString ps = joinWith ''&'' (map (\<lambda>(k, v). formEncode k @ ''='' @ formEncode v) ps)"

definition boolToString :: "bool \<Rightarrow> string" where
  "boolToString b = (if b then ''true'' else ''false'')"

text \<open>\<open>if (s)\<close> for an optional string: set and not empty.\<close>

definition present :: "string option \<Rightarrow> bool" where
  "present s = (case s of None \<Rightarrow> False | Some a \<Rightarrow> a \<noteq> [])"

subsection \<open>\<open>RequestQuoteOptions\<close>\<close>

record RequestQuoteOptions =
  disableGasSponsorship :: bool
  gasRefundAddress :: "string option"
  refundNativeEth :: bool

definition RequestQuoteOptions_new :: RequestQuoteOptions where
  "RequestQuoteOptions_new =
     \<lparr> disableGasSponsorship = False, gasRefundAddress = None, refundNativeEth = False \<rparr>"

definition RequestQuoteOptions_buildRequestPath :: "RequestQuoteOptions \<Rightarrow> string" where
  "RequestQuoteOptions_buildRequestPath this =
     (let params = [];
          params = params_set DISABLE_GAS_SPONSORSHIP_QUERY_PARAM
                     (boolToString (disableGasSponsorship this)) params;
          params = (if present (gasRefundAddress this)
                    then params_set GAS_REFUND_ADDRESS_QUERY_PARAM (the (gasRefundAddress this)) params
                    else params);
          params = (if refundNativeEth this
                    then params_set REFUND_NATIVE_ETH_QUERY_PARAM
                           (boolToString (refundNativeEth this)) params
                    else params)
      in REQUEST_EXTERNAL_QUOTE_ROUTE @ ''?'' @ params_toString params)"

subsection \<open>\<open>AssembleExternalMatchOptions\<close>\<close>

text \<open>The field \<open>gasRefundAddress\<close> of this class is \<open>gasRefundAddress'\<close> here: a record
  field has one owner.\<close>

record AssembleExternalMatchOptions =
  doGasEstimation :: bool
  allowShared :: bool
  receiverAddress :: "string option"
  updatedOrder :: "jsval option"
  requestGasSponsorship :: bool
  gasRefundAddress' :: "string option"

definition AssembleExternalMatchOptions_new :: AssembleExternalMatchOptions where
  "AssembleExternalMatchOptions_new =
     \<lparr> doGasEstimation = False, allowShared = False, receiverAddress = None,
       updatedOrder = None, requestGasSponsorship = False, gasRefundAddress' = None \<rparr>"

definition withGasEstimation :: "bool \<Rightarrow> AssembleExternalMatchOptions \<Rightarrow> AssembleExternalMatchOptions" where
  "withGasEstimation b this = this \<lparr> doGasEstimation := b \<rparr>"

definition withAllowShared :: "bool \<Rightarrow> AssembleExternalMatchOptions \<Rightarrow> AssembleExternalMatchOptions" where
  "withAllowShared b this = this \<lparr> allowShared := b \<rparr>"

definition withReceiverAddress :: "string \<Rightarrow> AssembleExternalMatchOptions \<Rightarrow> AssembleExternalMatchOptions" where
  "withReceiverAddress a this = this \<lparr> receiverAddress := Some a \<rparr>"

definition withUpdatedOrder :: "jsval \<Rightarrow> AssembleExternalMatchOptions \<Rightarrow> AssembleExternalMatchOptions" where
  "withUpdatedOrder ord this = this \<lparr> updatedOrder := Some ord \<rparr>"

definition withGasSponsorship :: "bool \<Rightarrow> AssembleExternalMatchOptions \<Rightarrow> AssembleExternalMatchOptions" where
  "withGasSponsorship b this = this \<lparr> requestGasSponsorship := b \<rparr>"

definition withGasRefundAddress :: "string \<Rightarrow> AssembleExternalMatchOptions \<Rightarrow> AssembleExternalMatchOptions" where
  "withGasRefundAddress a this = this \<lparr> gasRefundAddress' := Some a \<rparr>"

definition AssembleExternalMatchOptions_buildRequestPath ::
    "AssembleExternalMatchOptions \<Rightarrow> string" where
  "AssembleExternalMatchOptions_buildRequestPath this =
     (if \<not> requestGasSponsorship this \<and> \<not> present (gasRefundAddress' this)
      then ASSEMBLE_EXTERNAL_MATCH_ROUTE
      else
        (let params = [];
             params = (if requestGasSponsorship this
                       then params_set DISABLE_GAS_SPONSORSHIP_QUERY_PARAM
                              (boolToString (\<not> requestGasSponsorship this)) params
                       else params);
             params = (if present (gasRefundAddress' this)
                       then params_set GAS_REFUND_ADDRESS_QUERY_PARAM
                              (the (gasRefundAddress' this)) params
                       else params)
         in ASSEMBLE_EXTERNAL_MATCH_ROUTE @ ''?'' @ params_toString params))"

subsection \<open>\<open>ExternalMatchClient\<close>\<close>

text \<open>What a method of the client throws: an error of the platform or of a library
  (\<open>Error\<close>), or the client's own \<open>ExternalMatchClientError(message, statusCode)\<close>.\<close>

datatype thrown =
    Error jserror
  | ExternalMatchClientError string "nat option"

record ExternalMatchClient =
  apiKey :: string
  httpClient :: RelayerHttpClient

definition ExternalMatchClient_new :: "runtime \<Rightarrow> string \<Rightarrow> string \<Rightarrow> string \<Rightarrow> ExternalMatchClient" where
  "ExternalMatchClient_new rt k apiSecret url =
     \<lparr> apiKey = k, httpClient = RelayerHttpClient_new rt url apiSecret \<rparr>"

definition getHeaders :: "runtime \<Rightarrow> ExternalMatchClient \<Rightarrow> headers" where
  "getHeaders rt this =
     DAList.update RENEGADE_SDK_VERSION_HEADER (getSdkVersion rt)
       (DAList.update RENEGADE_API_KEY_HEADER (apiKey this) DAList.empty)"

text \<open>
  A property read \<open>v.p\<close>, for the property names of the payloads: on \<open>undefined\<close> and
  \<open>null\<close> it throws a \<open>TypeError\<close> whose message names the value read from; an object
  gives the property, or \<open>undefined\<close> when it has none of that name; the other values
  have no such property.
\<close>

definition typeError :: "string \<Rightarrow> string \<Rightarrow> jserror" where
  "typeError v p =
     \<lparr> err_message = ''Cannot read properties of '' @ v @ '' (reading '' @ [CHR 0x27] @ p @ [CHR 0x27] @ '')'',
       err_status = None \<rparr>"

fun getProp :: "jsval \<Rightarrow> string \<Rightarrow> jserror + jsval" where
  "getProp JUndefined p = Inl (typeError ''undefined'' p)"
| "getProp JNull p = Inl (typeError ''null'' p)"
| "getProp (JObject fs) p = Inr (case map_of fs p of None \<Rightarrow> JUndefined | Some v \<Rightarrow> v)"
| "getProp v p = Inr JUndefined"

text \<open>The \<open>catch\<close> clause of both methods; \<open>fallback\<close> is the message of the method.\<close>

definition catchClause :: "string \<Rightarrow> jserror \<Rightarrow> thrown + jsval" where
  "catchClause fallback error =
     (if err_status error = Some 204 then Inr JNull
      else Inl (ExternalMatchClientError
                 (if err_message error \<noteq> [] then err_message error else fallback)
                 (err_status error)))"

definition optional :: "('a \<Rightarrow> jsval) \<Rightarrow> 'a option \<Rightarrow> jsval" where
  "optional f x = (case x of None \<Rightarrow> JUndefined | Some a \<Rightarrow> f a)"

definition requestQuoteWithOptions :: "runtime \<Rightarrow> network \<Rightarrow> ExternalMatchClient \<Rightarrow> int
    \<Rightarrow> jsval \<Rightarrow> RequestQuoteOptions \<Rightarrow> config \<times> (thrown + jsval)" where
  "requestQuoteWithOptions rt net this now ord options =
     (let req = JObject [(''external_order'', ord)];
          path = RequestQuoteOptions_buildRequestPath options;
          hdrs = getHeaders rt this;
          (sent, settled) = RelayerHttpClient_post rt (httpClient this) net now path req hdrs;
          tried =
            (case settled of
               Inl e \<Rightarrow> Inl e
             | Inr resp \<Rightarrow>
                 if resp_status resp = 204 \<or> \<not> truthy (resp_data resp) then Inr JNull
                 else
                   (let quoteResp = resp_data resp in
                    case getProp quoteResp ''signed_quote'' of
                      Inl e \<Rightarrow> Inl e
                    | Inr sq1 \<Rightarrow>
                    (case getProp sq1 ''quote'' of
                      Inl e \<Rightarrow> Inl e
                    | Inr q \<Rightarrow>
                    (case getProp quoteResp ''signed_quote'' of
                      Inl e \<Rightarrow> Inl e
                    | Inr sq2 \<Rightarrow>
                    (case getProp sq2 ''signature'' of
                      Inl e \<Rightarrow> Inl e
                    | Inr sg \<Rightarrow>
                    (case getProp quoteResp ''gas_sponsorship_info'' of
                      Inl e \<Rightarrow> Inl e
                    | Inr g \<Rightarrow>
                        Inr (JObject [(''quote'', q), (''signature'', sg),
                                      (''gas_sponsorship_info'', g)])))))))
      in (sent,
          (case tried of
             Inr v \<Rightarrow> Inr v
           | Inl error \<Rightarrow> catchClause ''Failed to request quote'' error)))"

definition requestQuote :: "runtime \<Rightarrow> network \<Rightarrow> ExternalMatchClient \<Rightarrow> int \<Rightarrow> jsval
    \<Rightarrow> config \<times> (thrown + jsval)" where
  "requestQuote rt net this now ord =
     requestQuoteWithOptions rt net this now ord RequestQuoteOptions_new"

text \<open>
  \<open>assembleQuoteWithOptions\<close> builds its request object before its \<open>try\<close> block
  (\<open>assembleRequest\<close>: the constants \<open>signedQuote\<close> and \<open>request\<close> of the method). It
  reads \<open>quote.quote\<close> and \<open>quote.signature\<close> there: on a \<open>quote\<close> that is \<open>null\<close>
  or \<open>undefined\<close> (which the parameter's type \<open>SignedExternalQuote\<close> excludes) the
  \<open>TypeError\<close> leaves the method as it is and no request is sent.
\<close>

text \<open>\<open>Object.keys\<close>.\<close>

fun objectKeys :: "jsval \<Rightarrow> string list" where
  "objectKeys (JObject fs) = map fst fs"
| "objectKeys v = []"


definition assembleRequest :: "jsval \<Rightarrow> AssembleExternalMatchOptions \<Rightarrow> jserror + jsval" where
  "assembleRequest quote options =
     (case getProp quote ''quote'' of
        Inl e \<Rightarrow> Inl e
      | Inr q \<Rightarrow>
     (case getProp quote ''signature'' of
        Inl e \<Rightarrow> Inl e
      | Inr sg \<Rightarrow>
        (let signedQuote = JObject [(''quote'', q), (''signature'', sg)]
         in Inr (JObject
               [(''do_gas_estimation'', JBool (doGasEstimation options)),
                (''allow_shared'', JBool (allowShared options)),
                (''receiver_address'', optional JString (receiverAddress options)),
                (''signed_quote'', signedQuote),
                (''updated_order'', optional id (updatedOrder options))]))))"

definition assembleQuoteWithOptions :: "runtime \<Rightarrow> network \<Rightarrow> ExternalMatchClient \<Rightarrow> int
    \<Rightarrow> jsval \<Rightarrow> AssembleExternalMatchOptions \<Rightarrow> config option \<times> (thrown + jsval)" where
  "assembleQuoteWithOptions rt net this now quote options =
     (case assembleRequest quote options of
        Inl e \<Rightarrow> (None, Inl (Error e))
      | Inr req \<Rightarrow>
        (let path = AssembleExternalMatchOptions_buildRequestPath options;
             hdrs = getHeaders rt this;
             (sent, settled) = RelayerHttpClient_post rt (httpClient this) net now path req hdrs;
             tried =
               (case settled of
                  Inl e \<Rightarrow> Inl e
                | Inr resp \<Rightarrow>
                    if resp_status resp = 204 \<or> \<not> truthy (resp_data resp) then Inr JNull
                    else Inr (resp_data resp))
         in (Some sent,
             (case tried of
                Inr v \<Rightarrow> Inr v
              | Inl error \<Rightarrow> catchClause ''Failed to assemble quote'' error))))"

definition assembleQuote :: "runtime \<Rightarrow> network \<Rightarrow> ExternalMatchClient \<Rightarrow> int \<Rightarrow> jsval
    \<Rightarrow> config option \<times> (thrown + jsval)" where
  "assembleQuote rt net this now quote =
     assembleQuoteWithOptions rt net this now quote AssembleExternalMatchOptions_new"

section \<open>The JSON processor\<close>

text \<open>
  Modelled from the spec: the BigInt-safe JSON codec, which is the library
  \<open>json-bigint\<close> configured in \<open>src/http.ts\<close> with \<open>alwaysParseAsBig\<close> and
  \<open>useNativeBigInt\<close>; its code is not among the sources. \<open>json_stringify\<close> is
  \<open>encode\<close>: an integer is emitted as a bare literal of decimal digits, a property
  whose value is \<open>undefined\<close> is left out, an \<open>undefined\<close> in an array is \<open>null\<close>.
  \<open>json_parse\<close> is \<open>decode\<close>: every integer literal becomes a \<open>bigint\<close>; a literal
  with a fraction or an exponent denotes a double, which this development has no value
  for, and is refused, as is an escape of a surrogate code unit.
\<close>

definition hexLower :: "nat \<Rightarrow> char" where
  "hexLower d = (if d < 10 then char_of (48 + d) else char_of (87 + d))"

definition escapeChar :: "char \<Rightarrow> string" where
  "escapeChar c =
     (let n = (of_char c :: nat) in
      if n = 0x22 then [CHR 0x5C, CHR 0x22]
      else if n = 0x5C then [CHR 0x5C, CHR 0x5C]
      else if n = 0x08 then [CHR 0x5C, CHR ''b'']
      else if n = 0x0C then [CHR 0x5C, CHR ''f'']
      else if n = 0x0A then [CHR 0x5C, CHR ''n'']
      else if n = 0x0D then [CHR 0x5C, CHR ''r'']
      else if n = 0x09 then [CHR 0x5C, CHR ''t'']
      else if n < 0x20
        then [CHR 0x5C, CHR ''u'', CHR ''0'', CHR ''0'', hexLower (n div 16), hexLower (n mod 16)]
      else [c])"

definition quoteString :: "string \<Rightarrow> string" where
  "quoteString s = [CHR 0x22] @ concat (map escapeChar s) @ [CHR 0x22]"

text \<open>The members of an object literal: a property whose value has no serialization
  (\<open>undefined\<close>) is left out.\<close>

fun members :: "(string \<times> string option) list \<Rightarrow> string list" where
  "members [] = []"
| "members ((k, None) # ps) = members ps"
| "members ((k, Some v) # ps) = (quoteString k @ '':'' @ v) # members ps"

definition element :: "string option \<Rightarrow> string" where
  "element e = (case e of None \<Rightarrow> ''null'' | Some v \<Rightarrow> v)"

primrec encodeValue :: "jsval \<Rightarrow> string option" where
  "encodeValue JUndefined = None"
| "encodeValue JNull = Some ''null''"
| "encodeValue (JBool b) = Some (boolToString b)"
| "encodeValue (JBigInt i) = Some (toString i)"
| "encodeValue (JString s) = Some (quoteString s)"
| "encodeValue (JArray xs) = Some (''['' @ joinWith '','' (map element (map encodeValue xs)) @ '']'')"
| "encodeValue (JObject fs) =
     Some (''{'' @ joinWith '','' (members (map (map_prod id encodeValue) fs)) @ ''}'')"

definition json_stringify :: "jsval \<Rightarrow> string" where
  "json_stringify v = (case encodeValue v of None \<Rightarrow> [] | Some s \<Rightarrow> s)"

definition isWs :: "char \<Rightarrow> bool" where
  "isWs c = (c = CHR 0x20 \<or> c = CHR 0x09 \<or> c = CHR 0x0A \<or> c = CHR 0x0D)"

definition skipWs :: "string \<Rightarrow> string" where
  "skipWs cs = dropWhile isWs cs"

definition isDigit :: "char \<Rightarrow> bool" where
  "isDigit c = ((48::nat) \<le> of_char c \<and> of_char c \<le> (57::nat))"

definition digitsToNat :: "string \<Rightarrow> nat" where
  "digitsToNat ds = foldl (\<lambda>acc c. 10 * acc + (of_char c - 48)) 0 ds"

text \<open>A number: an optional sign and digits. What follows decides: a fraction or an
  exponent makes it a double.\<close>

definition parseNumber :: "string \<Rightarrow> (jsval \<times> string) option" where
  "parseNumber cs =
     (let neg = (cs \<noteq> [] \<and> hd cs = CHR ''-'');
          body = (if neg then tl cs else cs);
          ds = takeWhile isDigit body;
          rest = dropWhile isDigit body
      in if ds = [] then None
         else if rest \<noteq> [] \<and> (hd rest = CHR ''.'' \<or> hd rest = CHR ''e'' \<or> hd rest = CHR ''E'') then None
         else Some (JBigInt (if neg then - int (digitsToNat ds) else int (digitsToNat ds)), rest))"

definition parseWord :: "string \<Rightarrow> (jsval \<times> string) option" where
  "parseWord cs =
     (if take 4 cs = ''true'' then Some (JBool True, drop 4 cs)
      else if take 5 cs = ''false'' then Some (JBool False, drop 5 cs)
      else if take 4 cs = ''null'' then Some (JNull, drop 4 cs)
      else None)"

definition hexValue :: "char \<Rightarrow> nat option" where
  "hexValue c =
     (let n = (of_char c :: nat) in
      if 48 \<le> n \<and> n \<le> 57 then Some (n - 48)
      else if 65 \<le> n \<and> n \<le> 70 then Some (n - 55)
      else if 97 \<le> n \<and> n \<le> 102 then Some (n - 87)
      else None)"

definition hex4 :: "char \<Rightarrow> char \<Rightarrow> char \<Rightarrow> char \<Rightarrow> nat option" where
  "hex4 a b c d =
     (case (hexValue a, hexValue b, hexValue c, hexValue d) of
        (Some w, Some x, Some y, Some z) \<Rightarrow> Some (((w * 16 + x) * 16 + y) * 16 + z)
      | _ \<Rightarrow> None)"

text \<open>The UTF-8 bytes of a code unit of an escape \<open>\<^verbatim>\<open>\\u\<close>XXXX\<close>.\<close>

definition utf8OfCode :: "nat \<Rightarrow> string option" where
  "utf8OfCode n =
     (if n < 0x80 then Some [char_of n]
      else if n < 0x800 then Some [char_of (0xC0 + n div 64), char_of (0x80 + n mod 64)]
      else if 0xD800 \<le> n \<and> n < 0xE000 then None
      else Some [char_of (0xE0 + n div 4096), char_of (0x80 + (n div 64) mod 64),
                 char_of (0x80 + n mod 64)])"

definition unescape :: "char \<Rightarrow> char option" where
  "unescape e =
     (if e = CHR 0x22 then Some (CHR 0x22)
      else if e = CHR 0x5C then Some (CHR 0x5C)
      else if e = CHR ''/'' then Some (CHR ''/'')
      else if e = CHR ''b'' then Some (CHR 0x08)
      else if e = CHR ''f'' then Some (CHR 0x0C)
      else if e = CHR ''n'' then Some (CHR 0x0A)
      else if e = CHR ''r'' then Some (CHR 0x0D)
      else if e = CHR ''t'' then Some (CHR 0x09)
      else None)"

text \<open>A string, after its opening quote.\<close>

fun parseString :: "string \<Rightarrow> string \<Rightarrow> (string \<times> string) option" where
  "parseString acc [] = None"
| "parseString acc (c # cs) =
     (if c = CHR 0x22 then Some (acc, cs)
      else if c = CHR 0x5C then
        (case cs of
           [] \<Rightarrow> None
         | e # cs' \<Rightarrow>
             if e = CHR ''u'' then
               (case cs' of
                  h1 # h2 # h3 # h4 # cs'' \<Rightarrow>
                    (case hex4 h1 h2 h3 h4 of
                       None \<Rightarrow> None
                     | Some n \<Rightarrow>
                         (case utf8OfCode n of
                            None \<Rightarrow> None
                          | Some bs \<Rightarrow> parseString (acc @ bs) cs''))
                | _ \<Rightarrow> None)
             else
               (case unescape e of
                  None \<Rightarrow> None
                | Some x \<Rightarrow> parseString (acc @ [x]) cs'))
      else parseString (acc @ [c]) cs)"

text \<open>The parser, by recursive descent; \<open>fuel\<close> bounds the depth of the calls.\<close>

fun parseValue :: "nat \<Rightarrow> string \<Rightarrow> (jsval \<times> string) option"
  and parseElements :: "nat \<Rightarrow> jsval list \<Rightarrow> string \<Rightarrow> (jsval \<times> string) option"
  and parseMembers :: "nat \<Rightarrow> (string \<times> jsval) list \<Rightarrow> string \<Rightarrow> (jsval \<times> string) option"
where
  "parseValue 0 cs = None"
| "parseValue (Suc fuel) cs =
     (case skipWs cs of
        [] \<Rightarrow> None
      | c # rest \<Rightarrow>
          if c = CHR ''{'' then
            (case skipWs rest of
               [] \<Rightarrow> None
             | d # r \<Rightarrow> if d = CHR ''}'' then Some (JObject [], r) else parseMembers fuel [] rest)
          else if c = CHR ''['' then
            (case skipWs rest of
               [] \<Rightarrow> None
             | d # r \<Rightarrow> if d = CHR '']'' then Some (JArray [], r) else parseElements fuel [] rest)
          else if c = CHR 0x22 then
            (case parseString [] rest of None \<Rightarrow> None | Some (s, r) \<Rightarrow> Some (JString s, r))
          else if c = CHR ''-'' \<or> isDigit c then parseNumber (c # rest)
          else parseWord (c # rest))"
| "parseElements 0 acc cs = None"
| "parseElements (Suc fuel) acc cs =
     (case parseValue fuel cs of
        None \<Rightarrow> None
      | Some (v, r) \<Rightarrow>
          (case skipWs r of
             [] \<Rightarrow> None
           | d # r' \<Rightarrow>
               if d = CHR '','' then parseElements fuel (acc @ [v]) r'
               else if d = CHR '']'' then Some (JArray (acc @ [v]), r')
               else None))"
| "parseMembers 0 acc cs = None"
| "parseMembers (Suc fuel) acc cs =
     (case skipWs cs of
        [] \<Rightarrow> None
      | q # r \<Rightarrow>
          if q \<noteq> CHR 0x22 then None
          else
            (case parseString [] r of
               None \<Rightarrow> None
             | Some (k, r1) \<Rightarrow>
                 (case skipWs r1 of
                    [] \<Rightarrow> None
                  | c # r2 \<Rightarrow>
                      if c \<noteq> CHR '':'' then None
                      else
                        (case parseValue fuel r2 of
                           None \<Rightarrow> None
                         | Some (v, r3) \<Rightarrow>
                             (case skipWs r3 of
                                [] \<Rightarrow> None
                              | d # r4 \<Rightarrow>
                                  if d = CHR '','' then parseMembers fuel (AList.update k v acc) r4
                                  else if d = CHR ''}'' then Some (JObject (AList.update k v acc), r4)
                                  else None)))))"

definition syntaxError :: jserror where
  "syntaxError = \<lparr> err_message = ''Unexpected token in JSON'', err_status = None \<rparr>"

definition json_parse :: "string \<Rightarrow> jserror + jsval" where
  "json_parse s =
     (case parseValue (Suc (length s)) s of
        None \<Rightarrow> Inl syntaxError
      | Some (v, r) \<Rightarrow> if skipWs r = [] then Inr v else Inl syntaxError)"

section \<open>The grammar of JSON numbers\<close>

text \<open>
  RFC 8259, section 6: \<open>number = [ minus ] int [ frac ] [ exp ]\<close>, where \<open>int\<close> is
  \<open>0\<close> or a digit from \<open>1\<close> to \<open>9\<close> followed by digits, \<open>frac\<close> is \<open>.\<close> and one
  digit or more, and \<open>exp\<close> is \<open>e\<close> or \<open>E\<close>, an optional sign, and one digit or more.
  A JSON text that starts with a digit or with \<open>-\<close> is a number of this grammar.
\<close>

definition jsonInt :: "string \<Rightarrow> bool" where
  "jsonInt ds = (ds \<noteq> [] \<and> list_all isDigit ds \<and> (length ds = 1 \<or> hd ds \<in> set ''123456789''))"

definition jsonFrac :: "string \<Rightarrow> bool" where
  "jsonFrac cs = (cs = [] \<or> (hd cs = CHR ''.'' \<and> tl cs \<noteq> [] \<and> list_all isDigit (tl cs)))"

definition jsonExp :: "string \<Rightarrow> bool" where
  "jsonExp cs =
     (cs = [] \<or>
      (let ds = (if tl cs \<noteq> [] \<and> hd (tl cs) \<in> set ''+-'' then tl (tl cs) else tl cs)
       in hd cs \<in> set ''eE'' \<and> ds \<noteq> [] \<and> list_all isDigit ds))"

definition jsonNumber :: "string \<Rightarrow> bool" where
  "jsonNumber s =
     (let body = (if s \<noteq> [] \<and> hd s = CHR ''-'' then tl s else s);
          rest = dropWhile isDigit body
      in jsonInt (takeWhile isDigit body)
       \<and> jsonFrac (takeWhile (\<lambda>c. c \<notin> set ''eE'') rest)
       \<and> jsonExp (dropWhile (\<lambda>c. c \<notin> set ''eE'') rest))"

section \<open>Request paths\<close>

lemma params_toString_single: "params_toString [(k, v)] = formEncode k @ ''='' @ formEncode v"
  by (simp add: params_toString_def)

lemma formEncode_disable: "formEncode ''disable_gas_sponsorship'' = ''disable_gas_sponsorship''"
  by (simp add: formEncode_def formEncodeChar_def)

lemma formEncode_false: "formEncode ''false'' = ''false''"
  by (simp add: formEncode_def formEncodeChar_def)

text \<open>
  Claim C8. \<open>AssembleExternalMatchOptions.buildRequestPath()\<close> returns the base assemble
  path, with no query string, when gas sponsorship is not requested and no refund address
  is set (so with every field at its default); when \<open>requestGasSponsorship\<close> is true and
  no refund address is set, it returns the base path followed by
  \<open>?disable_gas_sponsorship=false\<close>. The other fields have no influence.
\<close>

theorem C8_assemble_path:
  "(\<not> requestGasSponsorship opts \<and> gasRefundAddress' opts = None \<longrightarrow>
      AssembleExternalMatchOptions_buildRequestPath opts =
        ''/v0/matching-engine/assemble-external-match'')
   \<and> (requestGasSponsorship opts \<and> gasRefundAddress' opts = None \<longrightarrow>
      AssembleExternalMatchOptions_buildRequestPath opts =
        ''/v0/matching-engine/assemble-external-match?disable_gas_sponsorship=false'')"
  by (simp add: AssembleExternalMatchOptions_buildRequestPath_def present_def
      ASSEMBLE_EXTERNAL_MATCH_ROUTE_def DISABLE_GAS_SPONSORSHIP_QUERY_PARAM_def
      params_set_def params_toString_single boolToString_def formEncode_disable formEncode_false)

text \<open>The two cases of C8 at the default options and at the default options with
  \<open>withGasSponsorship(true)\<close>.\<close>

theorem C8_assemble_path_witness:
  "AssembleExternalMatchOptions_buildRequestPath AssembleExternalMatchOptions_new =
     ''/v0/matching-engine/assemble-external-match''
   \<and> AssembleExternalMatchOptions_buildRequestPath
        (withGasSponsorship True AssembleExternalMatchOptions_new) =
     ''/v0/matching-engine/assemble-external-match?disable_gas_sponsorship=false''"
  using C8_assemble_path [of AssembleExternalMatchOptions_new]
    C8_assemble_path [of "withGasSponsorship True AssembleExternalMatchOptions_new"]
  by (simp add: AssembleExternalMatchOptions_new_def withGasSponsorship_def)

section \<open>The entry points without options\<close>

text \<open>
  Claim C10. \<open>requestQuote(o)\<close> is \<open>requestQuoteWithOptions(o, RequestQuoteOptions.new())\<close>
  and \<open>assembleQuote(q)\<close> is
  \<open>assembleQuoteWithOptions(q, AssembleExternalMatchOptions.new())\<close>: against the same
  server and at the same time they send the same request and end with the same value or
  the same error.
\<close>

theorem C10_delegation:
  "requestQuote rt net this now ord =
     requestQuoteWithOptions rt net this now ord RequestQuoteOptions_new
   \<and> assembleQuote rt net this now quote =
     assembleQuoteWithOptions rt net this now quote AssembleExternalMatchOptions_new"
  by (simp add: requestQuote_def assembleQuote_def)

section \<open>How a call of the client ends\<close>

lemma parseBigJSON_Inr: "\<exists>v. fst (parseBigJSON rt s) = Inr v"
  by (auto simp add: parseBigJSON_def split: sum.splits)

lemma transformResponse_Inr: "\<exists>d. transformResponse rt x = Inr d"
  using parseBigJSON_Inr by (cases x) (auto simp add: transformResponse_def)

lemma snd_request_rejected:
  "net (fst (request rt c net now cfg)) = Inl e \<Longrightarrow> snd (request rt c net now cfg) = Inl e"
  by (simp add: request_def Let_def)

lemma snd_request_answered:
  "net (fst (request rt c net now cfg)) = Inr r \<Longrightarrow> transformResponse rt (resp_data r) = Inr d
    \<Longrightarrow> snd (request rt c net now cfg) = Inr (r \<lparr> resp_data := d \<rparr>)"
  by (simp add: request_def Let_def)

lemma catchClause_cases:
  assumes "fb \<noteq> []"
  shows "catchClause fb e = Inr JNull \<or>
   (\<exists>m. m \<noteq> [] \<and> catchClause fb e = Inl (ExternalMatchClientError m (err_status e)))"
  using assms by (simp add: catchClause_def)

lemma catchClause_status:
  assumes "fb \<noteq> []" and "err_status e = Some s" and "s \<noteq> 204"
  shows "\<exists>m. m \<noteq> [] \<and> (err_message e \<noteq> [] \<longrightarrow> m = err_message e)
            \<and> catchClause fb e = Inl (ExternalMatchClientError m (Some s))"
  using assms by (simp add: catchClause_def)

lemma handled_cases:
  assumes "fb \<noteq> []"
  shows "(\<exists>v. (case tried of Inr v \<Rightarrow> Inr v | Inl error \<Rightarrow> catchClause fb error) = Inr v) \<or>
   (\<exists>m s. m \<noteq> [] \<and> (case tried of Inr v \<Rightarrow> Inr v | Inl error \<Rightarrow> catchClause fb error)
       = Inl (ExternalMatchClientError m s))"
proof (cases tried)
  case (Inl e)
  then show ?thesis using catchClause_cases [OF assms, of e] by auto
next
  case (Inr v)
  then show ?thesis by simp
qed

subsection \<open>\<open>requestQuoteWithOptions\<close>\<close>

lemma requestQuote_fst:
  "fst (requestQuoteWithOptions rt net this now ord options) =
   fst (RelayerHttpClient_post rt (httpClient this) net now
          (RequestQuoteOptions_buildRequestPath options)
          (JObject [(''external_order'', ord)]) (getHeaders rt this))"
  by (simp add: requestQuoteWithOptions_def Let_def split_beta)

lemma requestQuote_rejected:
  assumes "net (fst (requestQuoteWithOptions rt net this now ord options)) = Inl e"
  shows "snd (requestQuoteWithOptions rt net this now ord options) =
           catchClause ''Failed to request quote'' e"
proof -
  let ?p = "RelayerHttpClient_post rt (httpClient this) net now
          (RequestQuoteOptions_buildRequestPath options)
          (JObject [(''external_order'', ord)]) (getHeaders rt this)"
  have "net (fst ?p) = Inl e" using assms by (simp add: requestQuote_fst)
  then have "snd ?p = Inl e"
    by (simp add: RelayerHttpClient_post_def snd_request_rejected)
  then show ?thesis
    by (simp add: requestQuoteWithOptions_def Let_def split_beta)
qed

lemma requestQuote_empty:
  assumes "net (fst (requestQuoteWithOptions rt net this now ord options)) = Inr r"
    and "transformResponse rt (resp_data r) = Inr d"
    and "resp_status r = 204 \<or> \<not> truthy d"
  shows "snd (requestQuoteWithOptions rt net this now ord options) = Inr JNull"
proof -
  let ?p = "RelayerHttpClient_post rt (httpClient this) net now
          (RequestQuoteOptions_buildRequestPath options)
          (JObject [(''external_order'', ord)]) (getHeaders rt this)"
  have "net (fst ?p) = Inr r" using assms by (simp add: requestQuote_fst)
  then have "snd ?p = Inr (r \<lparr> resp_data := d \<rparr>)"
    using assms(2) by (simp add: RelayerHttpClient_post_def snd_request_answered)
  with assms(3) show ?thesis
    by (simp add: requestQuoteWithOptions_def Let_def split_beta)
qed

lemma requestQuote_handled:
  "\<exists>tried. snd (requestQuoteWithOptions rt net this now ord options) =
     (case tried of Inr v \<Rightarrow> Inr v | Inl error \<Rightarrow> catchClause ''Failed to request quote'' error)"
  unfolding requestQuoteWithOptions_def Let_def split_beta snd_conv
  by (rule exI, rule refl)

lemma requestQuote_typed:
  "(\<exists>v. snd (requestQuoteWithOptions rt net this now ord options) = Inr v) \<or>
   (\<exists>m s. m \<noteq> [] \<and> snd (requestQuoteWithOptions rt net this now ord options) = Inl (ExternalMatchClientError m s))"
proof -
  have fb: "''Failed to request quote'' \<noteq> []" by simp
  obtain tried where t: "snd (requestQuoteWithOptions rt net this now ord options) =
     (case tried of Inr v \<Rightarrow> Inr v | Inl error \<Rightarrow> catchClause ''Failed to request quote'' error)"
    using requestQuote_handled by blast
  show ?thesis unfolding t by (rule handled_cases [OF fb])
qed

subsection \<open>\<open>assembleQuoteWithOptions\<close>\<close>

lemma assembleRequest_object:
  "assembleRequest (JObject fs) options =
     Inr (JObject
       [(''do_gas_estimation'', JBool (doGasEstimation options)),
        (''allow_shared'', JBool (allowShared options)),
        (''receiver_address'', optional JString (receiverAddress options)),
        (''signed_quote'',
           JObject [(''quote'', case map_of fs ''quote'' of None \<Rightarrow> JUndefined | Some v \<Rightarrow> v),
                    (''signature'', case map_of fs ''signature'' of None \<Rightarrow> JUndefined | Some v \<Rightarrow> v)]),
        (''updated_order'', optional id (updatedOrder options))])"
  by (simp add: assembleRequest_def)

lemma assembleQuote_unfold:
  "assembleQuoteWithOptions rt net this now (JObject fs) options =
    (let p = RelayerHttpClient_post rt (httpClient this) net now
          (AssembleExternalMatchOptions_buildRequestPath options)
          (projr (assembleRequest (JObject fs) options))
          (getHeaders rt this)
     in (Some (fst p),
         (case (case snd p of
                  Inl e \<Rightarrow> Inl e
                | Inr resp \<Rightarrow>
                    if resp_status resp = 204 \<or> \<not> truthy (resp_data resp) then Inr JNull
                    else Inr (resp_data resp)) of
                Inr v \<Rightarrow> Inr v
              | Inl error \<Rightarrow> catchClause ''Failed to assemble quote'' error)))"
  by (simp add: assembleQuoteWithOptions_def assembleRequest_object Let_def split_beta)

lemma assembleQuote_sent:
  "\<exists>sent. fst (assembleQuoteWithOptions rt net this now (JObject fs) options) = Some sent"
  by (simp add: assembleQuote_unfold Let_def)

lemma assembleQuote_rejected:
  assumes "fst (assembleQuoteWithOptions rt net this now (JObject fs) options) = Some sent"
    and "net sent = Inl e"
  shows "snd (assembleQuoteWithOptions rt net this now (JObject fs) options) =
           catchClause ''Failed to assemble quote'' e"
  using assms
  by (auto simp add: assembleQuote_unfold Let_def RelayerHttpClient_post_def snd_request_rejected)

lemma assembleQuote_empty:
  assumes "fst (assembleQuoteWithOptions rt net this now (JObject fs) options) = Some sent"
    and "net sent = Inr r"
    and "transformResponse rt (resp_data r) = Inr d"
    and "resp_status r = 204 \<or> \<not> truthy d"
  shows "snd (assembleQuoteWithOptions rt net this now (JObject fs) options) = Inr JNull"
  using assms
  by (auto simp add: assembleQuote_unfold Let_def RelayerHttpClient_post_def snd_request_answered)

lemma assembleQuote_typed:
  "(\<exists>v. snd (assembleQuoteWithOptions rt net this now (JObject fs) options) = Inr v) \<or>
   (\<exists>m s. m \<noteq> [] \<and> snd (assembleQuoteWithOptions rt net this now (JObject fs) options) = Inl (ExternalMatchClientError m s))"
proof -
  have fb: "''Failed to assemble quote'' \<noteq> []" by simp
  have "\<exists>tried. snd (assembleQuoteWithOptions rt net this now (JObject fs) options) =
     (case tried of Inr v \<Rightarrow> Inr v | Inl error \<Rightarrow> catchClause ''Failed to assemble quote'' error)"
    unfolding assembleQuote_unfold Let_def snd_conv by (rule exI, rule refl)
  then obtain tried where t: "snd (assembleQuoteWithOptions rt net this now (JObject fs) options) =
     (case tried of Inr v \<Rightarrow> Inr v | Inl error \<Rightarrow> catchClause ''Failed to assemble quote'' error)"
    by blast
  show ?thesis unfolding t by (rule handled_cases [OF fb])
qed

lemma emptyBody_falsy:
  assumes "resp_data r = JUndefined \<or> resp_data r = JNull
              \<or> (resp_data r = JString [] \<and> (\<exists>e. jsonParse rt [] = Inl e))"
  shows "\<exists>d. transformResponse rt (resp_data r) = Inr d \<and> \<not> truthy d"
  using assms by (auto simp add: transformResponse_def parseBigJSON_def)

lemma requestQuote_outcomes:
  fixes sent out
  assumes "(sent, out) = requestQuoteWithOptions rt net this now ord options"
  shows "(\<forall>r d. net sent = Inr r \<and> transformResponse rt (resp_data r) = Inr d
              \<and> (resp_status r = 204 \<or> \<not> truthy d) \<longrightarrow> out = Inr JNull)
       \<and> (\<forall>r. net sent = Inr r \<and> (resp_data r = JUndefined \<or> resp_data r = JNull
              \<or> (resp_data r = JString [] \<and> (\<exists>e. jsonParse rt [] = Inl e))) \<longrightarrow> out = Inr JNull)
       \<and> (\<forall>e s. net sent = Inl e \<and> err_status e = Some s \<and> s \<noteq> 204 \<longrightarrow>
              (\<exists>m. m \<noteq> [] \<and> (err_message e \<noteq> [] \<longrightarrow> m = err_message e)
                 \<and> out = Inl (ExternalMatchClientError m (Some s))))
       \<and> ((\<exists>v. out = Inr v) \<or> (\<exists>m s. m \<noteq> [] \<and> out = Inl (ExternalMatchClientError m s)))"
proof -
  have s: "sent = fst (requestQuoteWithOptions rt net this now ord options)"
    and out: "out = snd (requestQuoteWithOptions rt net this now ord options)"
    using assms by (metis fst_conv, metis snd_conv)
  have 1: "out = Inr JNull" if "net sent = Inr r" "transformResponse rt (resp_data r) = Inr d"
      "resp_status r = 204 \<or> \<not> truthy d" for r d
    using that requestQuote_empty [of net rt this now ord options r d] by (simp add: s out)
  have 2: "out = Inr JNull" if "net sent = Inr r" "resp_data r = JUndefined \<or> resp_data r = JNull
              \<or> (resp_data r = JString [] \<and> (\<exists>e. jsonParse rt [] = Inl e))" for r
    using emptyBody_falsy [OF that(2)] 1 [OF that(1)] by blast
  have 3: "\<exists>m. m \<noteq> [] \<and> (err_message e \<noteq> [] \<longrightarrow> m = err_message e)
                 \<and> out = Inl (ExternalMatchClientError m (Some s))"
    if "net sent = Inl e" "err_status e = Some s" "s \<noteq> 204" for e s
  proof -
    have "out = catchClause ''Failed to request quote'' e"
      using that(1) requestQuote_rejected [of net rt this now ord options e] by (simp add: s out)
    then show ?thesis using catchClause_status [OF _ that(2,3), of "''Failed to request quote''"] by simp
  qed
  have 4: "(\<exists>v. out = Inr v) \<or> (\<exists>m s. m \<noteq> [] \<and> out = Inl (ExternalMatchClientError m s))"
    unfolding out by (rule requestQuote_typed)
  from 1 2 3 4 show ?thesis by blast
qed

lemma assembleQuote_outcomes:
  fixes sentOpt out
  assumes "(sentOpt, out) = assembleQuoteWithOptions rt net this now (JObject q) options"
  shows "\<exists>sent. sentOpt = Some sent \<and> ((\<forall>r d. net sent = Inr r \<and> transformResponse rt (resp_data r) = Inr d
              \<and> (resp_status r = 204 \<or> \<not> truthy d) \<longrightarrow> out = Inr JNull)
       \<and> (\<forall>r. net sent = Inr r \<and> (resp_data r = JUndefined \<or> resp_data r = JNull
              \<or> (resp_data r = JString [] \<and> (\<exists>e. jsonParse rt [] = Inl e))) \<longrightarrow> out = Inr JNull)
       \<and> (\<forall>e s. net sent = Inl e \<and> err_status e = Some s \<and> s \<noteq> 204 \<longrightarrow>
              (\<exists>m. m \<noteq> [] \<and> (err_message e \<noteq> [] \<longrightarrow> m = err_message e)
                 \<and> out = Inl (ExternalMatchClientError m (Some s))))
       \<and> ((\<exists>v. out = Inr v) \<or> (\<exists>m s. m \<noteq> [] \<and> out = Inl (ExternalMatchClientError m s))))"
proof -
  have so: "sentOpt = fst (assembleQuoteWithOptions rt net this now (JObject q) options)"
    and out: "out = snd (assembleQuoteWithOptions rt net this now (JObject q) options)"
    using assms by (metis fst_conv, metis snd_conv)
  obtain sent where s: "fst (assembleQuoteWithOptions rt net this now (JObject q) options) = Some sent"
    using assembleQuote_sent by blast
  have 1: "out = Inr JNull" if "net sent = Inr r" "transformResponse rt (resp_data r) = Inr d"
      "resp_status r = 204 \<or> \<not> truthy d" for r d
    using that assembleQuote_empty [OF s] by (simp add: out)
  have 2: "out = Inr JNull" if "net sent = Inr r" "resp_data r = JUndefined \<or> resp_data r = JNull
              \<or> (resp_data r = JString [] \<and> (\<exists>e. jsonParse rt [] = Inl e))" for r
    using emptyBody_falsy [OF that(2)] 1 [OF that(1)] by blast
  have 3: "\<exists>m. m \<noteq> [] \<and> (err_message e \<noteq> [] \<longrightarrow> m = err_message e)
                 \<and> out = Inl (ExternalMatchClientError m (Some s))"
    if "net sent = Inl e" "err_status e = Some s" "s \<noteq> 204" for e s
  proof -
    have "out = catchClause ''Failed to assemble quote'' e"
      using that(1) assembleQuote_rejected [OF s] by (simp add: out)
    then show ?thesis using catchClause_status [OF _ that(2,3), of "''Failed to assemble quote''"] by simp
  qed
  have 4: "(\<exists>v. out = Inr v) \<or> (\<exists>m s. m \<noteq> [] \<and> out = Inl (ExternalMatchClientError m s))"
    unfolding out by (rule assembleQuote_typed)
  have "sentOpt = Some sent" using so s by simp
  with 1 2 3 4 show ?thesis by blast
qed

text \<open>
  Claim C6. For \<open>requestQuoteWithOptions\<close>, \<open>requestQuote\<close>,
  \<open>assembleQuoteWithOptions\<close> and \<open>assembleQuote\<close> (the quote being an object), with
  \<open>sent\<close> the request transmitted and \<open>out\<close> how the call ends:
  \<^item> when the server answers with status 204, or with data that is falsy once decoded,
    the method returns \<open>null\<close>; so it does when the response has no body, or an empty one
    that the JSON parser rejects;
  \<^item> when the request is rejected with an error of status \<open>s\<close> other than 204, the method
    throws \<open>ExternalMatchClientError\<close> with \<open>statusCode = s\<close> and a message that is not
    empty: the message of the error when it has one;
  \<^item> whatever the server does, the method returns a value or throws an
    \<open>ExternalMatchClientError\<close> with a message that is not empty: nothing else is thrown.
\<close>

theorem C6_outcomes:
  "(\<forall>(sent, out) \<in> {requestQuoteWithOptions rt net this now ord qopts,
                       requestQuote rt net this now ord}.
       (\<forall>r d. net sent = Inr r \<and> transformResponse rt (resp_data r) = Inr d
              \<and> (resp_status r = 204 \<or> \<not> truthy d) \<longrightarrow> out = Inr JNull)
       \<and> (\<forall>r. net sent = Inr r \<and> (resp_data r = JUndefined \<or> resp_data r = JNull
              \<or> (resp_data r = JString [] \<and> (\<exists>e. jsonParse rt [] = Inl e))) \<longrightarrow> out = Inr JNull)
       \<and> (\<forall>e s. net sent = Inl e \<and> err_status e = Some s \<and> s \<noteq> 204 \<longrightarrow>
              (\<exists>m. m \<noteq> [] \<and> (err_message e \<noteq> [] \<longrightarrow> m = err_message e)
                 \<and> out = Inl (ExternalMatchClientError m (Some s))))
       \<and> ((\<exists>v. out = Inr v) \<or> (\<exists>m s. m \<noteq> [] \<and> out = Inl (ExternalMatchClientError m s))))
   \<and> (\<forall>(sentOpt, out) \<in> {assembleQuoteWithOptions rt net this now (JObject q) aopts,
                            assembleQuote rt net this now (JObject q)}.
       \<exists>sent. sentOpt = Some sent \<and> ((\<forall>r d. net sent = Inr r \<and> transformResponse rt (resp_data r) = Inr d
              \<and> (resp_status r = 204 \<or> \<not> truthy d) \<longrightarrow> out = Inr JNull)
       \<and> (\<forall>r. net sent = Inr r \<and> (resp_data r = JUndefined \<or> resp_data r = JNull
              \<or> (resp_data r = JString [] \<and> (\<exists>e. jsonParse rt [] = Inl e))) \<longrightarrow> out = Inr JNull)
       \<and> (\<forall>e s. net sent = Inl e \<and> err_status e = Some s \<and> s \<noteq> 204 \<longrightarrow>
              (\<exists>m. m \<noteq> [] \<and> (err_message e \<noteq> [] \<longrightarrow> m = err_message e)
                 \<and> out = Inl (ExternalMatchClientError m (Some s))))
       \<and> ((\<exists>v. out = Inr v) \<or> (\<exists>m s. m \<noteq> [] \<and> out = Inl (ExternalMatchClientError m s)))))"
proof (intro conjI ballI)
  fix p assume "p \<in> {requestQuoteWithOptions rt net this now ord qopts, requestQuote rt net this now ord}"
  then consider "p = requestQuoteWithOptions rt net this now ord qopts"
    | "p = requestQuoteWithOptions rt net this now ord RequestQuoteOptions_new"
    by (auto simp add: requestQuote_def)
  then show "case p of (sent, out) \<Rightarrow> (\<forall>r d. net sent = Inr r \<and> transformResponse rt (resp_data r) = Inr d
              \<and> (resp_status r = 204 \<or> \<not> truthy d) \<longrightarrow> out = Inr JNull)
       \<and> (\<forall>r. net sent = Inr r \<and> (resp_data r = JUndefined \<or> resp_data r = JNull
              \<or> (resp_data r = JString [] \<and> (\<exists>e. jsonParse rt [] = Inl e))) \<longrightarrow> out = Inr JNull)
       \<and> (\<forall>e s. net sent = Inl e \<and> err_status e = Some s \<and> s \<noteq> 204 \<longrightarrow>
              (\<exists>m. m \<noteq> [] \<and> (err_message e \<noteq> [] \<longrightarrow> m = err_message e)
                 \<and> out = Inl (ExternalMatchClientError m (Some s))))
       \<and> ((\<exists>v. out = Inr v) \<or> (\<exists>m s. m \<noteq> [] \<and> out = Inl (ExternalMatchClientError m s)))"
  proof cases
    case 1
    show ?thesis using requestQuote_outcomes [of "fst p" "snd p" rt net this now ord qopts] 1
      by (simp add: split_beta)
  next
    case 2
    show ?thesis using requestQuote_outcomes [of "fst p" "snd p" rt net this now ord RequestQuoteOptions_new] 2
      by (simp add: split_beta)
  qed
next
  fix p assume "p \<in> {assembleQuoteWithOptions rt net this now (JObject q) aopts,
                            assembleQuote rt net this now (JObject q)}"
  then consider "p = assembleQuoteWithOptions rt net this now (JObject q) aopts"
    | "p = assembleQuoteWithOptions rt net this now (JObject q) AssembleExternalMatchOptions_new"
    by (auto simp add: assembleQuote_def)
  then show "case p of (sentOpt, out) \<Rightarrow> \<exists>sent. sentOpt = Some sent \<and> ((\<forall>r d. net sent = Inr r \<and> transformResponse rt (resp_data r) = Inr d
              \<and> (resp_status r = 204 \<or> \<not> truthy d) \<longrightarrow> out = Inr JNull)
       \<and> (\<forall>r. net sent = Inr r \<and> (resp_data r = JUndefined \<or> resp_data r = JNull
              \<or> (resp_data r = JString [] \<and> (\<exists>e. jsonParse rt [] = Inl e))) \<longrightarrow> out = Inr JNull)
       \<and> (\<forall>e s. net sent = Inl e \<and> err_status e = Some s \<and> s \<noteq> 204 \<longrightarrow>
              (\<exists>m. m \<noteq> [] \<and> (err_message e \<noteq> [] \<longrightarrow> m = err_message e)
                 \<and> out = Inl (ExternalMatchClientError m (Some s))))
       \<and> ((\<exists>v. out = Inr v) \<or> (\<exists>m s. m \<noteq> [] \<and> out = Inl (ExternalMatchClientError m s))))"
  proof cases
    case 1
    show ?thesis using assembleQuote_outcomes [of "fst p" "snd p" rt net this now q aopts] 1
      by (simp add: split_beta)
  next
    case 2
    show ?thesis using assembleQuote_outcomes [of "fst p" "snd p" rt net this now q AssembleExternalMatchOptions_new] 2
      by (simp add: split_beta)
  qed
qed

text \<open>C6 against a server that answers 204 with no body, one that answers 200 with
  \<open>null\<close>, and one whose answer axios rejects with status 500.\<close>

theorem C6_outcomes_witness:
  "\<forall>rt this now ord.
     snd (requestQuote rt (\<lambda>sent. Inr \<lparr> resp_status = 204, resp_data = JUndefined \<rparr>) this now ord)
       = Inr JNull
   \<and> snd (requestQuote rt
        (\<lambda>sent. Inl \<lparr> err_message = ''Request failed with status code 500'', err_status = Some 500 \<rparr>)
        this now ord)
       = Inl (ExternalMatchClientError ''Request failed with status code 500'' (Some 500))
   \<and> snd (assembleQuote rt (\<lambda>sent. Inr \<lparr> resp_status = 200, resp_data = JNull \<rparr>) this now (JObject []))
       = Inr JNull
   \<and> snd (assembleQuote rt
        (\<lambda>sent. Inl \<lparr> err_message = ''Request failed with status code 500'', err_status = Some 500 \<rparr>)
        this now (JObject []))
       = Inl (ExternalMatchClientError ''Request failed with status code 500'' (Some 500))"
proof (intro allI conjI)
  fix rt :: runtime and this :: ExternalMatchClient and now :: int and ord :: jsval
  let ?none = "\<lambda>sent :: config. Inr \<lparr> resp_status = 204, resp_data = JUndefined \<rparr> :: jserror + response"
  let ?null = "\<lambda>sent :: config. Inr \<lparr> resp_status = 200, resp_data = JNull \<rparr> :: jserror + response"
  let ?fail = "\<lambda>sent :: config. Inl \<lparr> err_message = ''Request failed with status code 500'',
                   err_status = Some 500 \<rparr> :: jserror + response"
  show "snd (requestQuote rt ?none this now ord) = Inr JNull"
    using C6_outcomes [of rt ?none this now ord RequestQuoteOptions_new "[]" AssembleExternalMatchOptions_new]
    by (simp add: split_beta)
  show "snd (requestQuote rt ?fail this now ord)
       = Inl (ExternalMatchClientError ''Request failed with status code 500'' (Some 500))"
    using C6_outcomes [of rt ?fail this now ord RequestQuoteOptions_new "[]" AssembleExternalMatchOptions_new]
    by (simp add: split_beta)
  show "snd (assembleQuote rt ?null this now (JObject [])) = Inr JNull"
    using C6_outcomes [of rt ?null this now ord RequestQuoteOptions_new "[]" AssembleExternalMatchOptions_new]
    by (auto simp add: split_beta)
  show "snd (assembleQuote rt ?fail this now (JObject []))
       = Inl (ExternalMatchClientError ''Request failed with status code 500'' (Some 500))"
    using C6_outcomes [of rt ?fail this now ord RequestQuoteOptions_new "[]" AssembleExternalMatchOptions_new]
    by (auto simp add: split_beta)
qed

section \<open>The request of \<open>assembleQuoteWithOptions\<close>\<close>

lemma addAuthInterceptor_keeps:
  "cfg_data (addAuthInterceptor rt c now cfg) = cfg_data cfg"
  "cfg_url (addAuthInterceptor rt c now cfg) = cfg_url cfg"
  "cfg_method (addAuthInterceptor rt c now cfg) = cfg_method cfg"
  by (simp_all add: addAuthInterceptor_def Let_def)

lemma fst_request:
  "fst (request rt c net now cfg) =
     (addAuthInterceptor rt c now cfg)
       \<lparr> cfg_headers := AxiosHeaders_normalize (cfg_headers (addAuthInterceptor rt c now cfg)),
         cfg_data := transformRequest rt (cfg_data cfg) \<rparr>"
  by (simp add: request_def Let_def addAuthInterceptor_keeps)

lemma transformRequest_object:
  "transformRequest rt (JObject fs) = JString (stringifyBigJSON rt (JObject fs))"
  by (simp add: transformRequest_def)

text \<open>
  Claim C9, amended. For every signed quote \<open>q\<close> (an object) and options \<open>o\<close>,
  \<open>assembleQuoteWithOptions(q, o)\<close> posts, to the path \<open>o.buildRequestPath()\<close>, the
  serialization of an object with the five properties \<open>do_gas_estimation\<close>,
  \<open>allow_shared\<close>, \<open>receiver_address\<close>, \<open>signed_quote\<close> and \<open>updated_order\<close>:
  \<open>allow_shared\<close> is \<open>o.allowShared\<close>, \<open>receiver_address\<close> and \<open>updated_order\<close> are
  \<open>undefined\<close> unless the options set them, and \<open>signed_quote\<close> has the two properties
  \<open>quote\<close> and \<open>signature\<close> of \<open>q\<close> and nothing else. What else \<open>q\<close> carries, a
  \<open>gas_sponsorship_info\<close> among it, has no influence on the request sent.
\<close>

theorem C9_assemble_body:
  "(let req = JObject
       [(''do_gas_estimation'', JBool (doGasEstimation options)),
        (''allow_shared'', JBool (allowShared options)),
        (''receiver_address'', optional JString (receiverAddress options)),
        (''signed_quote'',
           JObject [(''quote'', case map_of fs ''quote'' of None \<Rightarrow> JUndefined | Some v \<Rightarrow> v),
                    (''signature'', case map_of fs ''signature'' of None \<Rightarrow> JUndefined | Some v \<Rightarrow> v)]),
        (''updated_order'', optional id (updatedOrder options))]
    in assembleRequest (JObject fs) options = Inr req
     \<and> (\<exists>sent. fst (assembleQuoteWithOptions rt net this now (JObject fs) options) = Some sent
           \<and> cfg_method sent = ''post''
           \<and> cfg_url sent = Some (AssembleExternalMatchOptions_buildRequestPath options)
           \<and> cfg_data sent = JString (stringifyBigJSON rt req)))
   \<and> (\<forall>fs'. map_of fs' ''quote'' = map_of fs ''quote''
            \<and> map_of fs' ''signature'' = map_of fs ''signature''
        \<longrightarrow> fst (assembleQuoteWithOptions rt net this now (JObject fs') options)
              = fst (assembleQuoteWithOptions rt net this now (JObject fs) options))"
  by (simp add: Let_def assembleRequest_object assembleQuote_unfold RelayerHttpClient_post_def
      fst_request addAuthInterceptor_keeps transformRequest_object)

text \<open>C9 at a quote with and without \<open>gas_sponsorship_info\<close>: the same request is sent.\<close>

theorem C9_assemble_body_witness:
  "\<forall>rt net this now.
    fst (assembleQuoteWithOptions rt net this now
      (JObject [(''quote'', JObject [(''timestamp'', JBigInt 1700000000000)]),
                (''signature'', JString ''0xabc''),
                (''gas_sponsorship_info'', JObject [(''signature'', JString ''0xdef'')])])
      AssembleExternalMatchOptions_new)
    = fst (assembleQuoteWithOptions rt net this now
      (JObject [(''quote'', JObject [(''timestamp'', JBigInt 1700000000000)]),
                (''signature'', JString ''0xabc'')])
      AssembleExternalMatchOptions_new)"
proof (intro allI)
  fix rt :: runtime and net :: network and this :: ExternalMatchClient and now :: int
  let ?q = "JObject [(''timestamp'', JBigInt 1700000000000)]"
  show "fst (assembleQuoteWithOptions rt net this now
      (JObject [(''quote'', ?q), (''signature'', JString ''0xabc''),
                (''gas_sponsorship_info'', JObject [(''signature'', JString ''0xdef'')])])
      AssembleExternalMatchOptions_new)
    = fst (assembleQuoteWithOptions rt net this now
      (JObject [(''quote'', ?q), (''signature'', JString ''0xabc'')])
      AssembleExternalMatchOptions_new)"
  proof -
    let ?fs = "[(''quote'', ?q), (''signature'', JString ''0xabc'')]"
    let ?fs' = "[(''quote'', ?q), (''signature'', JString ''0xabc''),
                (''gas_sponsorship_info'', JObject [(''signature'', JString ''0xdef'')])]"
    have same: "map_of ?fs' ''quote'' = map_of ?fs ''quote''
        \<and> map_of ?fs' ''signature'' = map_of ?fs ''signature''"
      by simp
    have "\<forall>fs'. map_of fs' ''quote'' = map_of ?fs ''quote''
            \<and> map_of fs' ''signature'' = map_of ?fs ''signature''
        \<longrightarrow> fst (assembleQuoteWithOptions rt net this now (JObject fs') AssembleExternalMatchOptions_new)
              = fst (assembleQuoteWithOptions rt net this now (JObject ?fs) AssembleExternalMatchOptions_new)"
      using C9_assemble_body [of AssembleExternalMatchOptions_new ?fs rt net this now]
      by (rule conjunct2)
    then show ?thesis using same by blast
  qed
qed

text \<open>
  Claim C9 as it is written fails: at the default options the request object has the
  property \<open>allow_shared\<close>, so its properties are not the four of the claim.
\<close>

theorem C9_fields_counterexample:
  "\<not> (\<exists>req. assembleRequest
          (JObject [(''quote'', JObject [(''timestamp'', JBigInt 1700000000000)]),
                    (''signature'', JString ''0xabc'')])
          AssembleExternalMatchOptions_new = Inr req
        \<and> set (objectKeys req) =
            {''do_gas_estimation'', ''receiver_address'', ''signed_quote'', ''updated_order''})"
proof
  assume "\<exists>req. assembleRequest
          (JObject [(''quote'', JObject [(''timestamp'', JBigInt 1700000000000)]),
                    (''signature'', JString ''0xabc'')])
          AssembleExternalMatchOptions_new = Inr req
        \<and> set (objectKeys req) =
            {''do_gas_estimation'', ''receiver_address'', ''signed_quote'', ''updated_order''}"
  then obtain req where built: "assembleRequest
          (JObject [(''quote'', JObject [(''timestamp'', JBigInt 1700000000000)]),
                    (''signature'', JString ''0xabc'')])
          AssembleExternalMatchOptions_new = Inr req"
    and keys: "set (objectKeys req) =
            {''do_gas_estimation'', ''receiver_address'', ''signed_quote'', ''updated_order''}"
    by blast
  from built have "objectKeys req = [''do_gas_estimation'', ''allow_shared'',
      ''receiver_address'', ''signed_quote'', ''updated_order'']"
    by (simp add: assembleRequest_object) (erule subst, simp)
  then have "''allow_shared'' \<in> set (objectKeys req)"
    by (simp del: objectKeys.simps)
  then have "''allow_shared'' \<in>
      {''do_gas_estimation'', ''receiver_address'', ''signed_quote'', ''updated_order''}"
    unfolding keys .
  then show False by simp
qed

section \<open>The signature\<close>

subsection \<open>Values of the functions the signature is built from\<close>

lemma digit_chars:
  "char_of (48::nat) = CHR ''0''" "char_of (49::nat) = CHR ''1''" "char_of (50::nat) = CHR ''2''"
  "char_of (51::nat) = CHR ''3''" "char_of (52::nat) = CHR ''4''" "char_of (53::nat) = CHR ''5''"
  "char_of (54::nat) = CHR ''6''" "char_of (55::nat) = CHR ''7''" "char_of (56::nat) = CHR ''8''"
  "char_of (57::nat) = CHR ''9''"
  by code_simp+

lemma expiry_example: "toString (1700000000000 + 10000) = ''1700000010000''"
  by (simp add: toString_def natToString.simps digitChar_def digit_chars)

lemma base64_rfc4648:
  "base64 (utf8 []) = []"
  "base64 (utf8 ''f'') = ''Zg==''"
  "base64 (utf8 ''fo'') = ''Zm8=''"
  "base64 (utf8 ''foo'') = ''Zm9v''"
  "base64 (utf8 ''foob'') = ''Zm9vYg==''"
  "base64 (utf8 ''fooba'') = ''Zm9vYmE=''"
  "base64 (utf8 ''foobar'') = ''Zm9vYmFy''"
  "base64 [0xFB, 0xFF, 0xBF] = ''+/+/''"
  "base64 [0xFF, 0xFE, 0xFD, 0xFC] = ''//79/A==''"
  by code_simp+

lemma encodeBase64_examples:
  "encodeBase64 (utf8 ''f'') = ''Zg''"
  "encodeBase64 (utf8 ''fo'') = ''Zm8''"
  "encodeBase64 (utf8 ''foo'') = ''Zm9v''"
  "encodeBase64 [0xFF, 0xFE, 0xFD, 0xFC] = ''//79/A''"
  by code_simp+

lemma toLowerCase_examples:
  "toLowerCase ''X-Renegade-AUTH'' = ''x-renegade-auth''"
  "toLowerCase ''x-renegade-api-key'' = ''x-renegade-api-key''"
  "toLowerCase ''AZaz@[`{09-_'' = ''azaz@[`{09-_''"
  by code_simp+

text \<open>The base64 text, without padding, of the HMAC-SHA256 digest
  \<open>8b8bb43556e74e49f3de8a92f2b485598396194b5e20e3c81590eaf0e2462308\<close>.\<close>

lemma digest_example:
  "encodeBase64 [139, 139, 180, 53, 86, 231, 78, 73, 243, 222, 138, 146, 242, 180, 133, 89,
                 131, 150, 25, 75, 94, 32, 227, 200, 21, 144, 234, 240, 226, 70, 35, 8]
     = ''i4u0NVbnTknz3oqS8rSFWYOWGUteIOPIFZDq8OJGIwg''"
  by code_simp

lemma asciiLocaleCompare_examples:
  "compare asciiLocaleCompare ''x-renegade-api-key'' ''x-renegade-auth-expiration'' = Less"
  "compare asciiLocaleCompare ''x-renegade-auth-expiration'' ''x-renegade-sdk-version'' = Less"
  "compare asciiLocaleCompare ''x-renegade-sdk-version'' ''X-Renegade-Zeta'' = Less"
  "compare asciiLocaleCompare ''x-renegade-a'' ''X-Renegade-A'' = Less"
  "compare asciiLocaleCompare ''X-Renegade-Zeta'' ''x-renegade-api-key'' = Greater"
  by code_simp+

lemma signed_headers_example:
  "Sorting_Algorithms.sort (key fst asciiLocaleCompare)
     (filter (\<lambda>(n, v). startsWith (toLowerCase n) ''x-renegade'' \<and> toLowerCase n \<noteq> ''x-renegade-auth'')
        [(''Content-Type'', ''application/json''), (''X-Renegade-Zeta'', ''1''),
         (''X-Renegade-Auth'', ''stale''), (''x-renegade-sdk-version'', ''typescript-v0.1.8''),
         (''x-renegade-api-key'', ''key''), (''x-renegade-auth-expiration'', ''1700000010000'')])
   = [(''x-renegade-api-key'', ''key''), (''x-renegade-auth-expiration'', ''1700000010000''),
      (''x-renegade-sdk-version'', ''typescript-v0.1.8''), (''X-Renegade-Zeta'', ''1'')]"
  by code_simp

subsection \<open>The signature of a request\<close>

lemma mac_fold:
  "foldl (\<lambda>m (k, v). mac_update (mac_update m (utf8 k)) (utf8 v)) m hs =
     m \<lparr> mac_msg := mac_msg m @ concat (map (\<lambda>(k, v). utf8 k @ utf8 v) hs) \<rparr>"
  by (induction hs arbitrary: m) (simp_all add: mac_update_def split_beta)

lemma addAuthInterceptor_headers:
  "cfg_headers (addAuthInterceptor rt c now cfg) =
     DAList.update RENEGADE_AUTH_HEADER
       (encodeBase64 (hmacSha256 rt (authKey c)
          (utf8 (case cfg_url cfg of None \<Rightarrow> [] | Some u \<Rightarrow> u)
           @ concat (map (\<lambda>(k, v). utf8 k @ utf8 v)
               (renegadeHeaders rt
                 (DAList.update RENEGADE_AUTH_EXPIRATION_HEADER
                    (toString (now + REQUEST_SIGNATURE_DURATION_MS)) (cfg_headers cfg))))
           @ utf8 (signedBody rt (cfg_data cfg)))))
       (DAList.update RENEGADE_AUTH_EXPIRATION_HEADER
          (toString (now + REQUEST_SIGNATURE_DURATION_MS)) (cfg_headers cfg))"
  unfolding addAuthInterceptor_def Let_def mac_fold
  by (simp add: mac_digest_def mac_update_def hmac_create_def)

text \<open>The two filters of the interceptor as one predicate on the name.\<close>

lemma renegadeHeaders_filter:
  "renegadeHeaders rt hs =
     Sorting_Algorithms.sort (key fst (localeCompare rt))
       (filter (\<lambda>(n, v). startsWith (toLowerCase n) ''x-renegade'' \<and> toLowerCase n \<noteq> ''x-renegade-auth'')
          (DAList.impl_of hs))"
proof -
  have low: "toLowerCase RENEGADE_AUTH_HEADER = ''x-renegade-auth''"
    by (simp add: RENEGADE_AUTH_HEADER_def toLowerCase_def lowerChar_def)
  show ?thesis
    by (simp add: renegadeHeaders_def low RENEGADE_HEADER_PREFIX_def case_prod_unfold conj_commute)
qed

lemma filter_update_other:
  assumes "\<not> P k"
  shows "filter (\<lambda>(n, v). P n) (AList.update k x xs) = filter (\<lambda>(n, v). P n) xs"
  using assms by (induction xs) (auto)

lemma filter_update_same:
  assumes "P k"
  shows "filter (\<lambda>(n, v). P n) (AList.update k x xs) = AList.update k x (filter (\<lambda>(n, v). P n) xs)"
  using assms by (induction xs) (auto)

lemma auth_not_signed:
  "\<not> (startsWith (toLowerCase ''x-renegade-auth'') ''x-renegade'' \<and> toLowerCase ''x-renegade-auth'' \<noteq> ''x-renegade-auth'')"
  by (simp add: toLowerCase_def lowerChar_def)

lemma expiration_signed:
  "startsWith (toLowerCase ''x-renegade-auth-expiration'') ''x-renegade''
     \<and> toLowerCase ''x-renegade-auth-expiration'' \<noteq> ''x-renegade-auth''"
  by (simp add: toLowerCase_def lowerChar_def startsWith_def)

lemma filter_signed_update_auth:
  fixes xs :: "(string \<times> string) list"
  shows "filter (\<lambda>(n, v). startsWith (toLowerCase n) ''x-renegade'' \<and> toLowerCase n \<noteq> ''x-renegade-auth'')
           (AList.update ''x-renegade-auth'' x xs)
       = filter (\<lambda>(n, v). startsWith (toLowerCase n) ''x-renegade'' \<and> toLowerCase n \<noteq> ''x-renegade-auth'') xs"
  by (rule filter_update_other) (rule auth_not_signed)

lemma filter_signed_update_expiration:
  fixes xs :: "(string \<times> string) list"
  shows "filter (\<lambda>(n, v). startsWith (toLowerCase n) ''x-renegade'' \<and> toLowerCase n \<noteq> ''x-renegade-auth'')
           (AList.update ''x-renegade-auth-expiration'' x xs)
       = AList.update ''x-renegade-auth-expiration'' x
          (filter (\<lambda>(n, v). startsWith (toLowerCase n) ''x-renegade'' \<and> toLowerCase n \<noteq> ''x-renegade-auth'') xs)"
  by (rule filter_update_same) (rule expiration_signed)

lemma renegadeHeaders_update_auth:
  "renegadeHeaders rt (DAList.update RENEGADE_AUTH_HEADER x hs) = renegadeHeaders rt hs"
  by (simp only: renegadeHeaders_filter update.rep_eq RENEGADE_AUTH_HEADER_def filter_signed_update_auth)

lemma takeWhile_replicate: "takeWhile (\<lambda>c. c = a) xs = replicate (length (takeWhile (\<lambda>c. c = a) xs)) a"
  by (induction xs) auto

lemma stripTrailingEquals_spec:
  "(\<exists>n. s = stripTrailingEquals s @ replicate n (CHR ''=''))
   \<and> (stripTrailingEquals s = [] \<or> last (stripTrailingEquals s) \<noteq> CHR ''='')"
proof
  let ?P = "\<lambda>c. c = CHR ''=''"
  have "rev s = takeWhile ?P (rev s) @ dropWhile ?P (rev s)" by simp
  then have "s = rev (dropWhile ?P (rev s)) @ rev (takeWhile ?P (rev s))"
    by (metis rev_append rev_rev_ident)
  moreover have "rev (takeWhile ?P (rev s)) = replicate (length (takeWhile ?P (rev s))) (CHR ''='')"
    using takeWhile_replicate [of "CHR ''=''" "rev s"] by (metis rev_replicate)
  ultimately have "s = stripTrailingEquals s @ replicate (length (takeWhile ?P (rev s))) (CHR ''='')"
    by (simp add: stripTrailingEquals_def)
  then show "\<exists>n. s = stripTrailingEquals s @ replicate n (CHR ''='')" by blast
next
  let ?P = "\<lambda>c. c = CHR ''=''"
  show "stripTrailingEquals s = [] \<or> last (stripTrailingEquals s) \<noteq> CHR ''=''"
  proof (cases "dropWhile ?P (rev s) = []")
    case True
    then show ?thesis by (simp add: stripTrailingEquals_def)
  next
    case False
    then have "\<not> ?P (hd (dropWhile ?P (rev s)))" by (rule hd_dropWhile)
    with False show ?thesis by (simp add: stripTrailingEquals_def last_rev)
  qed
qed

text \<open>
  Claim C1, amended. For a client built from the base64 secret \<open>secret\<close>, a request
  with path \<open>p\<close> (\<open>config.url\<close>, the query string included), headers and body,
  intercepted at time \<open>now\<close>: with \<open>H\<close> the headers once the expiration header is set,
  the header \<open>x-renegade-auth\<close> receives \<open>signature\<close>, where
  \<^item> \<open>digest\<close> is HMAC-SHA256, keyed with the decoded secret, of the bytes of \<open>p\<close>, then
    for each header of \<open>signed\<close> the bytes of its name and the bytes of its value, then
    the bytes of \<open>body\<close>;
  \<^item> \<open>signed\<close> holds exactly the headers of \<open>H\<close> whose name in lower case starts with
    \<open>x-renegade\<close> and is not \<open>x-renegade-auth\<close>, and is sorted by name in the order of
    \<open>localeCompare\<close>, the comparison the program sorts with, which is not the
    lexicographic order of the code units;
  \<^item> \<open>body\<close> is empty for a falsy body, the body itself when it is a string, and its
    \<open>stringifyBigJSON\<close> serialization otherwise;
  \<^item> \<open>signature\<close> is the base64 text of \<open>digest\<close> without the \<open>=\<close> at its end.
\<close>

theorem C1_signature:
  "(let c = RelayerHttpClient_new rt url secret;
        H = DAList.update ''x-renegade-auth-expiration'' (toString (now + 10000)) (cfg_headers cfg);
        p = (case cfg_url cfg of None \<Rightarrow> [] | Some u \<Rightarrow> u);
        signed = renegadeHeaders rt H;
        body = signedBody rt (cfg_data cfg);
        digest = hmacSha256 rt (base64ToBytes rt secret)
                   (utf8 p @ concat (map (\<lambda>(n, v). utf8 n @ utf8 v) signed) @ utf8 body);
        signature = stripTrailingEquals (base64 digest)
    in DAList.lookup (cfg_headers (addAuthInterceptor rt c now cfg)) ''x-renegade-auth''
         = Some signature
     \<and> mset signed =
         mset (filter (\<lambda>(n, v). startsWith (toLowerCase n) ''x-renegade''
                                \<and> toLowerCase n \<noteq> ''x-renegade-auth'') (DAList.impl_of H))
     \<and> Sorting_Algorithms.sorted (key fst (localeCompare rt)) signed
     \<and> body = (if truthy (cfg_data cfg)
               then (case cfg_data cfg of JString s \<Rightarrow> s | d \<Rightarrow> stringifyBigJSON rt d)
               else [])
     \<and> (\<exists>n. base64 digest = signature @ replicate n (CHR ''=''))
     \<and> (signature = [] \<or> last signature \<noteq> CHR ''=''))"
proof -
  have body: "signedBody rt d = (if truthy d
               then (case d of JString s \<Rightarrow> s | d \<Rightarrow> stringifyBigJSON rt d)
               else [])" for d
    by (cases d) (simp_all add: signedBody_def)
  show ?thesis
    unfolding Let_def
    using stripTrailingEquals_spec
    by (simp add: addAuthInterceptor_headers RENEGADE_AUTH_HEADER_def
        RENEGADE_AUTH_EXPIRATION_HEADER_def REQUEST_SIGNATURE_DURATION_MS_def encodeBase64_def
        RelayerHttpClient_new_def decodeBase64_def renegadeHeaders_filter body [symmetric])
qed

text \<open>
  C1 at a request of the client for a quote, made at the time \<open>1700000000000\<close> with the
  secret \<open>c2VjcmV0\<close> (the bytes of \<open>secret\<close>), whose headers hold a stale
  \<open>X-Renegade-Auth\<close> and a header \<open>X-Renegade-Zeta\<close> in mixed case. HMAC-SHA256 is
  given at the one key and message the interceptor is to feed it, with the digest it has
  there; at any other key or message the signature below would not come out.
\<close>

theorem C1_signature_witness:
  "\<forall>rt url.
     (let node = rt \<lparr> hmacSha256 := (\<lambda>k m.
                        if k = utf8 ''secret'' \<and> m = utf8 ''/v0/matching-engine/quote?disable_gas_sponsorship=falsex-renegade-api-keykeyx-renegade-auth-expiration1700000010000x-renegade-sdk-versiontypescript-v0.1.8X-Renegade-Zeta1{}''
                        then [139, 139, 180, 53, 86, 231, 78, 73, 243, 222, 138, 146, 242, 180, 133, 89,
                 131, 150, 25, 75, 94, 32, 227, 200, 21, 144, 234, 240, 226, 70, 35, 8]
                        else []),
                      localeCompare := asciiLocaleCompare,
                      base64ToBytes := (\<lambda>s. if s = ''c2VjcmV0'' then utf8 ''secret'' else []) \<rparr>
      in DAList.lookup (cfg_headers (addAuthInterceptor node
            (RelayerHttpClient_new node url ''c2VjcmV0'') 1700000000000
            \<lparr> cfg_method = ''post'',
              cfg_url = Some ''/v0/matching-engine/quote?disable_gas_sponsorship=false'',
              cfg_headers = (DAList.update ''x-renegade-api-key'' ''key''
             (DAList.update ''x-renegade-sdk-version'' ''typescript-v0.1.8''
               (DAList.update ''X-Renegade-Auth'' ''stale''
                 (DAList.update ''X-Renegade-Zeta'' ''1''
                   (DAList.update ''Content-Type'' ''application/json'' DAList.empty))))),
              cfg_data = JString ''{}'' \<rparr>)) ''x-renegade-auth''
         = Some ''i4u0NVbnTknz3oqS8rSFWYOWGUteIOPIFZDq8OJGIwg'')"
proof (intro allI)
  fix rt :: runtime and url :: string
  let ?hmac = "\<lambda>k m. if k = utf8 ''secret'' \<and> m = utf8 ''/v0/matching-engine/quote?disable_gas_sponsorship=falsex-renegade-api-keykeyx-renegade-auth-expiration1700000010000x-renegade-sdk-versiontypescript-v0.1.8X-Renegade-Zeta1{}''
                        then [139, 139, 180, 53, 86, 231, 78, 73, 243, 222, 138, 146, 242, 180, 133, 89,
                 131, 150, 25, 75, 94, 32, 227, 200, 21, 144, 234, 240, 226, 70, 35, 8]
                        else [] :: bytes"
  let ?node = "rt \<lparr> hmacSha256 := ?hmac, localeCompare := asciiLocaleCompare,
                    base64ToBytes := (\<lambda>s. if s = ''c2VjcmV0'' then utf8 ''secret'' else []) \<rparr>"
  let ?H0 = "(DAList.update ''x-renegade-api-key'' ''key''
             (DAList.update ''x-renegade-sdk-version'' ''typescript-v0.1.8''
               (DAList.update ''X-Renegade-Auth'' ''stale''
                 (DAList.update ''X-Renegade-Zeta'' ''1''
                   (DAList.update ''Content-Type'' ''application/json'' DAList.empty))))) :: headers"
  let ?cfg = "\<lparr> cfg_method = ''post'',
              cfg_url = Some ''/v0/matching-engine/quote?disable_gas_sponsorship=false'',
              cfg_headers = ?H0, cfg_data = JString ''{}'' \<rparr>"
  have e: "toString (1700000000000 + 10000) = ''1700000010000''"
    by (rule expiry_example)
  have r: "renegadeHeaders ?node (DAList.update ''x-renegade-auth-expiration'' ''1700000010000'' ?H0)
      = [(''x-renegade-api-key'', ''key''), (''x-renegade-auth-expiration'', ''1700000010000''),
         (''x-renegade-sdk-version'', ''typescript-v0.1.8''), (''X-Renegade-Zeta'', ''1'')]"
    unfolding renegadeHeaders_filter
    by (simp add: update.rep_eq empty.rep_eq signed_headers_example del: filter.simps)
  have m: "utf8 ''/v0/matching-engine/quote?disable_gas_sponsorship=false''
      @ concat (map (\<lambda>(n, v). utf8 n @ utf8 v)
          [(''x-renegade-api-key'', ''key''), (''x-renegade-auth-expiration'', ''1700000010000''),
           (''x-renegade-sdk-version'', ''typescript-v0.1.8''), (''X-Renegade-Zeta'', ''1'')])
      @ utf8 ''{}'' = utf8 ''/v0/matching-engine/quote?disable_gas_sponsorship=falsex-renegade-api-keykeyx-renegade-auth-expiration1700000010000x-renegade-sdk-versiontypescript-v0.1.8X-Renegade-Zeta1{}''"
    by (simp add: utf8_def)
  have b: "signedBody ?node (JString ''{}'') = ''{}''"
    by (simp add: signedBody_def)
  have k: "base64ToBytes ?node ''c2VjcmV0'' = utf8 ''secret''" by simp
  have h: "hmacSha256 ?node (utf8 ''secret'') (utf8 ''/v0/matching-engine/quote?disable_gas_sponsorship=falsex-renegade-api-keykeyx-renegade-auth-expiration1700000010000x-renegade-sdk-versiontypescript-v0.1.8X-Renegade-Zeta1{}'') = [139, 139, 180, 53, 86, 231, 78, 73, 243, 222, 138, 146, 242, 180, 133, 89,
                 131, 150, 25, 75, 94, 32, 227, 200, 21, 144, 234, 240, 226, 70, 35, 8]"
    by simp
  have d: "stripTrailingEquals (base64 [139, 139, 180, 53, 86, 231, 78, 73, 243, 222, 138, 146, 242, 180, 133, 89,
                 131, 150, 25, 75, 94, 32, 227, 200, 21, 144, 234, 240, 226, 70, 35, 8]) = ''i4u0NVbnTknz3oqS8rSFWYOWGUteIOPIFZDq8OJGIwg''"
    using digest_example by (simp only: encodeBase64_def)
  note inst = C1_signature [of ?node url "''c2VjcmV0''" 1700000000000 ?cfg, unfolded Let_def,
      THEN conjunct1]
  have "DAList.lookup (cfg_headers (addAuthInterceptor ?node
            (RelayerHttpClient_new ?node url ''c2VjcmV0'') 1700000000000 ?cfg)) ''x-renegade-auth''
         = Some ''i4u0NVbnTknz3oqS8rSFWYOWGUteIOPIFZDq8OJGIwg''"
    using inst unfolding e config.simps option.simps r m b k h d .
  then show "let node = ?node
      in DAList.lookup (cfg_headers (addAuthInterceptor node
            (RelayerHttpClient_new node url ''c2VjcmV0'') 1700000000000 ?cfg)) ''x-renegade-auth''
         = Some ''i4u0NVbnTknz3oqS8rSFWYOWGUteIOPIFZDq8OJGIwg''"
    unfolding Let_def .
qed

text \<open>
  Claim C1 as it is written fails on names in mixed case: \<open>localeCompare\<close> compares
  without regard to case first, so the same request has its headers signed in the order
  \<open>x-renegade-api-key\<close>, \<open>x-renegade-auth-expiration\<close>, \<open>x-renegade-sdk-version\<close>,
  \<open>X-Renegade-Zeta\<close>, which is not sorted in the lexicographic order of the code units:
  there \<open>X-Renegade-Zeta\<close> comes first.
\<close>

theorem C1_order_counterexample:
  "\<forall>rt. (let signed = renegadeHeaders (rt \<lparr> localeCompare := asciiLocaleCompare \<rparr>)
                   (DAList.update ''x-renegade-auth-expiration'' ''1700000010000'' (DAList.update ''x-renegade-api-key'' ''key''
             (DAList.update ''x-renegade-sdk-version'' ''typescript-v0.1.8''
               (DAList.update ''X-Renegade-Auth'' ''stale''
                 (DAList.update ''X-Renegade-Zeta'' ''1''
                   (DAList.update ''Content-Type'' ''application/json'' DAList.empty))))))
         in map fst signed = [''x-renegade-api-key'', ''x-renegade-auth-expiration'',
                               ''x-renegade-sdk-version'', ''X-Renegade-Zeta'']
          \<and> \<not> sorted_wrt (\<le>) (map fst signed)
          \<and> ''X-Renegade-Zeta'' < ''x-renegade-api-key'')"
proof (intro allI)
  fix rt :: runtime
  let ?H0 = "(DAList.update ''x-renegade-api-key'' ''key''
             (DAList.update ''x-renegade-sdk-version'' ''typescript-v0.1.8''
               (DAList.update ''X-Renegade-Auth'' ''stale''
                 (DAList.update ''X-Renegade-Zeta'' ''1''
                   (DAList.update ''Content-Type'' ''application/json'' DAList.empty))))) :: headers"
  have r: "renegadeHeaders (rt \<lparr> localeCompare := asciiLocaleCompare \<rparr>)
        (DAList.update ''x-renegade-auth-expiration'' ''1700000010000'' ?H0)
      = [(''x-renegade-api-key'', ''key''), (''x-renegade-auth-expiration'', ''1700000010000''),
         (''x-renegade-sdk-version'', ''typescript-v0.1.8''), (''X-Renegade-Zeta'', ''1'')]"
    unfolding renegadeHeaders_filter
    by (simp add: update.rep_eq empty.rep_eq signed_headers_example del: filter.simps)
  have lt: "''X-Renegade-Zeta'' < ''x-renegade-api-key''" by code_simp
  have ns: "\<not> sorted_wrt (\<le>) [''x-renegade-api-key'', ''x-renegade-auth-expiration'',
                               ''x-renegade-sdk-version'', ''X-Renegade-Zeta'']"
    by code_simp
  show "let signed = renegadeHeaders (rt \<lparr> localeCompare := asciiLocaleCompare \<rparr>)
                   (DAList.update ''x-renegade-auth-expiration'' ''1700000010000'' ?H0)
         in map fst signed = [''x-renegade-api-key'', ''x-renegade-auth-expiration'',
                               ''x-renegade-sdk-version'', ''X-Renegade-Zeta'']
          \<and> \<not> sorted_wrt (\<le>) (map fst signed)
          \<and> ''X-Renegade-Zeta'' < ''x-renegade-api-key''"
    unfolding Let_def r using lt ns by simp
qed

subsection \<open>Sorting headers with distinct names\<close>

lemma filter_key_singleton:
  assumes "distinct (map fst xs)" and "y \<in> set xs"
  shows "filter (\<lambda>z. fst z = fst y) xs = [y]"
  using assms
proof (induction xs)
  case Nil
  then show ?case by simp
next
  case (Cons x xs)
  show ?case
  proof (cases "x = y")
    case True
    have "filter (\<lambda>z. fst z = fst y) xs = []"
      using Cons.prems(1) True by (auto simp add: filter_empty_conv image_iff)
    with True show ?thesis by simp
  next
    case False
    with Cons.prems have y: "y \<in> set xs" by simp
    then have "fst x \<noteq> fst y" using Cons.prems(1) by (auto simp add: image_iff)
    with Cons.IH y Cons.prems(1) show ?thesis by simp
  qed
qed

lemma sort_key_unique:
  assumes d: "distinct (map fst xs)"
    and m: "mset xs = mset ys"
    and anti: "\<And>a b. a \<in> fst ` set xs \<Longrightarrow> b \<in> fst ` set xs \<Longrightarrow> compare cmp a b = Equiv \<Longrightarrow> a = b"
  shows "Sorting_Algorithms.sort (key fst cmp) ys = Sorting_Algorithms.sort (key fst cmp) xs"
proof (rule sort_eqI)
  show "mset ys = mset (Sorting_Algorithms.sort (key fst cmp) xs)" using m by simp
  show "Sorting_Algorithms.sorted (key fst cmp) (Sorting_Algorithms.sort (key fst cmp) xs)" by simp
  fix y assume y: "y \<in> set ys"
  have sets: "set ys = set xs" using m by (metis mset_eq_setD)
  have d': "distinct (map fst ys)"
  proof -
    have "mset (map fst ys) = mset (map fst xs)" using m by (metis mset_map)
    then show ?thesis using d by (metis distinct_count_atmost_1 set_mset_mset)
  qed
  have eqv: "(compare cmp (fst y) (fst z) = Equiv) = (fst z = fst y)" if "z \<in> set xs" for z
  proof
    assume "compare cmp (fst y) (fst z) = Equiv"
    then show "fst z = fst y" using anti [of "fst y" "fst z"] y that sets by auto
  next
    assume "fst z = fst y"
    then show "compare cmp (fst y) (fst z) = Equiv" by simp
  qed
  have 1: "filter (\<lambda>z. compare (key fst cmp) y z = Equiv) ys = filter (\<lambda>z. fst z = fst y) ys"
    by (rule filter_cong) (simp_all add: eqv sets)
  have 2: "filter (\<lambda>z. compare (key fst cmp) y z = Equiv) xs = filter (\<lambda>z. fst z = fst y) xs"
    by (rule filter_cong) (simp_all add: eqv)
  have "filter (\<lambda>z. compare (key fst cmp) y z = Equiv) ys = [y]"
    using filter_key_singleton [OF d' y] 1 by simp
  moreover have "filter (\<lambda>z. compare (key fst cmp) y z = Equiv) xs = [y]"
    using filter_key_singleton [OF d] y sets 2 by simp
  ultimately show "filter (\<lambda>z. compare (key fst cmp) y z = Equiv) ys
      = filter (\<lambda>z. compare (key fst cmp) y z = Equiv) (Sorting_Algorithms.sort (key fst cmp) xs)"
    by (simp only: stable_sort)
qed

subsection \<open>Headers outside the signature\<close>

lemma entries_iff:
  "((n, v) \<in> set (DAList.impl_of H)) = (DAList.lookup H n = Some v)"
  by (simp add: lookup.rep_eq)

lemma mset_signed_agree:
  fixes H1 H2 :: headers
  assumes "\<And>n. P n \<Longrightarrow> DAList.lookup H1 n = DAList.lookup H2 n"
  shows "mset (filter (\<lambda>(n, v). P n) (DAList.impl_of H1))
       = mset (filter (\<lambda>(n, v). P n) (DAList.impl_of H2))"
proof -
  let ?F1 = "filter (\<lambda>(n, v). P n) (DAList.impl_of H1)"
  let ?F2 = "filter (\<lambda>(n, v). P n) (DAList.impl_of H2)"
  have d: "distinct (DAList.impl_of H)" for H :: headers
    using impl_of_distinct [of H] by (metis distinct_map)
  have "set ?F1 = set ?F2"
    using assms by (auto simp add: entries_iff)
  moreover have "distinct ?F1" "distinct ?F2" using d by simp_all
  ultimately show ?thesis by (metis set_eq_iff_mset_eq_distinct)
qed

lemma renegadeHeaders_cong_filter:
  assumes "filter (\<lambda>(n, v). startsWith (toLowerCase n) ''x-renegade'' \<and> toLowerCase n \<noteq> ''x-renegade-auth'')
             (DAList.impl_of H1)
         = filter (\<lambda>(n, v). startsWith (toLowerCase n) ''x-renegade'' \<and> toLowerCase n \<noteq> ''x-renegade-auth'')
             (DAList.impl_of H2)"
  shows "renegadeHeaders rt (DAList.update ''x-renegade-auth-expiration'' e H1)
       = renegadeHeaders rt (DAList.update ''x-renegade-auth-expiration'' e H2)"
  using assms
  by (simp only: renegadeHeaders_filter update.rep_eq filter_signed_update_expiration)

lemma renegadeHeaders_cong_lookup:
  assumes agree: "\<And>n. startsWith (toLowerCase n) ''x-renegade'' \<and> toLowerCase n \<noteq> ''x-renegade-auth''
             \<Longrightarrow> DAList.lookup H1 n = DAList.lookup H2 n"
    and anti: "\<And>a b. a \<in> fst ` set (DAList.impl_of H1) \<Longrightarrow> b \<in> fst ` set (DAList.impl_of H1)
             \<Longrightarrow> compare (localeCompare rt) a b = Equiv \<Longrightarrow> a = b"
  shows "renegadeHeaders rt H2 = renegadeHeaders rt H1"
proof -
  let ?S = "\<lambda>n. startsWith (toLowerCase n) ''x-renegade'' \<and> toLowerCase n \<noteq> ''x-renegade-auth''"
  let ?F1 = "filter (\<lambda>(n, v). ?S n) (DAList.impl_of H1)"
  let ?F2 = "filter (\<lambda>(n, v). ?S n) (DAList.impl_of H2)"
  have m: "mset ?F1 = mset ?F2" using agree by (rule mset_signed_agree)
  have d: "distinct (map fst ?F1)" by (simp add: distinct_map_filter)
  have "Sorting_Algorithms.sort (key fst (localeCompare rt)) ?F2
      = Sorting_Algorithms.sort (key fst (localeCompare rt)) ?F1"
  proof (rule sort_key_unique [OF d m])
    fix a b
    assume "a \<in> fst ` set ?F1" "b \<in> fst ` set ?F1" "compare (localeCompare rt) a b = Equiv"
    then show "a = b" using anti [of a b] by auto
  qed
  then show ?thesis by (simp only: renegadeHeaders_filter)
qed

lemma signature_of:
  "DAList.lookup (cfg_headers (addAuthInterceptor rt c now cfg)) ''x-renegade-auth'' =
     Some (encodeBase64 (hmacSha256 rt (authKey c)
          (utf8 (case cfg_url cfg of None \<Rightarrow> [] | Some u \<Rightarrow> u)
           @ concat (map (\<lambda>(k, v). utf8 k @ utf8 v)
               (renegadeHeaders rt
                 (DAList.update ''x-renegade-auth-expiration'' (toString (now + 10000)) (cfg_headers cfg))))
           @ utf8 (signedBody rt (cfg_data cfg)))))"
  by (simp add: addAuthInterceptor_headers RENEGADE_AUTH_HEADER_def
        RENEGADE_AUTH_EXPIRATION_HEADER_def REQUEST_SIGNATURE_DURATION_MS_def)

text \<open>
  Claim C5. Two requests with the same path and the same body, intercepted by the same
  client at the same time, receive the same signature
  \<^item> when the headers whose name in lower case starts with \<open>x-renegade\<close> and is not
    \<open>x-renegade-auth\<close> are the same in both, listed in the same order: the other
    headers, and a header \<open>x-renegade-auth\<close> already there, are free to differ;
  \<^item> also when those headers are listed in different orders (both requests give every
    such name the same value, or none), provided \<open>localeCompare\<close> tells the names of the
    first request and \<open>x-renegade-auth-expiration\<close> apart.
\<close>

theorem C5_unsigned_headers:
  "(cfg_url cfg1 = cfg_url cfg2 \<and> cfg_data cfg1 = cfg_data cfg2
      \<and> filter (\<lambda>(n, v). startsWith (toLowerCase n) ''x-renegade'' \<and> toLowerCase n \<noteq> ''x-renegade-auth'')
           (DAList.impl_of (cfg_headers cfg1))
        = filter (\<lambda>(n, v). startsWith (toLowerCase n) ''x-renegade'' \<and> toLowerCase n \<noteq> ''x-renegade-auth'')
           (DAList.impl_of (cfg_headers cfg2))
    \<longrightarrow> DAList.lookup (cfg_headers (addAuthInterceptor rt c now cfg1)) ''x-renegade-auth''
        = DAList.lookup (cfg_headers (addAuthInterceptor rt c now cfg2)) ''x-renegade-auth'')
   \<and> (cfg_url cfg1 = cfg_url cfg2 \<and> cfg_data cfg1 = cfg_data cfg2
      \<and> (\<forall>n. startsWith (toLowerCase n) ''x-renegade'' \<and> toLowerCase n \<noteq> ''x-renegade-auth''
             \<longrightarrow> DAList.lookup (cfg_headers cfg1) n = DAList.lookup (cfg_headers cfg2) n)
      \<and> (\<forall>a b. a \<in> insert ''x-renegade-auth-expiration'' (fst ` set (DAList.impl_of (cfg_headers cfg1)))
             \<and> b \<in> insert ''x-renegade-auth-expiration'' (fst ` set (DAList.impl_of (cfg_headers cfg1)))
             \<and> compare (localeCompare rt) a b = Equiv \<longrightarrow> a = b)
    \<longrightarrow> DAList.lookup (cfg_headers (addAuthInterceptor rt c now cfg1)) ''x-renegade-auth''
        = DAList.lookup (cfg_headers (addAuthInterceptor rt c now cfg2)) ''x-renegade-auth'')"
proof (intro conjI impI)
  assume "cfg_url cfg1 = cfg_url cfg2 \<and> cfg_data cfg1 = cfg_data cfg2
      \<and> filter (\<lambda>(n, v). startsWith (toLowerCase n) ''x-renegade'' \<and> toLowerCase n \<noteq> ''x-renegade-auth'')
           (DAList.impl_of (cfg_headers cfg1))
        = filter (\<lambda>(n, v). startsWith (toLowerCase n) ''x-renegade'' \<and> toLowerCase n \<noteq> ''x-renegade-auth'')
           (DAList.impl_of (cfg_headers cfg2))"
  then have u: "cfg_url cfg1 = cfg_url cfg2" and d: "cfg_data cfg1 = cfg_data cfg2"
    and r: "renegadeHeaders rt (DAList.update ''x-renegade-auth-expiration'' (toString (now + 10000)) (cfg_headers cfg1))
          = renegadeHeaders rt (DAList.update ''x-renegade-auth-expiration'' (toString (now + 10000)) (cfg_headers cfg2))"
    using renegadeHeaders_cong_filter [of "cfg_headers cfg1" "cfg_headers cfg2" rt "toString (now + 10000)"]
    by blast+
  show "DAList.lookup (cfg_headers (addAuthInterceptor rt c now cfg1)) ''x-renegade-auth''
        = DAList.lookup (cfg_headers (addAuthInterceptor rt c now cfg2)) ''x-renegade-auth''"
    unfolding signature_of u d r ..
next
  let ?e = "toString (now + 10000)"
  let ?H1 = "DAList.update ''x-renegade-auth-expiration'' ?e (cfg_headers cfg1)"
  let ?H2 = "DAList.update ''x-renegade-auth-expiration'' ?e (cfg_headers cfg2)"
  assume h: "cfg_url cfg1 = cfg_url cfg2 \<and> cfg_data cfg1 = cfg_data cfg2
      \<and> (\<forall>n. startsWith (toLowerCase n) ''x-renegade'' \<and> toLowerCase n \<noteq> ''x-renegade-auth''
             \<longrightarrow> DAList.lookup (cfg_headers cfg1) n = DAList.lookup (cfg_headers cfg2) n)
      \<and> (\<forall>a b. a \<in> insert ''x-renegade-auth-expiration'' (fst ` set (DAList.impl_of (cfg_headers cfg1)))
             \<and> b \<in> insert ''x-renegade-auth-expiration'' (fst ` set (DAList.impl_of (cfg_headers cfg1)))
             \<and> compare (localeCompare rt) a b = Equiv \<longrightarrow> a = b)"
  have names: "fst ` set (DAList.impl_of ?H1)
      = insert ''x-renegade-auth-expiration'' (fst ` set (DAList.impl_of (cfg_headers cfg1)))"
    by (simp add: update.rep_eq dom_update)
  from h have u: "cfg_url cfg1 = cfg_url cfg2" and d: "cfg_data cfg1 = cfg_data cfg2"
    and agree: "\<And>n. startsWith (toLowerCase n) ''x-renegade'' \<and> toLowerCase n \<noteq> ''x-renegade-auth''
             \<Longrightarrow> DAList.lookup (cfg_headers cfg1) n = DAList.lookup (cfg_headers cfg2) n"
    and anti: "\<And>a b. a \<in> insert ''x-renegade-auth-expiration'' (fst ` set (DAList.impl_of (cfg_headers cfg1)))
             \<Longrightarrow> b \<in> insert ''x-renegade-auth-expiration'' (fst ` set (DAList.impl_of (cfg_headers cfg1)))
             \<Longrightarrow> compare (localeCompare rt) a b = Equiv \<Longrightarrow> a = b"
    by blast+
  have r: "renegadeHeaders rt ?H2 = renegadeHeaders rt ?H1"
  proof (rule renegadeHeaders_cong_lookup)
    fix n assume "startsWith (toLowerCase n) ''x-renegade'' \<and> toLowerCase n \<noteq> ''x-renegade-auth''"
    then have "DAList.lookup (cfg_headers cfg1) n = DAList.lookup (cfg_headers cfg2) n" by (rule agree)
    then show "DAList.lookup ?H1 n = DAList.lookup ?H2 n"
      by (simp add: lookup_update)
  next
    fix a b
    assume "a \<in> fst ` set (DAList.impl_of ?H1)" "b \<in> fst ` set (DAList.impl_of ?H1)"
      "compare (localeCompare rt) a b = Equiv"
    then show "a = b" unfolding names by (rule anti)
  qed
  show "DAList.lookup (cfg_headers (addAuthInterceptor rt c now cfg1)) ''x-renegade-auth''
        = DAList.lookup (cfg_headers (addAuthInterceptor rt c now cfg2)) ''x-renegade-auth''"
    unfolding signature_of u d r ..
qed

text \<open>C5 at two pairs of requests: one pair differs in \<open>Content-Type\<close>, \<open>Accept\<close> and
  a stale \<open>X-Renegade-Auth\<close>; the other lists the two headers of the client in opposite
  orders around an \<open>Accept\<close> header, under the comparison of the code units.\<close>

theorem C5_unsigned_headers_witness:
  "\<forall>rt c now.
     DAList.lookup (cfg_headers (addAuthInterceptor rt c now
        \<lparr> cfg_method = ''post'', cfg_url = Some ''/v0/matching-engine/quote'',
          cfg_headers = DAList.update ''x-renegade-api-key'' ''key''
                          (DAList.update ''Content-Type'' ''application/json'' DAList.empty),
          cfg_data = JString ''{}'' \<rparr>)) ''x-renegade-auth''
   = DAList.lookup (cfg_headers (addAuthInterceptor rt c now
        \<lparr> cfg_method = ''post'', cfg_url = Some ''/v0/matching-engine/quote'',
          cfg_headers = DAList.update ''X-Renegade-Auth'' ''stale''
                          (DAList.update ''x-renegade-api-key'' ''key''
                            (DAList.update ''Accept'' ''text/plain'' DAList.empty)),
          cfg_data = JString ''{}'' \<rparr>)) ''x-renegade-auth''
   \<and> DAList.lookup (cfg_headers (addAuthInterceptor (rt \<lparr> localeCompare := default \<rparr>) c now
        \<lparr> cfg_method = ''post'', cfg_url = Some ''/v0/matching-engine/quote'',
          cfg_headers = DAList.update ''x-renegade-sdk-version'' ''typescript-v0.1.8''
                          (DAList.update ''x-renegade-api-key'' ''key'' DAList.empty),
          cfg_data = JString ''{}'' \<rparr>)) ''x-renegade-auth''
   = DAList.lookup (cfg_headers (addAuthInterceptor (rt \<lparr> localeCompare := default \<rparr>) c now
        \<lparr> cfg_method = ''post'', cfg_url = Some ''/v0/matching-engine/quote'',
          cfg_headers = DAList.update ''x-renegade-api-key'' ''key''
                          (DAList.update ''Accept'' ''text/plain''
                            (DAList.update ''x-renegade-sdk-version'' ''typescript-v0.1.8'' DAList.empty)),
          cfg_data = JString ''{}'' \<rparr>)) ''x-renegade-auth''"
proof (intro allI conjI)
  fix rt :: runtime and c :: RelayerHttpClient and now :: int
  let ?A = "\<lparr> cfg_method = ''post'', cfg_url = Some ''/v0/matching-engine/quote'',
          cfg_headers = DAList.update ''x-renegade-api-key'' ''key''
                          (DAList.update ''Content-Type'' ''application/json'' DAList.empty),
          cfg_data = JString ''{}'' \<rparr>"
  let ?B = "\<lparr> cfg_method = ''post'', cfg_url = Some ''/v0/matching-engine/quote'',
          cfg_headers = DAList.update ''X-Renegade-Auth'' ''stale''
                          (DAList.update ''x-renegade-api-key'' ''key''
                            (DAList.update ''Accept'' ''text/plain'' DAList.empty)),
          cfg_data = JString ''{}'' \<rparr>"
  have "filter (\<lambda>(n, v). startsWith (toLowerCase n) ''x-renegade'' \<and> toLowerCase n \<noteq> ''x-renegade-auth'')
           (DAList.impl_of (cfg_headers ?A))
        = filter (\<lambda>(n, v). startsWith (toLowerCase n) ''x-renegade'' \<and> toLowerCase n \<noteq> ''x-renegade-auth'')
           (DAList.impl_of (cfg_headers ?B))"
    by code_simp
  then show "DAList.lookup (cfg_headers (addAuthInterceptor rt c now ?A)) ''x-renegade-auth''
      = DAList.lookup (cfg_headers (addAuthInterceptor rt c now ?B)) ''x-renegade-auth''"
    using C5_unsigned_headers [of ?A ?B rt c now] by simp
next
  fix rt :: runtime and c :: RelayerHttpClient and now :: int
  let ?rt = "rt \<lparr> localeCompare := default \<rparr>"
  let ?A = "\<lparr> cfg_method = ''post'', cfg_url = Some ''/v0/matching-engine/quote'',
          cfg_headers = DAList.update ''x-renegade-sdk-version'' ''typescript-v0.1.8''
                          (DAList.update ''x-renegade-api-key'' ''key'' DAList.empty),
          cfg_data = JString ''{}'' \<rparr>"
  let ?B = "\<lparr> cfg_method = ''post'', cfg_url = Some ''/v0/matching-engine/quote'',
          cfg_headers = DAList.update ''x-renegade-api-key'' ''key''
                          (DAList.update ''Accept'' ''text/plain''
                            (DAList.update ''x-renegade-sdk-version'' ''typescript-v0.1.8'' DAList.empty)),
          cfg_data = JString ''{}'' \<rparr>"
  have agree: "\<forall>n. startsWith (toLowerCase n) ''x-renegade'' \<and> toLowerCase n \<noteq> ''x-renegade-auth''
             \<longrightarrow> DAList.lookup (cfg_headers ?A) n = DAList.lookup (cfg_headers ?B) n"
  proof (intro allI impI)
    fix n
    assume S: "startsWith (toLowerCase n) ''x-renegade'' \<and> toLowerCase n \<noteq> ''x-renegade-auth''"
    have "\<not> (startsWith (toLowerCase ''Accept'') ''x-renegade''
              \<and> toLowerCase ''Accept'' \<noteq> ''x-renegade-auth'')"
      by code_simp
    with S have "n \<noteq> ''Accept''" by blast
    then show "DAList.lookup (cfg_headers ?A) n = DAList.lookup (cfg_headers ?B) n"
      by (auto simp add: lookup_update)
  qed
  have anti: "\<forall>a b. a \<in> insert ''x-renegade-auth-expiration'' (fst ` set (DAList.impl_of (cfg_headers ?A)))
             \<and> b \<in> insert ''x-renegade-auth-expiration'' (fst ` set (DAList.impl_of (cfg_headers ?A)))
             \<and> compare (localeCompare ?rt) a b = Equiv \<longrightarrow> a = b"
    by simp
  have "cfg_url ?A = cfg_url ?B \<and> cfg_data ?A = cfg_data ?B" by simp
  with agree anti
  show "DAList.lookup (cfg_headers (addAuthInterceptor ?rt c now ?A)) ''x-renegade-auth''
      = DAList.lookup (cfg_headers (addAuthInterceptor ?rt c now ?B)) ''x-renegade-auth''"
    using C5_unsigned_headers [of ?A ?B ?rt c now] by blast
qed

section \<open>The request on the wire\<close>

text \<open>
  Headers whose names differ in more than case pass the normalization of axios as they
  are: then the request transmitted has the headers the interceptor returns.
\<close>

lemma update_fresh:
  "n \<notin> fst ` set xs \<Longrightarrow> AList.update n v xs = xs @ [(n, v)]"
  by (induction xs) auto

lemma find_none_lower:
  assumes "toLowerCase k \<notin> toLowerCase ` set ns"
  shows "find (\<lambda>n. toLowerCase n = toLowerCase k) ns = None"
  using assms by (induction ns) auto

lemma findKey_none:
  assumes "toLowerCase k \<notin> toLowerCase ` fst ` set (DAList.impl_of hs)"
  shows "findKey hs k = None"
  unfolding findKey_def using assms by (intro find_none_lower) (simp add: image_image)

lemma normalize_prefix:
  assumes "distinct (map (\<lambda>p. toLowerCase (fst p)) xs)"
  shows "DAList.impl_of
           (foldl (\<lambda>kept (header, v).
                     case findKey kept header of
                       Some k \<Rightarrow> DAList.update k v kept
                     | None \<Rightarrow> DAList.update header v kept)
              DAList.empty xs) = xs"
  using assms
proof (induction xs rule: rev_induct)
  case Nil
  then show ?case by (simp add: empty.rep_eq)
next
  case (snoc p xs)
  obtain k v where p: "p = (k, v)" by (cases p)
  let ?kept = "foldl (\<lambda>kept (header, v).
                     case findKey kept header of
                       Some k \<Rightarrow> DAList.update k v kept
                     | None \<Rightarrow> DAList.update header v kept)
              DAList.empty xs"
  from snoc.prems have d: "distinct (map (\<lambda>p. toLowerCase (fst p)) xs)"
    and fresh: "toLowerCase k \<notin> toLowerCase ` set (map fst xs)"
    unfolding p by (auto simp add: image_iff)
  have kept: "DAList.impl_of ?kept = xs" using d by (rule snoc.IH)
  have "toLowerCase k \<notin> toLowerCase ` fst ` set (DAList.impl_of ?kept)"
    using fresh unfolding kept by (simp add: image_image)
  then have "findKey ?kept k = None" by (rule findKey_none)
  moreover have "k \<notin> fst ` set xs" using fresh by (auto simp add: image_iff)
  ultimately show ?case
    unfolding p by (simp add: update.rep_eq kept update_fresh)
qed

lemma AxiosHeaders_normalize_distinct:
  assumes "distinct (map (\<lambda>p. toLowerCase (fst p)) (DAList.impl_of hs))"
  shows "AxiosHeaders_normalize hs = hs"
  unfolding AxiosHeaders_normalize_def
  by (rule alist_ext) (rule normalize_prefix [OF assms])

lemma lower_names:
  "toLowerCase ''Accept'' = ''accept''"
  "toLowerCase ''Content-Type'' = ''content-type''"
  "toLowerCase ''X-Renegade-Auth-Expiration'' = ''x-renegade-auth-expiration''"
  "toLowerCase ''x-renegade-auth-expiration'' = ''x-renegade-auth-expiration''"
  "toLowerCase ''x-renegade-auth'' = ''x-renegade-auth''"
  by code_simp+

lemma signed_example:
  fixes rt :: runtime
  defines "H \<equiv> DAList.update ''x-renegade-auth-expiration'' ''1700000010000''
               (DAList.update ''X-Renegade-Auth-Expiration'' ''5''
                 (DAList.update ''Content-Type'' ''application/json''
                   (DAList.update ''Accept'' ''application/json, text/plain, */*'' DAList.empty)))"
  shows "renegadeHeaders rt H =
      (if compare (localeCompare rt) ''X-Renegade-Auth-Expiration'' ''x-renegade-auth-expiration'' = Greater
       then [(''x-renegade-auth-expiration'', ''1700000010000''), (''X-Renegade-Auth-Expiration'', ''5'')]
       else [(''X-Renegade-Auth-Expiration'', ''5''), (''x-renegade-auth-expiration'', ''1700000010000'')])"
  unfolding H_def renegadeHeaders_filter
  by (simp add: update.rep_eq empty.rep_eq lower_names startsWith_def)

lemma sent_example:
  "renegadeHeaders rt (AxiosHeaders_normalize
     (DAList.update ''x-renegade-auth'' sg
       (DAList.update ''x-renegade-auth-expiration'' e
         (DAList.update ''X-Renegade-Auth-Expiration'' ''5''
           (DAList.update ''Content-Type'' ''application/json''
             (DAList.update ''Accept'' ''application/json, text/plain, */*'' DAList.empty))))))
   = [(''X-Renegade-Auth-Expiration'', e)]"
  unfolding renegadeHeaders_filter
  by (simp add: AxiosHeaders_normalize_def findKey_def update.rep_eq empty.rep_eq lower_names startsWith_def)

text \<open>
  Claim C3 at the call \<open>get('/v0/a', {'X-Renegade-Auth-Expiration': '5'})\<close>, made at
  the time \<open>1700000000000\<close>. The configuration the interceptor receives has the headers
  \<open>Accept\<close> and \<open>Content-Type\<close> of the axios instance and the header of the caller.
  The interceptor filters names without regard to case and assigns the expiration under
  its lower-case name, so it leaves the header of the caller beside its own and signs
  both: the MAC covers \<open>X-Renegade-Auth-Expiration\<close> with \<open>5\<close> and
  \<open>x-renegade-auth-expiration\<close> with \<open>1700000010000\<close>, in the order of
  \<open>localeCompare\<close>. The request transmitted carries one of them: axios has given the
  name of the caller the value of the interceptor. The bytes the signature was computed
  over are not the bytes of the path, the included headers and the body of the
  request transmitted.
\<close>

theorem C3_signed_not_sent:
  "(let cfg = \<lparr> cfg_method = ''get'', cfg_url = Some ''/v0/a'',
                cfg_headers = DAList.update ''X-Renegade-Auth-Expiration'' ''5''
                   (DAList.update ''Content-Type'' ''application/json''
                     (DAList.update ''Accept'' ''application/json, text/plain, */*'' DAList.empty)),
                cfg_data = JUndefined \<rparr>;
        intercepted = addAuthInterceptor rt c 1700000000000 cfg;
        sent = fst (request rt c net 1700000000000 cfg);
        a = (''X-Renegade-Auth-Expiration'', ''5'');
        b = (''x-renegade-auth-expiration'', ''1700000010000'');
        signed = (if compare (localeCompare rt) (fst a) (fst b) = Greater then [b, a] else [a, b]);
        sg = encodeBase64 (hmacSha256 rt (authKey c)
               (utf8 ''/v0/a'' @ concat (map (\<lambda>(n, v). utf8 n @ utf8 v) signed) @ utf8 []))
    in DAList.impl_of (cfg_headers intercepted)
         = [(''Accept'', ''application/json, text/plain, */*''), (''Content-Type'', ''application/json''),
            a, b, (''x-renegade-auth'', sg)]
     \<and> DAList.impl_of (cfg_headers sent)
         = [(''Accept'', ''application/json, text/plain, */*''), (''Content-Type'', ''application/json''),
            (''X-Renegade-Auth-Expiration'', ''1700000010000''), (''x-renegade-auth'', sg)]
     \<and> cfg_url sent = Some ''/v0/a'' \<and> cfg_data sent = JUndefined
     \<and> renegadeHeaders rt (cfg_headers sent) = [(''X-Renegade-Auth-Expiration'', ''1700000010000'')]
     \<and> utf8 ''/v0/a'' @ concat (map (\<lambda>(n, v). utf8 n @ utf8 v) signed) @ utf8 []
         \<noteq> utf8 ''/v0/a''
             @ concat (map (\<lambda>(n, v). utf8 n @ utf8 v) (renegadeHeaders rt (cfg_headers sent)))
             @ utf8 [])"
proof -
  let ?H0 = "DAList.update ''X-Renegade-Auth-Expiration'' ''5''
                   (DAList.update ''Content-Type'' ''application/json''
                     (DAList.update ''Accept'' ''application/json, text/plain, */*'' DAList.empty)) :: headers"
  let ?cfg = "\<lparr> cfg_method = ''get'', cfg_url = Some ''/v0/a'', cfg_headers = ?H0,
                cfg_data = JUndefined \<rparr>"
  let ?a = "(''X-Renegade-Auth-Expiration'', ''5'')"
  let ?b = "(''x-renegade-auth-expiration'', ''1700000010000'')"
  let ?signed = "if compare (localeCompare rt) (fst ?a) (fst ?b) = Greater then [?b, ?a] else [?a, ?b]"
  let ?sg = "encodeBase64 (hmacSha256 rt (authKey c)
               (utf8 ''/v0/a'' @ concat (map (\<lambda>(n, v). utf8 n @ utf8 v) ?signed) @ utf8 []))"
  have hs: "cfg_headers (addAuthInterceptor rt c 1700000000000 ?cfg)
      = DAList.update ''x-renegade-auth'' ?sg
          (DAList.update ''x-renegade-auth-expiration'' ''1700000010000'' ?H0)"
    unfolding addAuthInterceptor_headers
    by (simp add: RENEGADE_AUTH_HEADER_def RENEGADE_AUTH_EXPIRATION_HEADER_def
        REQUEST_SIGNATURE_DURATION_MS_def expiry_example [simplified] signed_example signedBody_def)
  have A: "DAList.impl_of (cfg_headers (addAuthInterceptor rt c 1700000000000 ?cfg))
         = [(''Accept'', ''application/json, text/plain, */*''), (''Content-Type'', ''application/json''),
            ?a, ?b, (''x-renegade-auth'', ?sg)]"
    unfolding hs by (simp add: update.rep_eq empty.rep_eq)
  have sh: "cfg_headers (fst (request rt c net 1700000000000 ?cfg))
      = AxiosHeaders_normalize (DAList.update ''x-renegade-auth'' ?sg
          (DAList.update ''x-renegade-auth-expiration'' ''1700000010000'' ?H0))"
    unfolding fst_request hs by simp
  have B: "DAList.impl_of (cfg_headers (fst (request rt c net 1700000000000 ?cfg)))
         = [(''Accept'', ''application/json, text/plain, */*''), (''Content-Type'', ''application/json''),
            (''X-Renegade-Auth-Expiration'', ''1700000010000''), (''x-renegade-auth'', ?sg)]"
    unfolding sh
    by (simp add: AxiosHeaders_normalize_def findKey_def update.rep_eq empty.rep_eq lower_names)
  have C: "cfg_url (fst (request rt c net 1700000000000 ?cfg)) = Some ''/v0/a''
      \<and> cfg_data (fst (request rt c net 1700000000000 ?cfg)) = JUndefined"
    by (simp add: fst_request addAuthInterceptor_keeps transformRequest_def)
  have D: "renegadeHeaders rt (cfg_headers (fst (request rt c net 1700000000000 ?cfg)))
      = [(''X-Renegade-Auth-Expiration'', ''1700000010000'')]"
    unfolding sh by (rule sent_example)
  have l1: "length (concat (map (\<lambda>(n, v). utf8 n @ utf8 v) ?signed)) = 66"
    by (simp add: utf8_def)
  have l2: "length (concat (map (\<lambda>(n, v). utf8 n @ utf8 v)
      [(''X-Renegade-Auth-Expiration'', ''1700000010000'')])) = 39"
    by (simp add: utf8_def)
  have "concat (map (\<lambda>(n, v). utf8 n @ utf8 v) ?signed)
      \<noteq> concat (map (\<lambda>(n, v). utf8 n @ utf8 v) [(''X-Renegade-Auth-Expiration'', ''1700000010000'')])"
  proof
    assume "concat (map (\<lambda>(n, v). utf8 n @ utf8 v) ?signed)
      = concat (map (\<lambda>(n, v). utf8 n @ utf8 v) [(''X-Renegade-Auth-Expiration'', ''1700000010000'')])"
    then have "length (concat (map (\<lambda>(n, v). utf8 n @ utf8 v) ?signed))
      = length (concat (map (\<lambda>(n, v). utf8 n @ utf8 v) [(''X-Renegade-Auth-Expiration'', ''1700000010000'')]))"
      by (rule arg_cong)
    with l1 l2 show False by simp
  qed
  then have E: "utf8 ''/v0/a'' @ concat (map (\<lambda>(n, v). utf8 n @ utf8 v) ?signed) @ utf8 []
         \<noteq> utf8 ''/v0/a''
             @ concat (map (\<lambda>(n, v). utf8 n @ utf8 v)
                 (renegadeHeaders rt (cfg_headers (fst (request rt c net 1700000000000 ?cfg)))))
             @ utf8 []"
    unfolding D by simp
  show ?thesis
    unfolding Let_def
    by (rule conjI [OF A conjI [OF B conjI [OF C [THEN conjunct1] conjI [OF C [THEN conjunct2] conjI [OF D E]]]]])
qed


section \<open>What the signature depends on\<close>

lemma unat_of_char: "unat (of_char c :: 8 word) = (of_char c :: nat)"
proof -
  have "(of_char c :: 8 word) = of_nat (of_char c)" by (simp only: of_nat_of_char)
  then have "unat (of_char c :: 8 word) = (of_char c :: nat) mod 2 ^ 8"
    by (simp add: unat_of_nat)
  also have "\<dots> = of_char c" using of_char_mod_256 [of c, where ?'a = nat] by simp
  finally show ?thesis .
qed

lemma of_char_word_inj: "(of_char c :: 8 word) = of_char d \<Longrightarrow> c = d"
proof -
  assume "(of_char c :: 8 word) = of_char d"
  then have "unat (of_char c :: 8 word) = unat (of_char d :: 8 word)" by simp
  then have "(of_char c :: nat) = of_char d" by (simp only: unat_of_char)
  then show "c = d" by simp
qed

lemma utf8_inj: "utf8 s = utf8 t \<Longrightarrow> s = t"
  unfolding utf8_def
  by (rule map_injective) (auto simp add: inj_on_def dest: of_char_word_inj)

text \<open>Replacing the value of one name commutes with update, filter and sort.\<close>

lemma map_revalue_id:
  assumes "n \<notin> fst ` set xs"
  shows "map (\<lambda>(k, x). (k, if k = n then v' else x)) xs = xs"
  using assms by (induction xs) auto

lemma update_as_map:
  assumes "distinct (map fst xs)"
  shows "AList.update n v' xs = map (\<lambda>(k, x). (k, if k = n then v' else x)) (AList.update n v xs)"
  using assms
proof (induction xs)
  case Nil
  then show ?case by simp
next
  case (Cons p ps)
  show ?case
  proof (cases "fst p = n")
    case True
    then have "n \<notin> fst ` set ps" using Cons.prems by auto
    then show ?thesis using True by (simp add: map_revalue_id)
  next
    case False
    then show ?thesis using Cons by (simp add: case_prod_unfold)
  qed
qed

lemma map_update_other:
  assumes "m \<noteq> n"
  shows "map (\<lambda>(k, x). (k, if k = n then v' else x)) (AList.update m e xs)
       = AList.update m e (map (\<lambda>(k, x). (k, if k = n then v' else x)) xs)"
  using assms by (induction xs) (auto simp add: case_prod_unfold)

lemma filter_map_names:
  "filter (\<lambda>(k, x). P k) (map (\<lambda>(k, x). (k, if k = n then v' else x)) xs)
     = map (\<lambda>(k, x). (k, if k = n then v' else x)) (filter (\<lambda>(k, x). P k) xs)"
  by (induction xs) (auto simp add: case_prod_unfold)

lemma insort_map_names:
  "Sorting_Algorithms.insort (key fst cmp) ((\<lambda>(k, x). (k, if k = n then v' else x)) y)
      (map (\<lambda>(k, x). (k, if k = n then v' else x)) xs)
   = map (\<lambda>(k, x). (k, if k = n then v' else x)) (Sorting_Algorithms.insort (key fst cmp) y xs)"
  by (induction xs) (auto simp add: case_prod_unfold)

lemma sort_map_names:
  "Sorting_Algorithms.sort (key fst cmp) (map (\<lambda>(k, x). (k, if k = n then v' else x)) xs)
   = map (\<lambda>(k, x). (k, if k = n then v' else x)) (Sorting_Algorithms.sort (key fst cmp) xs)"
  by (induction xs) (simp_all add: insort_map_names)

lemma renegadeHeaders_revalue:
  assumes "n \<noteq> ''x-renegade-auth-expiration''"
  shows "renegadeHeaders rt (DAList.update ''x-renegade-auth-expiration'' e (DAList.update n v' H))
       = map (\<lambda>(k, x). (k, if k = n then v' else x))
           (renegadeHeaders rt (DAList.update ''x-renegade-auth-expiration'' e (DAList.update n v H)))"
proof -
  have "AList.update n v' (DAList.impl_of H)
      = map (\<lambda>(k, x). (k, if k = n then v' else x)) (AList.update n v (DAList.impl_of H))"
    by (rule update_as_map) simp
  then have "AList.update ''x-renegade-auth-expiration'' e (AList.update n v' (DAList.impl_of H))
      = map (\<lambda>(k, x). (k, if k = n then v' else x))
          (AList.update ''x-renegade-auth-expiration'' e (AList.update n v (DAList.impl_of H)))"
    using assms by (simp only: map_update_other [OF assms [symmetric]])
  then show ?thesis
    by (simp only: renegadeHeaders_filter update.rep_eq filter_map_names sort_map_names)
qed

lemma bytes_revalue:
  assumes d: "distinct (map fst xs)" and m: "(n, v) \<in> set xs" and ne: "v \<noteq> v'"
  shows "concat (map (\<lambda>(k, x). utf8 k @ utf8 x) (map (\<lambda>(k, x). (k, if k = n then v' else x)) xs))
       \<noteq> concat (map (\<lambda>(k, x). utf8 k @ utf8 x) xs)"
  using d m
proof (induction xs)
  case Nil
  then show ?case by simp
next
  case (Cons p ps)
  show ?case
  proof (cases "p = (n, v)")
    case True
    then have "n \<notin> fst ` set ps" using Cons.prems(1) by (auto simp add: image_iff)
    then have same: "map (\<lambda>(k, x). (k, if k = n then v' else x)) ps = ps"
      by (rule map_revalue_id)
    have "utf8 v' \<noteq> utf8 v" using ne utf8_inj by blast
    with True same show ?thesis by simp
  next
    case False
    with Cons.prems have in_ps: "(n, v) \<in> set ps" by simp
    then have "fst p \<noteq> n" using Cons.prems(1) by (auto simp add: image_iff)
    then have "(\<lambda>(k, x). (k, if k = n then v' else x)) p = p" by (cases p) simp
    moreover have "concat (map (\<lambda>(k, x). utf8 k @ utf8 x) (map (\<lambda>(k, x). (k, if k = n then v' else x)) ps))
       \<noteq> concat (map (\<lambda>(k, x). utf8 k @ utf8 x) ps)"
      using Cons.IH Cons.prems(1) in_ps by simp
    ultimately show ?thesis by simp
  qed
qed

lemma renegadeHeaders_distinct: "distinct (map fst (renegadeHeaders rt H))"
proof -
  let ?F = "filter (\<lambda>(n, v). startsWith (toLowerCase n) ''x-renegade'' \<and> toLowerCase n \<noteq> ''x-renegade-auth'')
          (DAList.impl_of H)"
  have d: "distinct (map fst ?F)"
    by (simp add: distinct_map_filter)
  have m: "mset (map fst (Sorting_Algorithms.sort (key fst (localeCompare rt)) ?F)) = mset (map fst ?F)"
    by simp
  have "distinct (map fst (Sorting_Algorithms.sort (key fst (localeCompare rt)) ?F)) = distinct (map fst ?F)"
    by (rule mset_eq_imp_distinct_iff [OF m])
  with d have "distinct (map fst (Sorting_Algorithms.sort (key fst (localeCompare rt)) ?F))"
    by (rule iffD2 [rotated])
  then show ?thesis by (simp only: renegadeHeaders_filter)
qed

lemma renegadeHeaders_member:
  "((n, v) \<in> set (renegadeHeaders rt H)) =
     ((startsWith (toLowerCase n) ''x-renegade'' \<and> toLowerCase n \<noteq> ''x-renegade-auth'')
        \<and> DAList.lookup H n = Some v)"
  by (auto simp add: renegadeHeaders_filter entries_iff)

lemma lookup_of_mset:
  fixes H H' :: headers
  assumes "mset (DAList.impl_of H) = mset (DAList.impl_of H')"
  shows "DAList.lookup H n = DAList.lookup H' n"
proof -
  have "set (DAList.impl_of H) = set (DAList.impl_of H')" using assms by (rule mset_eq_setD)
  then have "map_of (DAList.impl_of H) = map_of (DAList.impl_of H')"
    using map_of_inject_set [of "DAList.impl_of H" "DAList.impl_of H'"] impl_of_distinct
    by blast
  then show ?thesis by (simp only: lookup.rep_eq)
qed

lemma renegadeHeaders_reorder:
  fixes H H' :: headers
  assumes m: "mset (DAList.impl_of H) = mset (DAList.impl_of H')"
    and anti: "\<And>a b. a \<in> insert ''x-renegade-auth-expiration'' (fst ` set (DAList.impl_of H))
             \<Longrightarrow> b \<in> insert ''x-renegade-auth-expiration'' (fst ` set (DAList.impl_of H))
             \<Longrightarrow> compare (localeCompare rt) a b = Equiv \<Longrightarrow> a = b"
  shows "renegadeHeaders rt (DAList.update ''x-renegade-auth-expiration'' e H')
       = renegadeHeaders rt (DAList.update ''x-renegade-auth-expiration'' e H)"
proof (rule renegadeHeaders_cong_lookup)
  fix n
  show "DAList.lookup (DAList.update ''x-renegade-auth-expiration'' e H) n
      = DAList.lookup (DAList.update ''x-renegade-auth-expiration'' e H') n"
    using lookup_of_mset [OF m, of n] by (simp add: lookup_update)
next
  fix a b
  assume "a \<in> fst ` set (DAList.impl_of (DAList.update ''x-renegade-auth-expiration'' e H))"
    "b \<in> fst ` set (DAList.impl_of (DAList.update ''x-renegade-auth-expiration'' e H))"
    "compare (localeCompare rt) a b = Equiv"
  then show "a = b"
    using anti [of a b] by (simp add: update.rep_eq dom_update)
qed

lemma revalue_changes_bytes:
  assumes S: "startsWith (toLowerCase n) ''x-renegade'' \<and> toLowerCase n \<noteq> ''x-renegade-auth''"
    and ne: "n \<noteq> ''x-renegade-auth-expiration''" and vv: "v \<noteq> v'"
  shows "concat (map (\<lambda>(k, x). utf8 k @ utf8 x)
           (renegadeHeaders rt (DAList.update ''x-renegade-auth-expiration'' e (DAList.update n v H))))
       \<noteq> concat (map (\<lambda>(k, x). utf8 k @ utf8 x)
           (renegadeHeaders rt (DAList.update ''x-renegade-auth-expiration'' e (DAList.update n v' H))))"
proof -
  let ?R = "renegadeHeaders rt (DAList.update ''x-renegade-auth-expiration'' e (DAList.update n v H))"
  have "DAList.lookup (DAList.update ''x-renegade-auth-expiration'' e (DAList.update n v H)) n = Some v"
    using ne by (simp add: lookup_update)
  with S have mem: "(n, v) \<in> set ?R" by (simp only: renegadeHeaders_member simp_thms)
  have "concat (map (\<lambda>(k, x). utf8 k @ utf8 x) (map (\<lambda>(k, x). (k, if k = n then v' else x)) ?R))
       \<noteq> concat (map (\<lambda>(k, x). utf8 k @ utf8 x) ?R)"
    by (rule bytes_revalue [OF renegadeHeaders_distinct mem vv])
  then show ?thesis
    unfolding renegadeHeaders_revalue [OF ne, of rt e v' H v] by simp
qed

subsection \<open>Base64 without padding is injective\<close>

lemma byte_eqI:
  fixes a b :: byte
  assumes "bit a 0 = bit b 0" "bit a 1 = bit b 1" "bit a 2 = bit b 2" "bit a 3 = bit b 3"
    "bit a 4 = bit b 4" "bit a 5 = bit b 5" "bit a 6 = bit b 6" "bit a 7 = bit b 7"
  shows "a = b"
proof (rule bit_word_eqI)
  fix n assume "n < LENGTH(8)"
  then have "n \<in> {0, 1, 2, 3, 4, 5, 6, 7}" by auto
  then show "bit a n = bit b n" using assms by auto
qed

lemma sextet_bits:
  fixes x y :: byte
  assumes "x AND 63 = y AND 63"
  shows "bit x 0 = bit y 0" "bit x 1 = bit y 1" "bit x 2 = bit y 2" "bit x 3 = bit y 3"
    "bit x 4 = bit y 4" "bit x 5 = bit y 5"
proof -
  have m: "(63 :: byte) = mask 6" by (simp add: mask_eq_exp_minus_1)
  have e: "bit (x AND mask 6) n = bit (y AND mask 6) n" for n using assms unfolding m by simp
  show "bit x 0 = bit y 0" using e [of 0] by (simp add: bit_and_iff bit_mask_iff)
  show "bit x 1 = bit y 1" using e [of 1] by (simp add: bit_and_iff bit_mask_iff)
  show "bit x 2 = bit y 2" using e [of 2] by (simp add: bit_and_iff bit_mask_iff)
  show "bit x 3 = bit y 3" using e [of 3] by (simp add: bit_and_iff bit_mask_iff)
  show "bit x 4 = bit y 4" using e [of 4] by (simp add: bit_and_iff bit_mask_iff)
  show "bit x 5 = bit y 5" using e [of 5] by (simp add: bit_and_iff bit_mask_iff)
qed

lemma byte_high:
  fixes b :: byte
  shows "\<not> bit b 8" "\<not> bit b 9" "\<not> bit b 10" "\<not> bit b 11"
  using bit_imp_le_length [of b 8] bit_imp_le_length [of b 9]
    bit_imp_le_length [of b 10] bit_imp_le_length [of b 11] by auto

lemma distinct_b64chars: "distinct b64chars"
  by code_simp

lemma length_b64chars: "length b64chars = 64"
  by (simp add: b64chars_def)

lemma sextet_less: "unat ((x :: byte) AND 63) < 64"
proof -
  have "x AND 63 \<le> 63" by (rule word_and_le1)
  then have "unat (x AND 63) \<le> unat (63 :: byte)" by (simp only: word_le_nat_alt)
  then show ?thesis by simp
qed

lemma b64_inj: "b64 x = b64 y \<Longrightarrow> x AND 63 = y AND 63"
proof -
  assume "b64 x = b64 y"
  then have "b64chars ! unat (x AND 63) = b64chars ! unat (y AND 63)" by (simp only: b64_def)
  then have "unat (x AND 63) = unat (y AND 63)"
    using nth_eq_iff_index_eq [OF distinct_b64chars, of "unat (x AND 63)" "unat (y AND 63)"]
      sextet_less [of x] sextet_less [of y] by (simp only: length_b64chars)
  then show ?thesis by (rule unsigned_word_eqI)
qed

lemma b64_not_pad: "b64 x \<noteq> CHR ''=''"
proof -
  have "b64 x \<in> set b64chars"
    unfolding b64_def using sextet_less [of x] by (simp only: nth_mem length_b64chars)
  moreover have "CHR ''='' \<notin> set b64chars" by code_simp
  ultimately show ?thesis by metis
qed

lemma group3_inj:
  fixes a b c a' b' c' :: byte
  assumes 1: "b64 (drop_bit 2 a) = b64 (drop_bit 2 a')"
    and 2: "b64 (push_bit 4 (a AND 3) OR drop_bit 4 b) = b64 (push_bit 4 (a' AND 3) OR drop_bit 4 b')"
    and 3: "b64 (push_bit 2 (b AND 15) OR drop_bit 6 c) = b64 (push_bit 2 (b' AND 15) OR drop_bit 6 c')"
    and 4: "b64 (c AND 63) = b64 (c' AND 63)"
  shows "a = a' \<and> b = b' \<and> c = c'"
proof -
  have m3: "(3 :: byte) = mask 2" and m15: "(15 :: byte) = mask 4" and m63: "(63 :: byte) = mask 6"
    by (simp_all add: mask_eq_exp_minus_1)
  note s1 = sextet_bits [OF b64_inj [OF 1]] and s2 = sextet_bits [OF b64_inj [OF 2]]
    and s3 = sextet_bits [OF b64_inj [OF 3]] and s4 = sextet_bits [OF b64_inj [OF 4]]
  have a: "a = a'"
    using s1 s2 unfolding m3 m15 m63
    by (intro byte_eqI) (simp_all add: bit_simps byte_high)
  have b: "b = b'"
    using s2 s3 unfolding m3 m15 m63
    by (intro byte_eqI) (simp_all add: bit_simps byte_high)
  have c: "c = c'"
    using s3 s4 unfolding m3 m15 m63
    by (intro byte_eqI) (simp_all add: bit_simps byte_high)
  from a b c show ?thesis by simp
qed

lemma group2_inj:
  fixes a b a' b' :: byte
  assumes 1: "b64 (drop_bit 2 a) = b64 (drop_bit 2 a')"
    and 2: "b64 (push_bit 4 (a AND 3) OR drop_bit 4 b) = b64 (push_bit 4 (a' AND 3) OR drop_bit 4 b')"
    and 3: "b64 (push_bit 2 (b AND 15)) = b64 (push_bit 2 (b' AND 15))"
  shows "a = a' \<and> b = b'"
proof -
  have m3: "(3 :: byte) = mask 2" and m15: "(15 :: byte) = mask 4" and m63: "(63 :: byte) = mask 6"
    by (simp_all add: mask_eq_exp_minus_1)
  note s1 = sextet_bits [OF b64_inj [OF 1]] and s2 = sextet_bits [OF b64_inj [OF 2]]
    and s3 = sextet_bits [OF b64_inj [OF 3]]
  have a: "a = a'"
    using s1 s2 unfolding m3 m15 m63
    by (intro byte_eqI) (simp_all add: bit_simps byte_high)
  have b: "b = b'"
    using s2 s3 unfolding m3 m15 m63
    by (intro byte_eqI) (simp_all add: bit_simps byte_high)
  from a b show ?thesis by simp
qed

lemma group1_inj:
  fixes a a' :: byte
  assumes 1: "b64 (drop_bit 2 a) = b64 (drop_bit 2 a')"
    and 2: "b64 (push_bit 4 (a AND 3)) = b64 (push_bit 4 (a' AND 3))"
  shows "a = a'"
proof -
  have m3: "(3 :: byte) = mask 2" and m15: "(15 :: byte) = mask 4" and m63: "(63 :: byte) = mask 6"
    by (simp_all add: mask_eq_exp_minus_1)
  note s1 = sextet_bits [OF b64_inj [OF 1]] and s2 = sextet_bits [OF b64_inj [OF 2]]
  show "a = a'"
    using s1 s2 unfolding m3 m15 m63
    by (intro byte_eqI) (simp_all add: bit_simps byte_high)
qed

lemma pad_not_b64: "CHR ''='' \<noteq> b64 x"
  using b64_not_pad [of x] by (rule not_sym)

lemma base64_inj: "base64 d = base64 d' \<Longrightarrow> d = d'"
proof (induction d arbitrary: d' rule: base64.induct)
  case (1 a b c rest)
  show ?case
  proof (cases d' rule: base64.cases)
    case (1 a' b' c' rest')
    with "1.prems" have g: "a = a' \<and> b = b' \<and> c = c'" and r: "base64 rest = base64 rest'"
      using group3_inj [of a a' b b' c c'] by simp_all
    from r have "rest = rest'" by (rule "1.IH")
    with g 1 show ?thesis by simp
  next
    case (2 a' b')
    with "1.prems" show ?thesis by (simp add: b64_not_pad)
  next
    case (3 a')
    with "1.prems" show ?thesis by (simp add: b64_not_pad)
  next
    case 4
    with "1.prems" show ?thesis by simp
  qed
next
  case (2 a b)
  show ?case
  proof (cases d' rule: base64.cases)
    case (1 a' b' c' rest')
    with "2.prems" show ?thesis by (simp add: pad_not_b64)
  next
    case (2 a' b')
    with "2.prems" show ?thesis using group2_inj [of a a' b b'] by simp
  next
    case (3 a')
    with "2.prems" show ?thesis by (simp add: b64_not_pad)
  next
    case 4
    with "2.prems" show ?thesis by simp
  qed
next
  case (3 a)
  show ?case
  proof (cases d' rule: base64.cases)
    case (1 a' b' c' rest')
    with "3.prems" show ?thesis by (simp add: pad_not_b64)
  next
    case (2 a' b')
    with "3.prems" show ?thesis by (simp add: pad_not_b64)
  next
    case (3 a')
    with "3.prems" show ?thesis using group1_inj [of a a'] by simp
  next
    case 4
    with "3.prems" show ?thesis by simp
  qed
next
  case 4
  then show ?case by (cases d' rule: base64.cases) simp_all
qed

lemma strip_padding:
  assumes "CHR ''='' \<notin> set xs"
  shows "stripTrailingEquals (xs @ replicate k (CHR ''='')) = xs"
proof -
  have "c \<notin> set ys \<Longrightarrow> dropWhile (\<lambda>x. x = c) ys = ys" for c :: char and ys
    by (cases ys) auto
  moreover have "CHR ''='' \<notin> set (rev xs)" using assms by simp
  ultimately have "dropWhile (\<lambda>c. c = CHR ''='') (rev xs) = rev xs" by blast
  moreover have "dropWhile (\<lambda>c. c = CHR ''='') (replicate k (CHR ''='') @ rev xs)
      = dropWhile (\<lambda>c. c = CHR ''='') (rev xs)"
    by (induction k) simp_all
  ultimately show ?thesis
    by (simp add: stripTrailingEquals_def)
qed

lemma base64_shape:
  "\<exists>core k. base64 d = core @ replicate k (CHR ''='') \<and> CHR ''='' \<notin> set core
            \<and> k < 3 \<and> (length core + k) mod 4 = 0"
proof (induction d rule: base64.induct)
  case (1 a b c rest)
  then obtain core k where r: "base64 rest = core @ replicate k (CHR ''='')"
    and n: "CHR ''='' \<notin> set core" and k: "k < 3" and l: "(length core + k) mod 4 = 0"
    by auto
  let ?g = "[b64 (drop_bit 2 a), b64 (push_bit 4 (a AND 3) OR drop_bit 4 b),
      b64 (push_bit 2 (b AND 15) OR drop_bit 6 c), b64 (c AND 63)]"
  have A: "base64 (a # b # c # rest) = (?g @ core) @ replicate k (CHR ''='')"
    using r by simp
  have B: "CHR ''='' \<notin> set (?g @ core)" using n by (simp add: pad_not_b64)
  have C: "(length (?g @ core) + k) mod 4 = 0" using l by simp
  show ?case
    by (rule exI [of _ "?g @ core"], rule exI [of _ k]) (rule conjI [OF A conjI [OF B conjI [OF k C]]])
next
  case (2 a b)
  let ?g = "[b64 (drop_bit 2 a), b64 (push_bit 4 (a AND 3) OR drop_bit 4 b), b64 (push_bit 2 (b AND 15))]"
  have A: "base64 [a, b] = ?g @ replicate 1 (CHR ''='')" by simp
  have B: "CHR ''='' \<notin> set ?g" by (simp add: pad_not_b64)
  have C: "(length ?g + 1) mod 4 = 0" by simp
  have k: "(1 :: nat) < 3" by simp
  show ?case
    by (rule exI [of _ ?g], rule exI [of _ 1]) (rule conjI [OF A conjI [OF B conjI [OF k C]]])
next
  case (3 a)
  let ?g = "[b64 (drop_bit 2 a), b64 (push_bit 4 (a AND 3))]"
  have A: "base64 [a] = ?g @ replicate 2 (CHR ''='')" by (simp add: numeral_2_eq_2)
  have B: "CHR ''='' \<notin> set ?g" by (simp add: pad_not_b64)
  have C: "(length ?g + 2) mod 4 = 0" by simp
  have k: "(2 :: nat) < 3" by simp
  show ?case
    by (rule exI [of _ ?g], rule exI [of _ 2]) (rule conjI [OF A conjI [OF B conjI [OF k C]]])
next
  case 4
  have A: "base64 [] = [] @ replicate 0 (CHR ''='')" by simp
  have B: "CHR ''='' \<notin> set []" by simp
  have C: "(length ([] :: string) + 0) mod 4 = 0" by simp
  have k: "(0 :: nat) < 3" by simp
  show ?case
    by (rule exI [of _ "[]"], rule exI [of _ 0]) (rule conjI [OF A conjI [OF B conjI [OF k C]]])
qed

lemma encodeBase64_inj:
  assumes "encodeBase64 d = encodeBase64 d'"
  shows "d = d'"
proof -
  obtain core k where r: "base64 d = core @ replicate k (CHR ''='')"
    and n: "CHR ''='' \<notin> set core" and k: "k < 3" and l: "(length core + k) mod 4 = 0"
    using base64_shape [of d] by auto
  obtain core' k' where r': "base64 d' = core' @ replicate k' (CHR ''='')"
    and n': "CHR ''='' \<notin> set core'" and k': "k' < 3" and l': "(length core' + k') mod 4 = 0"
    using base64_shape [of d'] by auto
  have "encodeBase64 d = core" unfolding encodeBase64_def r using n by (rule strip_padding)
  moreover have "encodeBase64 d' = core'" unfolding encodeBase64_def r' using n' by (rule strip_padding)
  ultimately have c: "core = core'" using assms by simp
  have "k = k'" using k k' l l' unfolding c by presburger
  with c have "base64 d = base64 d'" unfolding r r' by simp
  then show ?thesis by (rule base64_inj)
qed

subsection \<open>\<open>localeCompare\<close> tells names apart\<close>

lemma lowerChar_inj:
  assumes "lowerChar c = lowerChar d" and "isUpper c = isUpper d"
  shows "c = d"
proof (cases "isUpper c")
  case True
  then have u: "isUpper d" using assms(2) by simp
  from True u assms(1) have "char_of (of_char c + (32::nat)) = char_of (of_char d + (32::nat))"
    by (simp add: lowerChar_def isUpper_def)
  then have "(of_char (char_of (of_char c + (32::nat))) :: nat) = of_char (char_of (of_char d + (32::nat)))"
    by simp
  then have "(of_char c + 32) mod 256 = ((of_char d + 32) mod 256 :: nat)"
    by (simp only: of_char_of)
  moreover have "(of_char c :: nat) \<le> 90" "(of_char d :: nat) \<le> 90"
    using True u by (simp_all add: isUpper_def)
  ultimately have "(of_char c :: nat) = of_char d" by simp
  then show ?thesis by simp
next
  case False
  then have "\<not> isUpper d" using assms(2) by simp
  then have "lowerChar d = d" by (auto simp add: lowerChar_def isUpper_def)
  moreover have "lowerChar c = c" using False by (auto simp add: lowerChar_def isUpper_def)
  ultimately show ?thesis using assms(1) by simp
qed

lemma toLowerCase_inj:
  "toLowerCase a = toLowerCase b \<Longrightarrow> map isUpper a = map isUpper b \<Longrightarrow> a = b"
proof (induction a arbitrary: b)
  case Nil
  then show ?case by (simp add: toLowerCase_def)
next
  case (Cons c cs)
  then obtain d ds where b: "b = d # ds" by (cases b) (auto simp add: toLowerCase_def)
  from Cons.prems have "lowerChar c = lowerChar d" "isUpper c = isUpper d"
    and "toLowerCase cs = toLowerCase ds" "map isUpper cs = map isUpper ds"
    unfolding b by (simp_all add: toLowerCase_def)
  then show ?case unfolding b using lowerChar_inj Cons.IH by simp
qed

lemma asciiLocaleCompare_equiv:
  "compare asciiLocaleCompare a b = Equiv \<Longrightarrow> a = b"
proof -
  assume "compare asciiLocaleCompare a b = Equiv"
  then have "toLowerCase a = toLowerCase b \<and> map isUpper a = map isUpper b"
    by (simp add: asciiLocaleCompare_def compare_prod_lex_apply split: comp.splits)
  then show "a = b" using toLowerCase_inj by blast
qed

subsection \<open>Adding a header\<close>

lemma mset_update_fresh:
  assumes "n \<noteq> k" and "n \<notin> fst ` set xs"
  shows "mset (AList.update k e (AList.update n v xs)) = add_mset (n, v) (mset (AList.update k e xs))"
  using assms(2)
proof (induction xs)
  case Nil
  then show ?case using assms(1) by simp
next
  case (Cons p ps)
  then have fresh: "n \<notin> fst ` set ps" and ne: "fst p \<noteq> n" by auto
  show ?case
  proof (cases "fst p = k")
    case True
    then show ?thesis using ne fresh by (cases p) (simp add: update_fresh)
  next
    case False
    then show ?thesis using ne Cons.IH [OF fresh] by (cases p) simp
  qed
qed

lemma length_signed:
  "length (concat (map (\<lambda>(k, x). utf8 k @ utf8 x) xs))
     = sum_mset (image_mset (\<lambda>(k, x). length k + length x) (mset xs))"
  by (induction xs) (simp_all add: utf8_def split_beta)

lemma added_header_changes_bytes:
  fixes H :: headers
  assumes S: "startsWith (toLowerCase n) ''x-renegade'' \<and> toLowerCase n \<noteq> ''x-renegade-auth''"
    and ne: "n \<noteq> ''x-renegade-auth-expiration''" and fresh: "DAList.lookup H n = None"
  shows "concat (map (\<lambda>(k, x). utf8 k @ utf8 x)
           (renegadeHeaders rt (DAList.update ''x-renegade-auth-expiration'' e (DAList.update n v H))))
       \<noteq> concat (map (\<lambda>(k, x). utf8 k @ utf8 x)
           (renegadeHeaders rt (DAList.update ''x-renegade-auth-expiration'' e H)))"
proof -
  let ?S = "\<lambda>(n, v). startsWith (toLowerCase n) ''x-renegade'' \<and> toLowerCase n \<noteq> ''x-renegade-auth''"
  let ?R = "renegadeHeaders rt (DAList.update ''x-renegade-auth-expiration'' e (DAList.update n v H))"
  let ?Q = "renegadeHeaders rt (DAList.update ''x-renegade-auth-expiration'' e H)"
  have "n \<notin> fst ` set (DAList.impl_of H)"
    using fresh by (simp add: lookup.rep_eq map_of_eq_None_iff)
  then have "mset (AList.update ''x-renegade-auth-expiration'' e (AList.update n v (DAList.impl_of H)))
      = add_mset (n, v) (mset (AList.update ''x-renegade-auth-expiration'' e (DAList.impl_of H)))"
    using ne by (rule mset_update_fresh [rotated])
  then have "filter_mset ?S (mset (AList.update ''x-renegade-auth-expiration'' e (AList.update n v (DAList.impl_of H))))
      = filter_mset ?S (add_mset (n, v) (mset (AList.update ''x-renegade-auth-expiration'' e (DAList.impl_of H))))"
    by (rule arg_cong)
  then have f: "mset (filter ?S (AList.update ''x-renegade-auth-expiration'' e (AList.update n v (DAList.impl_of H))))
      = add_mset (n, v) (mset (filter ?S (AList.update ''x-renegade-auth-expiration'' e (DAList.impl_of H))))"
    using S by simp
  have m: "mset ?R = add_mset (n, v) (mset ?Q)"
    unfolding renegadeHeaders_filter update.rep_eq mset_sort by (rule f)
  have "n \<noteq> []" using S by (auto simp add: toLowerCase_def startsWith_def)
  then have "length (concat (map (\<lambda>(k, x). utf8 k @ utf8 x) ?R))
      > length (concat (map (\<lambda>(k, x). utf8 k @ utf8 x) ?Q))"
    unfolding length_signed m by simp
  then show ?thesis by auto
qed

lemma expiration_overwritten:
  fixes H :: headers
  shows "DAList.update ''x-renegade-auth-expiration'' e (DAList.update ''x-renegade-auth-expiration'' v H)
       = DAList.update ''x-renegade-auth-expiration'' e H"
  by (rule alist_ext) (simp add: update.rep_eq)

lemma boundary_names:
  "toLowerCase ''x-renegade-a'' = ''x-renegade-a''"
  "toLowerCase ''x-renegade-ab'' = ''x-renegade-ab''"
  "toLowerCase ''x-renegade-auth-expiration'' = ''x-renegade-auth-expiration''"
  "compare asciiLocaleCompare ''x-renegade-a'' ''x-renegade-auth-expiration'' = Less"
  "compare asciiLocaleCompare ''x-renegade-ab'' ''x-renegade-auth-expiration'' = Less"
  by code_simp+

text \<open>
  Claim C4 as it is written fails: three changes of a request that leave the signature as
  it is, here under \<open>localeCompare\<close> as the engine has it.
  \<^item> The order in which the request lists its headers: they are sorted before they are
    hashed.
  \<^item> One byte of an included header: the value the request gives
    \<open>x-renegade-auth-expiration\<close>, which the interceptor overwrites.
  \<^item> The set of the included headers: names and values are hashed with nothing between
    them, so the header \<open>x-renegade-a\<close> with the value \<open>bc\<close> and the header
    \<open>x-renegade-ab\<close> with the value \<open>c\<close> give HMAC the same bytes.
\<close>

theorem C4_sensitivity_counterexample:
  "\<forall>rt c now.
      DAList.impl_of (DAList.update ''x-renegade-sdk-version'' ''typescript-v0.1.8'' (DAList.update ''x-renegade-api-key'' ''key'' DAList.empty))
      \<noteq> DAList.impl_of (DAList.update ''x-renegade-api-key'' ''key'' (DAList.update ''x-renegade-sdk-version'' ''typescript-v0.1.8'' DAList.empty))
    \<and> DAList.lookup (cfg_headers (addAuthInterceptor (rt \<lparr> localeCompare := asciiLocaleCompare \<rparr>) c now
          \<lparr> cfg_method = ''post'', cfg_url = Some ''/v0/matching-engine/quote'',
            cfg_headers = (DAList.update ''x-renegade-sdk-version'' ''typescript-v0.1.8'' (DAList.update ''x-renegade-api-key'' ''key'' DAList.empty)),
            cfg_data = JString ''{}'' \<rparr>)) ''x-renegade-auth''
      = DAList.lookup (cfg_headers (addAuthInterceptor (rt \<lparr> localeCompare := asciiLocaleCompare \<rparr>) c now
          \<lparr> cfg_method = ''post'', cfg_url = Some ''/v0/matching-engine/quote'',
            cfg_headers = (DAList.update ''x-renegade-api-key'' ''key'' (DAList.update ''x-renegade-sdk-version'' ''typescript-v0.1.8'' DAList.empty)),
            cfg_data = JString ''{}'' \<rparr>)) ''x-renegade-auth''
    \<and> DAList.lookup (cfg_headers (addAuthInterceptor rt c now
          \<lparr> cfg_method = ''post'', cfg_url = Some ''/v0/matching-engine/quote'',
            cfg_headers = (DAList.update ''x-renegade-auth-expiration'' ''1'' (DAList.update ''x-renegade-api-key'' ''key'' DAList.empty)),
            cfg_data = JString ''{}'' \<rparr>)) ''x-renegade-auth''
      = DAList.lookup (cfg_headers (addAuthInterceptor rt c now
          \<lparr> cfg_method = ''post'', cfg_url = Some ''/v0/matching-engine/quote'',
            cfg_headers = (DAList.update ''x-renegade-auth-expiration'' ''2'' (DAList.update ''x-renegade-api-key'' ''key'' DAList.empty)),
            cfg_data = JString ''{}'' \<rparr>)) ''x-renegade-auth''
    \<and> DAList.lookup (cfg_headers (addAuthInterceptor (rt \<lparr> localeCompare := asciiLocaleCompare \<rparr>) c now
          \<lparr> cfg_method = ''post'', cfg_url = Some ''/v0/matching-engine/quote'',
            cfg_headers = (DAList.update ''x-renegade-a'' ''bc'' DAList.empty),
            cfg_data = JString ''{}'' \<rparr>)) ''x-renegade-auth''
      = DAList.lookup (cfg_headers (addAuthInterceptor (rt \<lparr> localeCompare := asciiLocaleCompare \<rparr>) c now
          \<lparr> cfg_method = ''post'', cfg_url = Some ''/v0/matching-engine/quote'',
            cfg_headers = (DAList.update ''x-renegade-ab'' ''c'' DAList.empty),
            cfg_data = JString ''{}'' \<rparr>)) ''x-renegade-auth''"
proof (intro allI conjI)
  show "DAList.impl_of (DAList.update ''x-renegade-sdk-version'' ''typescript-v0.1.8'' (DAList.update ''x-renegade-api-key'' ''key'' DAList.empty))
      \<noteq> DAList.impl_of (DAList.update ''x-renegade-api-key'' ''key'' (DAList.update ''x-renegade-sdk-version'' ''typescript-v0.1.8'' DAList.empty))"
    by (simp add: update.rep_eq empty.rep_eq)
next
  fix rt :: runtime and c :: RelayerHttpClient and now :: int
  let ?rt = "rt \<lparr> localeCompare := asciiLocaleCompare \<rparr>"
  let ?e = "toString (now + 10000)"
  let ?H1 = "DAList.update ''x-renegade-sdk-version'' ''typescript-v0.1.8'' (DAList.update ''x-renegade-api-key'' ''key'' DAList.empty) :: headers"
  let ?H2 = "DAList.update ''x-renegade-api-key'' ''key'' (DAList.update ''x-renegade-sdk-version'' ''typescript-v0.1.8'' DAList.empty) :: headers"
  have "renegadeHeaders ?rt (DAList.update ''x-renegade-auth-expiration'' ?e ?H2)
      = renegadeHeaders ?rt (DAList.update ''x-renegade-auth-expiration'' ?e ?H1)"
  proof (rule renegadeHeaders_cong_lookup)
    fix n
    show "DAList.lookup (DAList.update ''x-renegade-auth-expiration'' ?e ?H1) n
        = DAList.lookup (DAList.update ''x-renegade-auth-expiration'' ?e ?H2) n"
      by (auto simp add: lookup_update)
  next
    fix a b :: string
    assume "compare (localeCompare ?rt) a b = Equiv"
    then show "a = b" using asciiLocaleCompare_equiv by simp
  qed
  then show "DAList.lookup (cfg_headers (addAuthInterceptor ?rt c now
          \<lparr> cfg_method = ''post'', cfg_url = Some ''/v0/matching-engine/quote'',
            cfg_headers = ?H1,
            cfg_data = JString ''{}'' \<rparr>)) ''x-renegade-auth''
      = DAList.lookup (cfg_headers (addAuthInterceptor ?rt c now
          \<lparr> cfg_method = ''post'', cfg_url = Some ''/v0/matching-engine/quote'',
            cfg_headers = ?H2,
            cfg_data = JString ''{}'' \<rparr>)) ''x-renegade-auth''"
    by (simp only: signature_of config.simps)
next
  fix rt :: runtime and c :: RelayerHttpClient and now :: int
  let ?K = "DAList.update ''x-renegade-api-key'' ''key'' DAList.empty :: headers"
  show "DAList.lookup (cfg_headers (addAuthInterceptor rt c now
          \<lparr> cfg_method = ''post'', cfg_url = Some ''/v0/matching-engine/quote'',
            cfg_headers = (DAList.update ''x-renegade-auth-expiration'' ''1'' ?K),
            cfg_data = JString ''{}'' \<rparr>)) ''x-renegade-auth''
      = DAList.lookup (cfg_headers (addAuthInterceptor rt c now
          \<lparr> cfg_method = ''post'', cfg_url = Some ''/v0/matching-engine/quote'',
            cfg_headers = (DAList.update ''x-renegade-auth-expiration'' ''2'' ?K),
            cfg_data = JString ''{}'' \<rparr>)) ''x-renegade-auth''"
    by (simp only: signature_of config.simps expiration_overwritten)
next
  fix rt :: runtime and c :: RelayerHttpClient and now :: int
  let ?rt = "rt \<lparr> localeCompare := asciiLocaleCompare \<rparr>"
  let ?e = "toString (now + 10000)"
  have 1: "renegadeHeaders ?rt (DAList.update ''x-renegade-auth-expiration'' ?e (DAList.update ''x-renegade-a'' ''bc'' DAList.empty))
      = [(''x-renegade-a'', ''bc''), (''x-renegade-auth-expiration'', ?e)]"
    unfolding renegadeHeaders_filter
    by (simp add: update.rep_eq empty.rep_eq boundary_names startsWith_def)
  have 2: "renegadeHeaders ?rt (DAList.update ''x-renegade-auth-expiration'' ?e (DAList.update ''x-renegade-ab'' ''c'' DAList.empty))
      = [(''x-renegade-ab'', ''c''), (''x-renegade-auth-expiration'', ?e)]"
    unfolding renegadeHeaders_filter
    by (simp add: update.rep_eq empty.rep_eq boundary_names startsWith_def)
  show "DAList.lookup (cfg_headers (addAuthInterceptor ?rt c now
          \<lparr> cfg_method = ''post'', cfg_url = Some ''/v0/matching-engine/quote'',
            cfg_headers = (DAList.update ''x-renegade-a'' ''bc'' DAList.empty),
            cfg_data = JString ''{}'' \<rparr>)) ''x-renegade-auth''
      = DAList.lookup (cfg_headers (addAuthInterceptor ?rt c now
          \<lparr> cfg_method = ''post'', cfg_url = Some ''/v0/matching-engine/quote'',
            cfg_headers = (DAList.update ''x-renegade-ab'' ''c'' DAList.empty),
            cfg_data = JString ''{}'' \<rparr>)) ''x-renegade-auth''"
    unfolding signature_of config.simps option.simps 1 2 by (simp add: utf8_def)
qed

text \<open>
  Claim C4, amended. For a client (a key) and a time, with \<open>msg H p d\<close> the bytes given
  to HMAC for the headers \<open>H\<close>, the path \<open>p\<close> and the body \<open>d\<close>, and \<open>sig H p d\<close>
  the signature:
  \<^item> \<open>sig H p d\<close> is the base64 text, without padding, of the HMAC of \<open>msg H p d\<close>: the
    same path, included headers and serialized body give the same signature;
  \<^item> listing the same headers in another order changes neither \<open>msg\<close> nor the
    signature, provided \<open>localeCompare\<close> returns \<open>0\<close> for no two different names among
    those of the request and \<open>x-renegade-auth-expiration\<close>;
  \<^item> another path changes \<open>msg\<close>; another serialized body changes \<open>msg\<close>; another
    value for an included header other than \<open>x-renegade-auth-expiration\<close> changes
    \<open>msg\<close>; an included header more, under a name the request does not have, changes
    \<open>msg\<close>;
  \<^item> the value the request gives \<open>x-renegade-auth-expiration\<close> does not reach \<open>msg\<close>;
  \<^item> two requests have the same signature exactly when HMAC gives their two \<open>msg\<close> the
    same digest: base64 without padding loses nothing. That different \<open>msg\<close> have
    different digests is the collision resistance of HMAC-SHA256, not a property of this
    program.
\<close>

theorem C4_signature_function:
  "(let msg = (\<lambda>H p d. utf8 p
                 @ concat (map (\<lambda>(n, v). utf8 n @ utf8 v)
                     (renegadeHeaders rt
                        (DAList.update ''x-renegade-auth-expiration'' (toString (now + 10000)) H)))
                 @ utf8 (signedBody rt d));
        sig = (\<lambda>H p d. DAList.lookup (cfg_headers (addAuthInterceptor rt c now
                 \<lparr> cfg_method = m, cfg_url = Some p, cfg_headers = H, cfg_data = d \<rparr>))
                 ''x-renegade-auth'')
    in (\<forall>H p d. sig H p d = Some (encodeBase64 (hmacSha256 rt (authKey c) (msg H p d))))
     \<and> (\<forall>H H' p d.
           mset (DAList.impl_of H) = mset (DAList.impl_of H')
           \<and> (\<forall>a b. a \<in> insert ''x-renegade-auth-expiration'' (fst ` set (DAList.impl_of H))
                  \<and> b \<in> insert ''x-renegade-auth-expiration'' (fst ` set (DAList.impl_of H))
                  \<and> compare (localeCompare rt) a b = Equiv \<longrightarrow> a = b)
           \<longrightarrow> msg H p d = msg H' p d \<and> sig H p d = sig H' p d)
     \<and> (\<forall>H p p' d. p \<noteq> p' \<longrightarrow> msg H p d \<noteq> msg H p' d)
     \<and> (\<forall>H p d d'. signedBody rt d \<noteq> signedBody rt d' \<longrightarrow> msg H p d \<noteq> msg H p d')
     \<and> (\<forall>H p d n v v'.
           startsWith (toLowerCase n) ''x-renegade'' \<and> toLowerCase n \<noteq> ''x-renegade-auth''
           \<and> n \<noteq> ''x-renegade-auth-expiration'' \<and> v \<noteq> v'
           \<longrightarrow> msg (DAList.update n v H) p d \<noteq> msg (DAList.update n v' H) p d)
     \<and> (\<forall>H p d n v.
           startsWith (toLowerCase n) ''x-renegade'' \<and> toLowerCase n \<noteq> ''x-renegade-auth''
           \<and> n \<noteq> ''x-renegade-auth-expiration'' \<and> DAList.lookup H n = None
           \<longrightarrow> msg (DAList.update n v H) p d \<noteq> msg H p d)
     \<and> (\<forall>H p d v. msg (DAList.update ''x-renegade-auth-expiration'' v H) p d = msg H p d)
     \<and> (\<forall>H p d H' p' d'. (sig H p d = sig H' p' d')
           = (hmacSha256 rt (authKey c) (msg H p d) = hmacSha256 rt (authKey c) (msg H' p' d'))))"
proof -
  let ?e = "toString (now + 10000)"
  have 1: "DAList.lookup (cfg_headers (addAuthInterceptor rt c now
                 \<lparr> cfg_method = m, cfg_url = Some p, cfg_headers = H, cfg_data = d \<rparr>))
                 ''x-renegade-auth''
         = Some (encodeBase64 (hmacSha256 rt (authKey c) (utf8 p
                 @ concat (map (\<lambda>(n, v). utf8 n @ utf8 v)
                     (renegadeHeaders rt
                        (DAList.update ''x-renegade-auth-expiration'' (toString (now + 10000)) H)))
                 @ utf8 (signedBody rt d))))" for H p d
    by (simp add: signature_of)
  have 2: "renegadeHeaders rt (DAList.update ''x-renegade-auth-expiration'' ?e H')
         = renegadeHeaders rt (DAList.update ''x-renegade-auth-expiration'' ?e H)"
    if "mset (DAList.impl_of H) = mset (DAList.impl_of H')
           \<and> (\<forall>a b. a \<in> insert ''x-renegade-auth-expiration'' (fst ` set (DAList.impl_of H))
                  \<and> b \<in> insert ''x-renegade-auth-expiration'' (fst ` set (DAList.impl_of H))
                  \<and> compare (localeCompare rt) a b = Equiv \<longrightarrow> a = b)" for H H' :: headers
  proof (rule renegadeHeaders_reorder)
    show "mset (DAList.impl_of H) = mset (DAList.impl_of H')" using that by blast
  next
    fix a b
    assume "a \<in> insert ''x-renegade-auth-expiration'' (fst ` set (DAList.impl_of H))"
      "b \<in> insert ''x-renegade-auth-expiration'' (fst ` set (DAList.impl_of H))"
      "compare (localeCompare rt) a b = Equiv"
    with that show "a = b" by blast
  qed
  have 3: "utf8 p @ X \<noteq> utf8 p' @ X" if "p \<noteq> p'" for p p' X
    using that utf8_inj by auto
  have A: "\<forall>H p d. DAList.lookup (cfg_headers (addAuthInterceptor rt c now
                 \<lparr> cfg_method = m, cfg_url = Some p, cfg_headers = H, cfg_data = d \<rparr>))
                 ''x-renegade-auth'' = Some (encodeBase64 (hmacSha256 rt (authKey c) (utf8 p
                 @ concat (map (\<lambda>(n, v). utf8 n @ utf8 v)
                     (renegadeHeaders rt
                        (DAList.update ''x-renegade-auth-expiration'' (toString (now + 10000)) H)))
                 @ utf8 (signedBody rt d))))"
    using 1 by blast
  have B: "\<forall>H H' p d.
           mset (DAList.impl_of H) = mset (DAList.impl_of H')
           \<and> (\<forall>a b. a \<in> insert ''x-renegade-auth-expiration'' (fst ` set (DAList.impl_of H))
                  \<and> b \<in> insert ''x-renegade-auth-expiration'' (fst ` set (DAList.impl_of H))
                  \<and> compare (localeCompare rt) a b = Equiv \<longrightarrow> a = b)
           \<longrightarrow> (utf8 p
                 @ concat (map (\<lambda>(n, v). utf8 n @ utf8 v)
                     (renegadeHeaders rt
                        (DAList.update ''x-renegade-auth-expiration'' (toString (now + 10000)) H)))
                 @ utf8 (signedBody rt d)) = (utf8 p
                 @ concat (map (\<lambda>(n, v). utf8 n @ utf8 v)
                     (renegadeHeaders rt
                        (DAList.update ''x-renegade-auth-expiration'' (toString (now + 10000)) H')))
                 @ utf8 (signedBody rt d)) \<and> DAList.lookup (cfg_headers (addAuthInterceptor rt c now
                 \<lparr> cfg_method = m, cfg_url = Some p, cfg_headers = H, cfg_data = d \<rparr>))
                 ''x-renegade-auth'' = DAList.lookup (cfg_headers (addAuthInterceptor rt c now
                 \<lparr> cfg_method = m, cfg_url = Some p, cfg_headers = H', cfg_data = d \<rparr>))
                 ''x-renegade-auth''"
  proof (intro allI impI)
    fix H H' :: headers and p d
    assume h: "mset (DAList.impl_of H) = mset (DAList.impl_of H')
           \<and> (\<forall>a b. a \<in> insert ''x-renegade-auth-expiration'' (fst ` set (DAList.impl_of H))
                  \<and> b \<in> insert ''x-renegade-auth-expiration'' (fst ` set (DAList.impl_of H))
                  \<and> compare (localeCompare rt) a b = Equiv \<longrightarrow> a = b)"
    show "(utf8 p
                 @ concat (map (\<lambda>(n, v). utf8 n @ utf8 v)
                     (renegadeHeaders rt
                        (DAList.update ''x-renegade-auth-expiration'' (toString (now + 10000)) H)))
                 @ utf8 (signedBody rt d)) = (utf8 p
                 @ concat (map (\<lambda>(n, v). utf8 n @ utf8 v)
                     (renegadeHeaders rt
                        (DAList.update ''x-renegade-auth-expiration'' (toString (now + 10000)) H')))
                 @ utf8 (signedBody rt d)) \<and> DAList.lookup (cfg_headers (addAuthInterceptor rt c now
                 \<lparr> cfg_method = m, cfg_url = Some p, cfg_headers = H, cfg_data = d \<rparr>))
                 ''x-renegade-auth'' = DAList.lookup (cfg_headers (addAuthInterceptor rt c now
                 \<lparr> cfg_method = m, cfg_url = Some p, cfg_headers = H', cfg_data = d \<rparr>))
                 ''x-renegade-auth''"
      unfolding 1 2 [OF h] by simp
  qed
  have C: "\<forall>H p p' d. p \<noteq> p' \<longrightarrow> (utf8 p
                 @ concat (map (\<lambda>(n, v). utf8 n @ utf8 v)
                     (renegadeHeaders rt
                        (DAList.update ''x-renegade-auth-expiration'' (toString (now + 10000)) H)))
                 @ utf8 (signedBody rt d)) \<noteq> (utf8 p'
                 @ concat (map (\<lambda>(n, v). utf8 n @ utf8 v)
                     (renegadeHeaders rt
                        (DAList.update ''x-renegade-auth-expiration'' (toString (now + 10000)) H)))
                 @ utf8 (signedBody rt d))"
    using 3 by blast
  have D: "\<forall>H p d d'. signedBody rt d \<noteq> signedBody rt d' \<longrightarrow> (utf8 p
                 @ concat (map (\<lambda>(n, v). utf8 n @ utf8 v)
                     (renegadeHeaders rt
                        (DAList.update ''x-renegade-auth-expiration'' (toString (now + 10000)) H)))
                 @ utf8 (signedBody rt d)) \<noteq> (utf8 p
                 @ concat (map (\<lambda>(n, v). utf8 n @ utf8 v)
                     (renegadeHeaders rt
                        (DAList.update ''x-renegade-auth-expiration'' (toString (now + 10000)) H)))
                 @ utf8 (signedBody rt d'))"
  proof (intro allI impI)
    fix H :: headers and p d d'
    assume "signedBody rt d \<noteq> signedBody rt d'"
    then show "(utf8 p
                 @ concat (map (\<lambda>(n, v). utf8 n @ utf8 v)
                     (renegadeHeaders rt
                        (DAList.update ''x-renegade-auth-expiration'' (toString (now + 10000)) H)))
                 @ utf8 (signedBody rt d)) \<noteq> (utf8 p
                 @ concat (map (\<lambda>(n, v). utf8 n @ utf8 v)
                     (renegadeHeaders rt
                        (DAList.update ''x-renegade-auth-expiration'' (toString (now + 10000)) H)))
                 @ utf8 (signedBody rt d'))"
      using utf8_inj by auto
  qed
  have E: "\<forall>H p d n v v'.
           startsWith (toLowerCase n) ''x-renegade'' \<and> toLowerCase n \<noteq> ''x-renegade-auth''
           \<and> n \<noteq> ''x-renegade-auth-expiration'' \<and> v \<noteq> v'
           \<longrightarrow> (utf8 p
                 @ concat (map (\<lambda>(n, v). utf8 n @ utf8 v)
                     (renegadeHeaders rt
                        (DAList.update ''x-renegade-auth-expiration'' (toString (now + 10000)) (DAList.update n v H))))
                 @ utf8 (signedBody rt d)) \<noteq> (utf8 p
                 @ concat (map (\<lambda>(n, v). utf8 n @ utf8 v)
                     (renegadeHeaders rt
                        (DAList.update ''x-renegade-auth-expiration'' (toString (now + 10000)) (DAList.update n v' H))))
                 @ utf8 (signedBody rt d))"
  proof (intro allI impI)
    fix H :: headers and p :: string and d :: jsval and n v v' :: string
    assume h: "startsWith (toLowerCase n) ''x-renegade'' \<and> toLowerCase n \<noteq> ''x-renegade-auth''
           \<and> n \<noteq> ''x-renegade-auth-expiration'' \<and> v \<noteq> v'"
    then have "concat (map (\<lambda>(k, x). utf8 k @ utf8 x)
           (renegadeHeaders rt (DAList.update ''x-renegade-auth-expiration'' (toString (now + 10000)) (DAList.update n v H))))
       \<noteq> concat (map (\<lambda>(k, x). utf8 k @ utf8 x)
           (renegadeHeaders rt (DAList.update ''x-renegade-auth-expiration'' (toString (now + 10000)) (DAList.update n v' H))))"
      using revalue_changes_bytes [of n v v' rt "toString (now + 10000)" H] by blast
    then show "(utf8 p
                 @ concat (map (\<lambda>(n, v). utf8 n @ utf8 v)
                     (renegadeHeaders rt
                        (DAList.update ''x-renegade-auth-expiration'' (toString (now + 10000)) (DAList.update n v H))))
                 @ utf8 (signedBody rt d)) \<noteq> (utf8 p
                 @ concat (map (\<lambda>(n, v). utf8 n @ utf8 v)
                     (renegadeHeaders rt
                        (DAList.update ''x-renegade-auth-expiration'' (toString (now + 10000)) (DAList.update n v' H))))
                 @ utf8 (signedBody rt d))"
      by simp
  qed
  have G: "\<forall>H p d n v.
           startsWith (toLowerCase n) ''x-renegade'' \<and> toLowerCase n \<noteq> ''x-renegade-auth''
           \<and> n \<noteq> ''x-renegade-auth-expiration'' \<and> DAList.lookup H n = None
           \<longrightarrow> (utf8 p
                 @ concat (map (\<lambda>(n, v). utf8 n @ utf8 v)
                     (renegadeHeaders rt
                        (DAList.update ''x-renegade-auth-expiration'' (toString (now + 10000)) (DAList.update n v H))))
                 @ utf8 (signedBody rt d)) \<noteq> (utf8 p
                 @ concat (map (\<lambda>(n, v). utf8 n @ utf8 v)
                     (renegadeHeaders rt
                        (DAList.update ''x-renegade-auth-expiration'' (toString (now + 10000)) H)))
                 @ utf8 (signedBody rt d))"
  proof (intro allI impI)
    fix H :: headers and p :: string and d :: jsval and n v :: string
    assume h: "startsWith (toLowerCase n) ''x-renegade'' \<and> toLowerCase n \<noteq> ''x-renegade-auth''
           \<and> n \<noteq> ''x-renegade-auth-expiration'' \<and> DAList.lookup H n = None"
    then have "concat (map (\<lambda>(k, x). utf8 k @ utf8 x)
           (renegadeHeaders rt (DAList.update ''x-renegade-auth-expiration'' (toString (now + 10000)) (DAList.update n v H))))
       \<noteq> concat (map (\<lambda>(k, x). utf8 k @ utf8 x)
           (renegadeHeaders rt (DAList.update ''x-renegade-auth-expiration'' (toString (now + 10000)) H)))"
      using added_header_changes_bytes [of n H rt "toString (now + 10000)" v] by blast
    then show "(utf8 p
                 @ concat (map (\<lambda>(n, v). utf8 n @ utf8 v)
                     (renegadeHeaders rt
                        (DAList.update ''x-renegade-auth-expiration'' (toString (now + 10000)) (DAList.update n v H))))
                 @ utf8 (signedBody rt d)) \<noteq> (utf8 p
                 @ concat (map (\<lambda>(n, v). utf8 n @ utf8 v)
                     (renegadeHeaders rt
                        (DAList.update ''x-renegade-auth-expiration'' (toString (now + 10000)) H)))
                 @ utf8 (signedBody rt d))"
      by simp
  qed
  have ow: "DAList.update ''x-renegade-auth-expiration'' ?e (DAList.update ''x-renegade-auth-expiration'' v H)
      = DAList.update ''x-renegade-auth-expiration'' ?e H" for v and H :: headers
    by (rule expiration_overwritten)
  have X: "\<forall>H p d v. (utf8 p
                 @ concat (map (\<lambda>(n, v). utf8 n @ utf8 v)
                     (renegadeHeaders rt
                        (DAList.update ''x-renegade-auth-expiration'' (toString (now + 10000)) (DAList.update ''x-renegade-auth-expiration'' v H))))
                 @ utf8 (signedBody rt d)) = (utf8 p
                 @ concat (map (\<lambda>(n, v). utf8 n @ utf8 v)
                     (renegadeHeaders rt
                        (DAList.update ''x-renegade-auth-expiration'' (toString (now + 10000)) H)))
                 @ utf8 (signedBody rt d))"
    unfolding ow by simp
  have F: "\<forall>H p d H' p' d'. (DAList.lookup (cfg_headers (addAuthInterceptor rt c now
                 \<lparr> cfg_method = m, cfg_url = Some p, cfg_headers = H, cfg_data = d \<rparr>))
                 ''x-renegade-auth'' = DAList.lookup (cfg_headers (addAuthInterceptor rt c now
                 \<lparr> cfg_method = m, cfg_url = Some p', cfg_headers = H', cfg_data = d' \<rparr>))
                 ''x-renegade-auth'')
           = (hmacSha256 rt (authKey c) (utf8 p
                 @ concat (map (\<lambda>(n, v). utf8 n @ utf8 v)
                     (renegadeHeaders rt
                        (DAList.update ''x-renegade-auth-expiration'' (toString (now + 10000)) H)))
                 @ utf8 (signedBody rt d)) = hmacSha256 rt (authKey c) (utf8 p'
                 @ concat (map (\<lambda>(n, v). utf8 n @ utf8 v)
                     (renegadeHeaders rt
                        (DAList.update ''x-renegade-auth-expiration'' (toString (now + 10000)) H')))
                 @ utf8 (signedBody rt d')))"
    unfolding 1 using encodeBase64_inj by auto
  show ?thesis
    unfolding Let_def
    by (rule conjI [OF A conjI [OF B conjI [OF C conjI [OF D conjI [OF E conjI [OF G conjI [OF X F]]]]]]])
qed

text \<open>C4 at two paths, two bodies, two values of the API key header, a request with and
  without that header, and two orders of two headers under \<open>localeCompare\<close> as the engine
  has it.\<close>

theorem C4_signature_function_witness:
  "\<forall>rt c now.
    (let msg = (\<lambda>H p d. utf8 p
                 @ concat (map (\<lambda>(n, v). utf8 n @ utf8 v)
                     (renegadeHeaders rt
                        (DAList.update ''x-renegade-auth-expiration'' (toString (now + 10000)) H)))
                 @ utf8 (signedBody rt d))
     in msg DAList.empty ''/v0/a'' JUndefined \<noteq> msg DAList.empty ''/v0/b'' JUndefined
      \<and> msg DAList.empty ''/v0/a'' (JString ''{x:1}'') \<noteq> msg DAList.empty ''/v0/a'' (JString ''{x:2}'')
      \<and> msg (DAList.update ''x-renegade-api-key'' ''key-1'' DAList.empty) ''/v0/a'' JUndefined
          \<noteq> msg (DAList.update ''x-renegade-api-key'' ''key-2'' DAList.empty) ''/v0/a'' JUndefined
      \<and> msg (DAList.update ''x-renegade-api-key'' ''key-1'' DAList.empty) ''/v0/a'' JUndefined
          \<noteq> msg DAList.empty ''/v0/a'' JUndefined)
    \<and> DAList.lookup (cfg_headers (addAuthInterceptor (rt \<lparr> localeCompare := asciiLocaleCompare \<rparr>) c now
          \<lparr> cfg_method = ''get'', cfg_url = Some ''/v0/a'',
            cfg_headers = (DAList.update ''x-renegade-sdk-version'' ''typescript-v0.1.8'' (DAList.update ''x-renegade-api-key'' ''key'' DAList.empty)),
            cfg_data = JUndefined \<rparr>)) ''x-renegade-auth''
      = DAList.lookup (cfg_headers (addAuthInterceptor (rt \<lparr> localeCompare := asciiLocaleCompare \<rparr>) c now
          \<lparr> cfg_method = ''get'', cfg_url = Some ''/v0/a'',
            cfg_headers = (DAList.update ''x-renegade-api-key'' ''key'' (DAList.update ''x-renegade-sdk-version'' ''typescript-v0.1.8'' DAList.empty)),
            cfg_data = JUndefined \<rparr>)) ''x-renegade-auth''"
proof (intro allI conjI)
  fix rt :: runtime and c :: RelayerHttpClient and now :: int
  note inst = C4_signature_function [of rt now c "''get''", unfolded Let_def]
  have p: "''/v0/a'' \<noteq> ''/v0/b''" by simp
  have b: "signedBody rt (JString ''{x:1}'') \<noteq> signedBody rt (JString ''{x:2}'')"
    by (simp add: signedBody_def)
  have s: "startsWith (toLowerCase ''x-renegade-api-key'') ''x-renegade''
      \<and> toLowerCase ''x-renegade-api-key'' \<noteq> ''x-renegade-auth''
      \<and> ''x-renegade-api-key'' \<noteq> ''x-renegade-auth-expiration'' \<and> ''key-1'' \<noteq> ''key-2''"
    by code_simp
  have g: "startsWith (toLowerCase ''x-renegade-api-key'') ''x-renegade''
      \<and> toLowerCase ''x-renegade-api-key'' \<noteq> ''x-renegade-auth''
      \<and> ''x-renegade-api-key'' \<noteq> ''x-renegade-auth-expiration''
      \<and> DAList.lookup (DAList.empty :: headers) ''x-renegade-api-key'' = None"
  proof -
    have "startsWith (toLowerCase ''x-renegade-api-key'') ''x-renegade''
      \<and> toLowerCase ''x-renegade-api-key'' \<noteq> ''x-renegade-auth''
      \<and> ''x-renegade-api-key'' \<noteq> ''x-renegade-auth-expiration''"
      by code_simp
    moreover have "DAList.lookup (DAList.empty :: headers) ''x-renegade-api-key'' = None"
      by (simp add: lookup.rep_eq empty.rep_eq)
    ultimately show ?thesis by simp
  qed
  note C = inst [THEN conjunct2, THEN conjunct2, THEN conjunct1, rule_format]
  note D = inst [THEN conjunct2, THEN conjunct2, THEN conjunct2, THEN conjunct1, rule_format]
  note E = inst [THEN conjunct2, THEN conjunct2, THEN conjunct2, THEN conjunct2, THEN conjunct1,
      rule_format]
  note G = inst [THEN conjunct2, THEN conjunct2, THEN conjunct2, THEN conjunct2, THEN conjunct2,
      THEN conjunct1, rule_format]
  show "let msg = (\<lambda>H p d. utf8 p
                 @ concat (map (\<lambda>(n, v). utf8 n @ utf8 v)
                     (renegadeHeaders rt
                        (DAList.update ''x-renegade-auth-expiration'' (toString (now + 10000)) H)))
                 @ utf8 (signedBody rt d))
     in msg DAList.empty ''/v0/a'' JUndefined \<noteq> msg DAList.empty ''/v0/b'' JUndefined
      \<and> msg DAList.empty ''/v0/a'' (JString ''{x:1}'') \<noteq> msg DAList.empty ''/v0/a'' (JString ''{x:2}'')
      \<and> msg (DAList.update ''x-renegade-api-key'' ''key-1'' DAList.empty) ''/v0/a'' JUndefined
          \<noteq> msg (DAList.update ''x-renegade-api-key'' ''key-2'' DAList.empty) ''/v0/a'' JUndefined
      \<and> msg (DAList.update ''x-renegade-api-key'' ''key-1'' DAList.empty) ''/v0/a'' JUndefined
          \<noteq> msg DAList.empty ''/v0/a'' JUndefined"
    unfolding Let_def
    by (intro conjI) (rule C [OF p], rule D [OF b], rule E [OF s], rule G [OF g])
next
  fix rt :: runtime and c :: RelayerHttpClient and now :: int
  let ?rt = "rt \<lparr> localeCompare := asciiLocaleCompare \<rparr>"
  let ?H1 = "DAList.update ''x-renegade-sdk-version'' ''typescript-v0.1.8'' (DAList.update ''x-renegade-api-key'' ''key'' DAList.empty) :: headers"
  let ?H2 = "DAList.update ''x-renegade-api-key'' ''key'' (DAList.update ''x-renegade-sdk-version'' ''typescript-v0.1.8'' DAList.empty) :: headers"
  note inst = C4_signature_function [of ?rt now c "''get''", unfolded Let_def]
  have m: "mset (DAList.impl_of ?H1) = mset (DAList.impl_of ?H2)"
    by (simp add: update.rep_eq empty.rep_eq)
  have anti: "\<forall>a b. a \<in> insert ''x-renegade-auth-expiration'' (fst ` set (DAList.impl_of ?H1))
                  \<and> b \<in> insert ''x-renegade-auth-expiration'' (fst ` set (DAList.impl_of ?H1))
                  \<and> compare (localeCompare ?rt) a b = Equiv \<longrightarrow> a = b"
    using asciiLocaleCompare_equiv by simp
  note B = inst [THEN conjunct2, THEN conjunct1, rule_format]
  show "DAList.lookup (cfg_headers (addAuthInterceptor ?rt c now
          \<lparr> cfg_method = ''get'', cfg_url = Some ''/v0/a'',
            cfg_headers = ?H1,
            cfg_data = JUndefined \<rparr>)) ''x-renegade-auth''
      = DAList.lookup (cfg_headers (addAuthInterceptor ?rt c now
          \<lparr> cfg_method = ''get'', cfg_url = Some ''/v0/a'',
            cfg_headers = ?H2,
            cfg_data = JUndefined \<rparr>)) ''x-renegade-auth''"
    using B [of ?H1 ?H2 "''/v0/a''" JUndefined] m anti by blast
qed

section \<open>The JSON codec\<close>

subsection \<open>Decimal digits\<close>

lemma of_char_digitChar: "d < 10 \<Longrightarrow> (of_char (digitChar d) :: nat) = 48 + d"
  by (simp add: digitChar_def)

lemma isDigit_digitChar: "d < 10 \<Longrightarrow> isDigit (digitChar d)"
  by (simp add: isDigit_def of_char_digitChar)

lemma natToString_digits: "\<forall>c \<in> set (natToString n). isDigit c"
proof (induction n rule: natToString.induct)
  case (1 n)
  show ?case
  proof (cases "n < 10")
    case True
    then show ?thesis by (subst natToString.simps) (simp add: isDigit_digitChar)
  next
    case False
    then have "\<forall>c \<in> set (natToString (n div 10)). isDigit c" using 1 by simp
    moreover have "isDigit (digitChar (n mod 10))" by (rule isDigit_digitChar) simp
    ultimately show ?thesis using False by (subst natToString.simps) simp
  qed
qed

lemma natToString_nonempty: "natToString n \<noteq> []"
  by (subst natToString.simps) simp

lemma digitsToNat_snoc: "digitsToNat (ds @ [c]) = 10 * digitsToNat ds + (of_char c - 48)"
  by (simp add: digitsToNat_def)

lemma digitsToNat_natToString: "digitsToNat (natToString n) = n"
proof (induction n rule: natToString.induct)
  case (1 n)
  show ?case
  proof (cases "n < 10")
    case True
    then show ?thesis
      by (subst natToString.simps) (simp add: digitsToNat_def of_char_digitChar)
  next
    case False
    then have ih: "digitsToNat (natToString (n div 10)) = n div 10" using 1 by simp
    have "digitsToNat (natToString (n div 10) @ [digitChar (n mod 10)]) = n"
      by (simp add: digitsToNat_snoc ih of_char_digitChar)
    then show ?thesis using False by (subst natToString.simps) simp
  qed
qed

lemma not_digit_brace: "\<not> isDigit (CHR ''}'')"
  by (simp add: isDigit_def)

lemma span_digits:
  assumes "\<forall>c \<in> set ds. isDigit c"
  shows "takeWhile isDigit (ds @ CHR ''}'' # r) = ds"
    and "dropWhile isDigit (ds @ CHR ''}'' # r) = CHR ''}'' # r"
  using assms not_digit_brace by (simp_all add: takeWhile_append2 dropWhile_append2)

lemma hd_natToString: "isDigit (hd (natToString n))"
  using natToString_digits [of n] natToString_nonempty [of n] by (cases "natToString n") auto

lemma minus_not_digit: "\<not> isDigit (CHR ''-'')"
  by (simp add: isDigit_def)

lemma parseNumber_toString:
  "parseNumber (toString i @ CHR ''}'' # r) = Some (JBigInt i, CHR ''}'' # r)"
proof (cases "i < 0")
  case True
  let ?ds = "natToString (nat (- i))"
  have s: "toString i @ CHR ''}'' # r = CHR ''-'' # (?ds @ CHR ''}'' # r)"
    using True by (simp add: toString_def)
  have v: "- int (digitsToNat ?ds) = i" using True by (simp add: digitsToNat_natToString)
  show ?thesis
    unfolding s parseNumber_def
    using v natToString_nonempty [of "nat (- i)"]
    by (simp add: Let_def span_digits [OF natToString_digits])
next
  case False
  let ?ds = "natToString (nat i)"
  have s: "toString i @ CHR ''}'' # r = ?ds @ CHR ''}'' # r"
    using False by (simp add: toString_def)
  have v: "int (digitsToNat ?ds) = i" using False by (simp add: digitsToNat_natToString)
  have h: "hd (?ds @ CHR ''}'' # r) \<noteq> CHR ''-''"
    using hd_natToString [of "nat i"] natToString_nonempty [of "nat i"] minus_not_digit
    by (auto simp add: hd_append)
  show ?thesis
    unfolding s parseNumber_def
    using v h natToString_nonempty [of "nat i"]
    by (simp add: Let_def span_digits [OF natToString_digits])
qed

subsection \<open>An object with one integer\<close>

lemma toString_head:
  "\<exists>c cs. toString i = c # cs \<and> (c = CHR ''-'' \<or> isDigit c) \<and> \<not> isWs c"
proof (cases "i < 0")
  case True
  then show ?thesis by (simp add: toString_def isWs_def)
next
  case False
  obtain c cs where cs: "natToString (nat i) = c # cs"
    using natToString_nonempty [of "nat i"] by (cases "natToString (nat i)") auto
  then have d: "isDigit c" using hd_natToString [of "nat i"] by simp
  then have "\<not> isWs c" by (auto simp add: isWs_def isDigit_def)
  with cs d False show ?thesis by (simp add: toString_def)
qed

lemma parseValue_number:
  "parseValue (Suc fuel) (toString i @ CHR ''}'' # r) = Some (JBigInt i, CHR ''}'' # r)"
proof -
  obtain c cs where t: "toString i = c # cs" and c: "c = CHR ''-'' \<or> isDigit c" and w: "\<not> isWs c"
    using toString_head by blast
  have brace: "c \<noteq> CHR ''{''" "c \<noteq> CHR ''[''" "c \<noteq> CHR 0x22"
    using c by (auto simp add: isDigit_def)
  have "parseValue (Suc fuel) (c # cs @ CHR ''}'' # r) = parseNumber (c # cs @ CHR ''}'' # r)"
    using c w brace by (simp add: skipWs_def)
  then show ?thesis
    using parseNumber_toString [of i r] by (simp add: t)
qed

lemma parseString_amount:
  "parseString [] (''amount'' @ CHR 0x22 # r) = Some (''amount'', r)"
  by simp

lemma parseValue_amount:
  "parseValue (Suc (Suc (Suc fuel))) (CHR ''{'' # CHR 0x22 # ''amount'' @ CHR 0x22 # CHR '':'' # toString i @ ''}'')
     = Some (JObject [(''amount'', JBigInt i)], [])"
proof -
  have m: "parseMembers (Suc (Suc fuel)) [] (CHR 0x22 # ''amount'' @ CHR 0x22 # CHR '':'' # toString i @ ''}'')
     = Some (JObject [(''amount'', JBigInt i)], [])"
    using parseValue_number [of fuel i "[]"] parseString_amount [of "CHR '':'' # toString i @ ''}''"]
    by (simp add: skipWs_def isWs_def)
  then show ?thesis by (simp add: skipWs_def isWs_def)
qed

lemma quote_amount: "quoteString ''amount'' = CHR 0x22 # ''amount'' @ [CHR 0x22]"
  by (simp add: quoteString_def escapeChar_def)

lemma json_stringify_amount:
  "json_stringify (JObject [(''amount'', JBigInt i)])
     = CHR ''{'' # CHR 0x22 # ''amount'' @ CHR 0x22 # CHR '':'' # toString i @ ''}''"
  by (simp add: json_stringify_def quote_amount)

lemma json_parse_amount:
  "json_parse (CHR ''{'' # CHR 0x22 # ''amount'' @ CHR 0x22 # CHR '':'' # toString i @ ''}'')
     = Inr (JObject [(''amount'', JBigInt i)])"
proof -
  let ?s = "CHR ''{'' # CHR 0x22 # ''amount'' @ CHR 0x22 # CHR '':'' # toString i @ ''}''"
  obtain k where k: "length ?s = Suc (Suc k)" by simp
  show ?thesis
    unfolding json_parse_def k using parseValue_amount [of k i] by (simp add: skipWs_def)
qed

subsection \<open>\<open>parseBigJSON\<close> on text that does not parse\<close>

lemma jsonNumber_examples:
  "jsonNumber ''0''" "jsonNumber ''-12''" "jsonNumber ''10.50''" "jsonNumber ''-0.5e+10''"
  "jsonNumber ''1E3''" "\<not> jsonNumber ''1.''" "\<not> jsonNumber ''-''" "\<not> jsonNumber ''1e''"
  "\<not> jsonNumber ''+1''" "\<not> jsonNumber ''1 2''" "\<not> jsonNumber ''00''"
  by (simp_all add: jsonNumber_def jsonInt_def jsonFrac_def jsonExp_def isDigit_def)

lemma json_parse_leading_zero: "json_parse ''01'' = Inr (JBigInt 1)"
  by (simp add: json_parse_def skipWs_def isWs_def isDigit_def parseNumber_def digitsToNat_def)

lemma json_parse_not_json: "json_parse ''not json'' = Inl syntaxError"
  by (simp add: json_parse_def skipWs_def isWs_def isDigit_def parseWord_def)

lemma json_parse_empty_object: "json_parse ''{}'' = Inr (JObject [])"
  by (simp add: json_parse_def skipWs_def isWs_def isDigit_def)

text \<open>
  Claim C7 as it is written fails. The text \<open>01\<close> is not valid JSON: it starts with a
  digit, and the grammar gives a number no leading zero. The parser of the processor
  reads digits without that check (the codec above does as \<open>json-bigint\<close> does), so
  \<open>parseBigJSON('01')\<close> returns the \<open>bigint\<close> \<open>1\<close>, not the text, and the console
  receives nothing.
\<close>

theorem C7_leading_zero_counterexample:
  "\<forall>rt. \<not> jsonNumber ''01''
      \<and> parseBigJSON (rt \<lparr> jsonParse := json_parse \<rparr>) ''01'' = (Inr (JBigInt 1), [])"
  by (simp add: parseBigJSON_def json_parse_leading_zero jsonNumber_def jsonInt_def isDigit_def)

text \<open>
  Claim C7, amended. For every string \<open>s\<close> on which the parser of the JSON processor
  throws, \<open>parseBigJSON(s)\<close> returns \<open>s\<close> itself and gives \<open>console.error\<close> one line,
  with the error; for every \<open>s\<close> on which the parser returns a value, \<open>parseBigJSON(s)\<close>
  returns that value and the console receives nothing; and \<open>parseBigJSON\<close> returns a
  value, and does not throw, for every string.
\<close>

theorem C7_parse_failure:
  "(\<forall>e. jsonParse rt s = Inl e \<longrightarrow>
      parseBigJSON rt s = (Inr (JString s), [(''Failed to parse JSON with BigInt'', e)]))
   \<and> (\<forall>v. jsonParse rt s = Inr v \<longrightarrow> parseBigJSON rt s = (Inr v, []))
   \<and> (\<exists>v out. parseBigJSON rt s = (Inr v, out))"
  by (cases "jsonParse rt s") (simp_all add: parseBigJSON_def)

text \<open>C7 with the parser of the codec above, at a text it refuses and at a text it
  accepts.\<close>

theorem C7_parse_failure_witness:
  "\<forall>rt. parseBigJSON (rt \<lparr> jsonParse := json_parse \<rparr>) ''not json''
        = (Inr (JString ''not json''), [(''Failed to parse JSON with BigInt'', syntaxError)])
      \<and> parseBigJSON (rt \<lparr> jsonParse := json_parse \<rparr>) ''{}'' = (Inr (JObject []), [])"
proof (intro allI conjI)
  fix rt :: runtime
  have "jsonParse (rt \<lparr> jsonParse := json_parse \<rparr>) ''not json'' = Inl syntaxError"
    by (simp add: json_parse_not_json)
  then show "parseBigJSON (rt \<lparr> jsonParse := json_parse \<rparr>) ''not json''
     = (Inr (JString ''not json''), [(''Failed to parse JSON with BigInt'', syntaxError)])"
    using C7_parse_failure [of "rt \<lparr> jsonParse := json_parse \<rparr>" "''not json''"] by blast
next
  fix rt :: runtime
  have "jsonParse (rt \<lparr> jsonParse := json_parse \<rparr>) ''{}'' = Inr (JObject [])"
    by (simp add: json_parse_empty_object)
  then show "parseBigJSON (rt \<lparr> jsonParse := json_parse \<rparr>) ''{}'' = (Inr (JObject []), [])"
    using C7_parse_failure [of "rt \<lparr> jsonParse := json_parse \<rparr>" "''{}''"] by blast
qed

subsection \<open>Integers beyond the safe range\<close>

text \<open>
  Claim C2, for the codec above. For every integer \<open>i\<close>, so for every one beyond
  \<open>2^53 - 1\<close> in magnitude: \<open>stringifyBigJSON({amount: i})\<close> is the text
  \<open>{"amount":\<close> followed by the decimal digits of \<open>i\<close> (with its sign) and \<open>}\<close>, the
  integer bare and unquoted; \<open>parseBigJSON\<close> of that text is the object again, with no
  line on the console; and its \<open>amount\<close> is the \<open>bigint\<close> \<open>i\<close>, not a string.
\<close>

theorem C2_bigint_roundtrip:
  "(let codec = rt \<lparr> jsonParse := json_parse, jsonStringify := json_stringify \<rparr>;
        v = JObject [(''amount'', JBigInt i)]
    in stringifyBigJSON codec v
         = CHR ''{'' # CHR 0x22 # ''amount'' @ CHR 0x22 # CHR '':'' # toString i @ ''}''
     \<and> parseBigJSON codec (stringifyBigJSON codec v) = (Inr v, [])
     \<and> getProp v ''amount'' = Inr (JBigInt i))"
proof -
  let ?codec = "rt \<lparr> jsonParse := json_parse, jsonStringify := json_stringify \<rparr>"
  have jp: "jsonParse ?codec = json_parse" and js: "jsonStringify ?codec = json_stringify"
    by simp_all
  show ?thesis
    unfolding Let_def stringifyBigJSON_def parseBigJSON_def jp js
      json_stringify_amount json_parse_amount
    by simp
qed

lemma toString_example: "toString 9007199254740993 = ''9007199254740993''"
  by (simp add: toString_def natToString.simps digitChar_def digit_chars)

text \<open>C2 at \<open>2^53 + 1\<close>, the first integer a double cannot hold.\<close>

theorem C2_bigint_roundtrip_witness:
  \<open>\<forall>rt. (let codec = rt \<lparr> jsonParse := json_parse, jsonStringify := json_stringify \<rparr>
         in stringifyBigJSON codec (JObject [(''amount'', JBigInt 9007199254740993)])
              = ''{"amount":9007199254740993}''
          \<and> parseBigJSON codec ''{"amount":9007199254740993}''
              = (Inr (JObject [(''amount'', JBigInt 9007199254740993)]), []))\<close>
proof
  fix rt :: runtime
  let ?codec = "rt \<lparr> jsonParse := json_parse, jsonStringify := json_stringify \<rparr>"
  let ?v = "JObject [(''amount'', JBigInt 9007199254740993)]"
  note inst = C2_bigint_roundtrip [of rt 9007199254740993, unfolded Let_def toString_example]
  have enc: \<open>stringifyBigJSON ?codec ?v = ''{"amount":9007199254740993}''\<close>
    using inst [THEN conjunct1] by simp
  have \<open>parseBigJSON ?codec (stringifyBigJSON ?codec ?v) = (Inr ?v, [])\<close>
    using inst [THEN conjunct2, THEN conjunct1] .
  then have dec: \<open>parseBigJSON ?codec ''{"amount":9007199254740993}'' = (Inr ?v, [])\<close>
    unfolding enc .
  show \<open>let codec = ?codec
         in stringifyBigJSON codec ?v = ''{"amount":9007199254740993}''
          \<and> parseBigJSON codec ''{"amount":9007199254740993}'' = (Inr ?v, [])\<close>
    unfolding Let_def using enc dec by (rule conjI)
qed

end
